(* ===== verification/Prelude.thy ===== *)
theory Prelude
  imports Main "HOL-Library.Word"
begin

text \<open>
  Shared vocabulary of the development: the collections of rewrite rules, the
  machine types of the Go program, slices with their spare capacity, maps with
  Go's zero-value lookup, and the generic facts about lists and powers of two
  that the component theories use.
\<close>

named_theorems go_defs \<open>definitions that unfold one operation of the source\<close>
named_theorems go_simps \<open>rewrite rules of the component models\<close>
named_theorems fp_simps \<open>rewrite rules of the floating-point model\<close>

type_synonym byte = "8 word"
type_synonym uint16 = "16 word"
type_synonym uint32 = "32 word"
type_synonym uint64 = "64 word"

section \<open>Results of operations\<close>

text \<open>
  Go code returns a value and an error: the error is the left summand, tagged
  with the message format the source builds it from. A run-time panic and a loop
  that never ends are outcomes of their own.
\<close>

type_synonym 'a result = "string + 'a"

datatype 'a outcome = Done 'a | Panic | Diverge

fun is_done :: "'a outcome \<Rightarrow> bool" where
  "is_done (Done _) = True"
| "is_done _ = False"

section \<open>Slices\<close>

text \<open>
  A Go slice sees its first bytes (its length) and may have further bytes of the
  backing array behind them (its capacity). A slice expression with an explicit
  upper bound is checked against the capacity, one without against the length.
\<close>

record gslice =
  visible :: "byte list"
  spare :: "byte list"

abbreviation backing :: "gslice \<Rightarrow> byte list" where
  "backing s \<equiv> visible s @ spare s"

definition slice :: "gslice \<Rightarrow> nat \<Rightarrow> nat \<Rightarrow> byte list option" where
  "slice s lo hi =
     (if lo \<le> hi \<and> hi \<le> length (backing s) then Some (take (hi - lo) (drop lo (backing s)))
      else None)"

definition slice_from :: "gslice \<Rightarrow> nat \<Rightarrow> byte list option" where
  "slice_from s lo = (if lo \<le> length (visible s) then Some (drop lo (visible s)) else None)"

lemma slice_length: "slice s lo hi = Some d \<Longrightarrow> length d = hi - lo"
  by (auto simp: slice_def split: if_splits)

lemma slice_within:
  assumes "lo \<le> hi" "hi \<le> length (visible s)"
  shows "slice s lo hi = Some (take (hi - lo) (drop lo (visible s)))"
  using assms by (simp add: slice_def)

section \<open>Maps with a zero value\<close>

text \<open>Indexing a Go map with a missing key gives the zero value of the element type.\<close>

definition lookup0 :: "'v \<Rightarrow> ('k \<rightharpoonup> 'v) \<Rightarrow> 'k \<Rightarrow> 'v" where
  "lookup0 z m k = (case m k of None \<Rightarrow> z | Some v \<Rightarrow> v)"

lemma lookup0_upd [simp]: "lookup0 z (m(k \<mapsto> v)) k' = (if k' = k then v else lookup0 z m k')"
  by (simp add: lookup0_def)

lemma lookup0_empty [simp]: "lookup0 z Map.empty k = z"
  by (simp add: lookup0_def)

section \<open>Evaluation of closed terms\<close>

text \<open>
  Closed instances are evaluated by the simplifier with \<open>let_weak_cong\<close>: the
  bound term is evaluated first, and these rules then pass on its value.
\<close>

lemma Let_literal [go_simps]:
  "Let True f = f True"
  "Let False f = f False"
  "Let (- numeral v) g = g (- numeral v)"
  "Let (- 1) g = g (- 1)"
  "Let (Some x) h = h (Some x)"
  "Let None h = h None"
  by (simp_all add: Let_def)

section \<open>Powers of two and lists\<close>

lemma pow2_split: "k \<le> n \<Longrightarrow> (2::nat) ^ n = 2 ^ k * 2 ^ (n - k)"
  by (simp flip: power_add)

lemma pow2_less_imp_less: "(2::nat) ^ j < 2 ^ k \<Longrightarrow> j < k"
  by (rule power_less_imp_less_exp [of "2::nat", rotated]) simp_all

lemma pow2_pos: "(2::nat) ^ k \<le> n \<Longrightarrow> 0 < n"
  by (erule less_le_trans [rotated]) simp

lemma top_bit_split: "u < 2 * (k::nat) \<Longrightarrow> (if k \<le> u then k else 0) + u mod k = u"
  by (cases "k \<le> u") (simp_all add: le_mod_geq)

lemma unat_of_nat_small: "n < 2 ^ LENGTH('a) \<Longrightarrow> unat (of_nat n :: 'a::len word) = n"
  by (simp add: unat_of_nat take_bit_nat_eq_self)

lemma block_div_mod:
  assumes "r < (x::nat)"
  shows "(a * x + r) div x = a" and "(a * x + r) mod x = r"
  using assms by (simp_all add: div_mult_self3)

lemma find_append: "find P (xs @ ys) = (case find P xs of None \<Rightarrow> find P ys | Some x \<Rightarrow> Some x)"
  by (induction xs) simp_all

lemma concat_map_if: "concat (map (\<lambda>x. if P x then f x else []) xs) = concat (map f (filter P xs))"
  by (induction xs) simp_all

lemma take_append_exact: "length xs = n \<Longrightarrow> take n (xs @ ys) = xs"
  by simp

lemma drop_append_exact: "length xs = n \<Longrightarrow> drop n (xs @ ys) = ys"
  by simp

end
