(* ===== verification/GoFloat.thy ===== *)
theory GoFloat
  imports Prelude
begin

text \<open>
  Go's float64 and float32: binary64 and binary32 bit patterns, with the
  arithmetic the program uses (conversion from and to integers, multiplication,
  division, addition, comparison and math.Pow with base ten), rounded to nearest,
  ties to even. Every definition computes on natural numbers, so closed instances
  are evaluated by the simplifier.
\<close>

type_synonym float64 = "64 word"
type_synonym float32 = "32 word"

text \<open>
  What the Go specification leaves to the implementation: the result of converting
  a float that the integer type cannot represent, and math.Pow with base ten and a
  fractional exponent (computed with Exp and Log, which are not correctly rounded).
\<close>

record go_impl =
  cvt_oor :: "bool \<Rightarrow> nat \<Rightarrow> float64 \<Rightarrow> int"
  pow10_frac :: "float64 \<Rightarrow> float64"

section \<open>Rounding a binary fraction to a format\<close>

fun nbits :: "nat \<Rightarrow> nat" where
  "nbits n = (if n = 0 then 0 else Suc (nbits (n div 2)))"

declare nbits.simps [simp del]

definition rne :: "nat \<Rightarrow> nat \<Rightarrow> nat" where
  "rne n k =
     (let q = n div 2 ^ k; r = n mod 2 ^ k
      in if 2 ^ k < 2 * r \<or> (2 * r = 2 ^ k \<and> odd q) then q + 1 else q)"

text \<open>
  The magnitude bits of the value n * 2^e in a format with precision p and least
  exponent emin. Adding the scaled significand to the exponent field lets a carry
  out of the rounding move into the exponent.
\<close>

definition fp_mag :: "nat \<Rightarrow> int \<Rightarrow> nat \<Rightarrow> int \<Rightarrow> nat" where
  "fp_mag p emin n e =
     (if n = 0 then 0
      else let e' = max emin (e + int (nbits n) - int p);
               m = (if e \<le> e' then rne n (nat (e' - e)) else n * 2 ^ nat (e - e'))
           in nat (e' - emin) * 2 ^ (p - 1) + m)"

definition fp_mant :: "nat \<Rightarrow> nat \<Rightarrow> nat" where
  "fp_mant p g = (if g div 2 ^ (p - 1) = 0 then g mod 2 ^ (p - 1)
                  else g mod 2 ^ (p - 1) + 2 ^ (p - 1))"

definition fp_exp :: "nat \<Rightarrow> int \<Rightarrow> nat \<Rightarrow> int" where
  "fp_exp p emin g = (if g div 2 ^ (p - 1) = 0 then emin else emin + int (g div 2 ^ (p - 1)) - 1)"

section \<open>binary64\<close>

definition f64_inf_mag :: nat where "f64_inf_mag = 2047 * 2 ^ 52"

definition f64_sign :: "float64 \<Rightarrow> bool" where "f64_sign x \<longleftrightarrow> 2 ^ 63 \<le> unat x"
definition f64_mag :: "float64 \<Rightarrow> nat" where "f64_mag x = unat x mod 2 ^ 63"
definition f64_mant :: "float64 \<Rightarrow> nat" where "f64_mant x = fp_mant 53 (f64_mag x)"
definition f64_exp :: "float64 \<Rightarrow> int" where "f64_exp x = fp_exp 53 (- 1074) (f64_mag x)"

definition f64_is_nan :: "float64 \<Rightarrow> bool" where "f64_is_nan x \<longleftrightarrow> f64_inf_mag < f64_mag x"
definition f64_is_inf :: "float64 \<Rightarrow> bool" where "f64_is_inf x \<longleftrightarrow> f64_mag x = f64_inf_mag"
definition f64_finite :: "float64 \<Rightarrow> bool" where "f64_finite x \<longleftrightarrow> f64_mag x < f64_inf_mag"
definition f64_is_zero :: "float64 \<Rightarrow> bool" where "f64_is_zero x \<longleftrightarrow> f64_mag x = 0"

definition f64_make :: "bool \<Rightarrow> nat \<Rightarrow> float64" where
  "f64_make s g = of_nat ((if s then 2 ^ 63 else 0) + g)"

definition f64_pack :: "bool \<Rightarrow> nat \<Rightarrow> int \<Rightarrow> float64" where
  "f64_pack s n e = f64_make s (min f64_inf_mag (fp_mag 53 (- 1074) n e))"

definition f64_nan :: float64 where "f64_nan = 0x7FF8000000000001"
definition f64_inf :: "bool \<Rightarrow> float64" where "f64_inf s = f64_make s f64_inf_mag"

definition f64_of_int :: "int \<Rightarrow> float64" where
  "f64_of_int i = f64_pack (i < 0) (nat \<bar>i\<bar>) 0"

definition f64_abs :: "float64 \<Rightarrow> float64" where "f64_abs x = f64_make False (f64_mag x)"
definition f64_neg :: "float64 \<Rightarrow> float64" where "f64_neg x = f64_make (\<not> f64_sign x) (f64_mag x)"

definition f64_eq :: "float64 \<Rightarrow> float64 \<Rightarrow> bool" where
  "f64_eq x y \<longleftrightarrow> \<not> f64_is_nan x \<and> \<not> f64_is_nan y \<and> (x = y \<or> f64_is_zero x \<and> f64_is_zero y)"

definition f64_key :: "float64 \<Rightarrow> int" where
  "f64_key x = (if f64_sign x then - int (f64_mag x) else int (f64_mag x))"

definition f64_lt :: "float64 \<Rightarrow> float64 \<Rightarrow> bool" where
  "f64_lt x y \<longleftrightarrow> \<not> f64_is_nan x \<and> \<not> f64_is_nan y \<and> f64_key x < f64_key y"

definition f64_mul :: "float64 \<Rightarrow> float64 \<Rightarrow> float64" where
  "f64_mul x y =
     (let s = (f64_sign x \<noteq> f64_sign y)
      in if f64_is_nan x \<or> f64_is_nan y then f64_nan
         else if f64_is_inf x \<or> f64_is_inf y
           then (if f64_is_zero x \<or> f64_is_zero y then f64_nan else f64_inf s)
         else f64_pack s (f64_mant x * f64_mant y) (f64_exp x + f64_exp y))"

text \<open>The quotient keeps at least 57 bits and a sticky bit, enough to round once.\<close>

definition f64_div :: "float64 \<Rightarrow> float64 \<Rightarrow> float64" where
  "f64_div x y =
     (let s = (f64_sign x \<noteq> f64_sign y)
      in if f64_is_nan x \<or> f64_is_nan y then f64_nan
         else if f64_is_inf x then (if f64_is_inf y then f64_nan else f64_inf s)
         else if f64_is_inf y then f64_make s 0
         else if f64_is_zero y then (if f64_is_zero x then f64_nan else f64_inf s)
         else let a = f64_mant x * 2 ^ 110; b = f64_mant y
              in f64_pack s (2 * (a div b) + (if a mod b = 0 then 0 else 1))
                   (f64_exp x - f64_exp y - 111))"

definition f64_add :: "float64 \<Rightarrow> float64 \<Rightarrow> float64" where
  "f64_add x y =
     (if f64_is_nan x \<or> f64_is_nan y then f64_nan
      else if f64_is_inf x then (if f64_is_inf y \<and> f64_sign x \<noteq> f64_sign y then f64_nan else x)
      else if f64_is_inf y then y
      else let e = min (f64_exp x) (f64_exp y);
               a = int (f64_mant x * 2 ^ nat (f64_exp x - e));
               b = int (f64_mant y * 2 ^ nat (f64_exp y - e));
               i = (if f64_sign x then - a else a) + (if f64_sign y then - b else b)
           in if i = 0 then f64_make (f64_sign x \<and> f64_sign y) 0
              else f64_pack (i < 0) (nat \<bar>i\<bar>) e)"

section \<open>Conversion to integers\<close>

text \<open>The integer part, towards zero; meaningful for finite values only.\<close>

definition f64_trunc :: "float64 \<Rightarrow> int" where
  "f64_trunc x =
     (let n = (if 0 \<le> f64_exp x then f64_mant x * 2 ^ nat (f64_exp x)
               else f64_mant x div 2 ^ nat (- f64_exp x))
      in if f64_sign x then - int n else int n)"

definition f64_integral :: "float64 \<Rightarrow> bool" where
  "f64_integral x \<longleftrightarrow>
     f64_finite x \<and> (0 \<le> f64_exp x \<or> f64_mant x mod 2 ^ nat (- f64_exp x) = 0)"

definition int_fits :: "bool \<Rightarrow> nat \<Rightarrow> int \<Rightarrow> bool" where
  "int_fits sgnd w i \<longleftrightarrow>
     (if sgnd then - (2 ^ (w - 1)) \<le> i \<and> i < 2 ^ (w - 1) else 0 \<le> i \<and> i < 2 ^ w)"

definition f64_to_int :: "go_impl \<Rightarrow> bool \<Rightarrow> nat \<Rightarrow> float64 \<Rightarrow> int" where
  "f64_to_int impl sgnd w x =
     (if f64_finite x \<and> int_fits sgnd w (f64_trunc x) then f64_trunc x
      else cvt_oor impl sgnd w x)"

section \<open>binary32\<close>

definition f32_inf_mag :: nat where "f32_inf_mag = 255 * 2 ^ 23"

definition f32_sign :: "float32 \<Rightarrow> bool" where "f32_sign x \<longleftrightarrow> 2 ^ 31 \<le> unat x"
definition f32_mag :: "float32 \<Rightarrow> nat" where "f32_mag x = unat x mod 2 ^ 31"
definition f32_mant :: "float32 \<Rightarrow> nat" where "f32_mant x = fp_mant 24 (f32_mag x)"
definition f32_exp :: "float32 \<Rightarrow> int" where "f32_exp x = fp_exp 24 (- 149) (f32_mag x)"
definition f32_is_nan :: "float32 \<Rightarrow> bool" where "f32_is_nan x \<longleftrightarrow> f32_inf_mag < f32_mag x"
definition f32_nan :: float32 where "f32_nan = 0x7FC00000"

definition f32_make :: "bool \<Rightarrow> nat \<Rightarrow> float32" where
  "f32_make s g = of_nat ((if s then 2 ^ 31 else 0) + g)"

definition f32_pack :: "bool \<Rightarrow> nat \<Rightarrow> int \<Rightarrow> float32" where
  "f32_pack s n e = f32_make s (min f32_inf_mag (fp_mag 24 (- 149) n e))"

definition f32_of_f64 :: "float64 \<Rightarrow> float32" where
  "f32_of_f64 x =
     (if f64_is_nan x then f32_nan
      else if f64_is_inf x then f32_make (f64_sign x) f32_inf_mag
      else f32_pack (f64_sign x) (f64_mant x) (f64_exp x))"

definition f64_of_f32 :: "float32 \<Rightarrow> float64" where
  "f64_of_f32 x =
     (if f32_is_nan x then f64_nan
      else if f32_mag x = f32_inf_mag then f64_inf (f32_sign x)
      else f64_pack (f32_sign x) (f32_mant x) (f32_exp x))"

section \<open>Powers of ten\<close>

definition f64_zero :: float64 where "f64_zero = 0"
definition f64_half :: float64 where "f64_half = 0x3FE0000000000000"
definition f64_one :: float64 where "f64_one = 0x3FF0000000000000"
definition f64_ten :: float64 where "f64_ten = 0x4024000000000000"

text \<open>math.Ldexp: the product with a power of two, rounded once.\<close>

definition f64_ldexp :: "float64 \<Rightarrow> int \<Rightarrow> float64" where
  "f64_ldexp x k = (if f64_finite x then f64_pack (f64_sign x) (f64_mant x) (f64_exp x + k) else x)"

text \<open>The square-and-multiply loop of math.Pow, on fractions in [1/2, 1) and exponents.\<close>

function pow_loop :: "nat \<Rightarrow> float64 \<Rightarrow> int \<Rightarrow> float64 \<Rightarrow> int \<Rightarrow> float64 \<times> int" where
  "pow_loop i x1 xe a1 ae =
     (if i = 0 then (a1, ae)
      else if xe < - 4096 \<or> 4096 < xe then (a1, ae + xe)
      else let a1' = (if odd i then f64_mul a1 x1 else a1);
               ae' = (if odd i then ae + xe else ae);
               x2 = f64_mul x1 x1;
               small = f64_lt x2 f64_half
           in pow_loop (i div 2) (if small then f64_add x2 x2 else x2)
                (if small then 2 * xe - 1 else 2 * xe) a1' ae')"
  by pat_completeness auto
termination
  by (relation "measure (\<lambda>(i, _). i)") auto

declare pow_loop.simps [simp del]

text \<open>math.Pow(10, y); the fraction of ten is 0.625 with exponent 4.\<close>

definition go_pow10 :: "go_impl \<Rightarrow> float64 \<Rightarrow> float64" where
  "go_pow10 impl y =
     (if f64_is_zero y then f64_one
      else if y = f64_one then f64_ten
      else if f64_is_nan y then f64_nan
      else if f64_is_inf y then (if f64_sign y then f64_zero else f64_inf False)
      else if \<not> f64_integral y then pow10_frac impl y
      else let yi = nat \<bar>f64_trunc y\<bar>
           in if 2 ^ 63 \<le> yi then (if f64_sign y then f64_zero else f64_inf False)
              else case pow_loop yi 0x3FE4000000000000 4 f64_one 0 of
                     (a1, ae) \<Rightarrow>
                       if f64_sign y then f64_ldexp (f64_div f64_one a1) (- ae)
                       else f64_ldexp a1 ae)"

section \<open>Rounding is exact on representable values\<close>

lemma nbits_0 [simp]: "nbits 0 = 0"
  by (simp add: nbits.simps)

lemma nbits_bounds: "0 < n \<Longrightarrow> 2 ^ (nbits n - 1) \<le> n \<and> n < 2 ^ nbits n"
proof (induction n rule: nbits.induct)
  case (1 n)
  show ?case
  proof (cases "n = 1")
    case True
    then show ?thesis by (simp add: nbits.simps)
  next
    case False
    with "1.prems" have pos: "0 < n div 2" by simp
    with "1.IH" "1.prems" have ih: "2 ^ (nbits (n div 2) - 1) \<le> n div 2" "n div 2 < 2 ^ nbits (n div 2)"
      by simp_all
    from ih(2) pos have "0 < nbits (n div 2)" by (cases "nbits (n div 2)") auto
    then obtain k where k: "nbits (n div 2) = Suc k" by (cases "nbits (n div 2)") auto
    have "nbits n = Suc (Suc k)" using "1.prems" k by (simp add: nbits.simps [of n])
    moreover have "2 * 2 ^ k \<le> n" "n < 4 * 2 ^ k" using ih k by simp_all
    ultimately show ?thesis by simp
  qed
qed

lemma nbits_pos [simp]: "0 < n \<Longrightarrow> 0 < nbits n"
  by (simp add: nbits.simps)

lemma nbits_unique:
  assumes "2 ^ k \<le> n" "n < 2 ^ Suc k"
  shows "nbits n = Suc k"
proof -
  have pos: "0 < n" using assms(1) by (rule pow2_pos)
  obtain j where j: "nbits n = Suc j" using nbits_pos [OF pos] by (cases "nbits n") auto
  have b: "2 ^ j \<le> n" "n < 2 ^ Suc j" using nbits_bounds [OF pos] by (simp_all add: j)
  have "(2::nat) ^ j < 2 ^ Suc k" "(2::nat) ^ k < 2 ^ Suc j"
    using b assms by linarith+
  then have "j < Suc k" "k < Suc j"
    by (blast intro: pow2_less_imp_less)+
  with j show ?thesis by simp
qed

lemma nbits_le: "n < 2 ^ k \<Longrightarrow> nbits n \<le> k"
proof (cases "n = 0")
  case False
  assume "n < 2 ^ k"
  then have "(2::nat) ^ (nbits n - 1) < 2 ^ k" using nbits_bounds [of n] False by linarith
  then have "nbits n - 1 < k" by (rule pow2_less_imp_less)
  then show ?thesis by simp
qed simp

lemma nbits_mult_pow2: "0 < n \<Longrightarrow> nbits (n * 2 ^ k) = nbits n + k"
proof -
  assume pos: "0 < n"
  obtain j where j: "nbits n = Suc j" using nbits_pos [OF pos] by (cases "nbits n") auto
  have "2 ^ j \<le> n" "n < 2 ^ Suc j" using nbits_bounds [OF pos] by (simp_all add: j)
  then have "2 ^ (j + k) \<le> n * 2 ^ k" "n * 2 ^ k < 2 ^ Suc (j + k)"
    by (simp_all add: power_add)
  then have "nbits (n * 2 ^ k) = Suc (j + k)" by (rule nbits_unique)
  with j show ?thesis by simp
qed

lemma rne_0 [simp]: "rne n 0 = n"
  by (simp add: rne_def)

lemma rne_scale: "rne (n * 2 ^ k) (j + k) = rne n j"
proof -
  have d: "n * 2 ^ k div 2 ^ (j + k) = n div 2 ^ j" by (simp add: power_add)
  have m: "n * 2 ^ k mod 2 ^ (j + k) = (n mod 2 ^ j) * 2 ^ k"
    by (simp add: power_add mod_mult_mult2)
  have c: "(2::nat) ^ (j + k) < 2 * ((n mod 2 ^ j) * 2 ^ k) \<longleftrightarrow> 2 ^ j < 2 * (n mod 2 ^ j)"
    "2 * ((n mod 2 ^ j) * 2 ^ k) = 2 ^ (j + k) \<longleftrightarrow> 2 * (n mod 2 ^ j) = 2 ^ j"
    by (simp_all add: power_add flip: mult.assoc)
  show ?thesis by (simp add: rne_def d m c Let_def)
qed

lemma rne_exact: "j \<le> k \<Longrightarrow> rne (n * 2 ^ k) j = n * 2 ^ (k - j)"
  using rne_scale [of "n * 2 ^ (k - j)" j 0] by (simp add: mult.assoc flip: power_add)

text \<open>Only the value n * 2^e matters, not how it is split.\<close>

lemma fp_mag_scale: "fp_mag p emin (n * 2 ^ k) (e - int k) = fp_mag p emin n e"
proof (cases "n = 0")
  case False
  let ?e = "max emin (e + int (nbits n) - int p)"
  have b: "nbits (n * 2 ^ k) = nbits n + k" using False by (simp add: nbits_mult_pow2)
  have "(if e - int k \<le> ?e then rne (n * 2 ^ k) (nat (?e - (e - int k)))
         else n * 2 ^ k * 2 ^ nat (e - int k - ?e)) =
        (if e \<le> ?e then rne n (nat (?e - e)) else n * 2 ^ nat (e - ?e))"
  proof (cases "e \<le> ?e")
    case True
    then have "nat (?e - (e - int k)) = nat (?e - e) + k" by simp
    with True show ?thesis by (simp add: rne_scale)
  next
    case F: False
    show ?thesis
    proof (cases "e - int k \<le> ?e")
      case True
      with F have "nat (?e - (e - int k)) \<le> k" "k - nat (?e - (e - int k)) = nat (e - ?e)" by auto
      with F True show ?thesis by (simp add: rne_exact)
    next
      case False
      with F have "nat (e - ?e) = k + nat (e - int k - ?e)" by auto
      with F False show ?thesis by (simp add: power_add)
    qed
  qed
  with b False show ?thesis by (simp add: fp_mag_def Let_def)
qed (simp add: fp_mag_def)

lemma fp_mag_0 [simp]: "fp_mag p emin 0 e = 0"
  by (simp add: fp_mag_def)

text \<open>A significand of p bits (or fewer at the least exponent) is stored as it is.\<close>

lemma fp_mag_normal:
  assumes "0 < p" "2 ^ (p - 1) \<le> m" "m < 2 ^ p" "emin \<le> e"
  shows "fp_mag p emin m e = nat (e - emin) * 2 ^ (p - 1) + m"
proof -
  have "nbits m = p" using nbits_unique [of "p - 1" m] assms by simp
  moreover have "0 < m" using assms(2) by (rule pow2_pos)
  ultimately show ?thesis using assms(4) by (simp add: fp_mag_def Let_def)
qed

lemma fp_mag_subnormal:
  assumes "m < 2 ^ (p - 1)"
  shows "fp_mag p emin m emin = m"
proof -
  have "nbits m \<le> p - 1" using assms by (rule nbits_le)
  then have "max emin (emin + int (nbits m) - int p) = emin" by simp
  then show ?thesis by (simp add: fp_mag_def Let_def)
qed

lemma fp_mag_unpack:
  assumes "0 < p"
  shows "fp_mag p emin (fp_mant p g) (fp_exp p emin g) = g"
proof (cases "g div 2 ^ (p - 1) = 0")
  case True
  then have "g < 2 ^ (p - 1)" by (simp add: div_eq_0_iff)
  then show ?thesis using True by (simp add: fp_mant_def fp_exp_def fp_mag_subnormal)
next
  case False
  let ?q = "g div 2 ^ (p - 1)" and ?r = "g mod 2 ^ (p - 1)"
  have "?r < 2 ^ (p - 1)" by simp
  moreover have "(2::nat) ^ p = 2 * 2 ^ (p - 1)" using assms by (simp flip: power_Suc)
  ultimately have "fp_mag p emin (?r + 2 ^ (p - 1)) (emin + int ?q - 1)
      = nat (emin + int ?q - 1 - emin) * 2 ^ (p - 1) + (?r + 2 ^ (p - 1))"
    using False assms by (intro fp_mag_normal) auto
  also have "nat (emin + int ?q - 1 - emin) = ?q - 1" using False by simp
  also have "(?q - 1) * 2 ^ (p - 1) + (?r + 2 ^ (p - 1)) = ?q * 2 ^ (p - 1) + ?r"
  proof -
    obtain q where "?q = Suc q" using False by (cases ?q) auto
    then show ?thesis by simp
  qed
  also have "\<dots> = g" by (rule div_mult_mod_eq)
  finally show ?thesis using False by (simp add: fp_mant_def fp_exp_def)
qed

lemma fp_unpack_normal:
  assumes "0 < p" "2 ^ (p - 1) \<le> m" "m < 2 ^ p" "emin \<le> e"
  shows "fp_mant p (nat (e - emin) * 2 ^ (p - 1) + m) = m"
    and "fp_exp p emin (nat (e - emin) * 2 ^ (p - 1) + m) = e"
proof -
  let ?g = "nat (e - emin) * 2 ^ (p - 1) + m"
  have pp: "(2::nat) ^ p = 2 * 2 ^ (p - 1)" using assms by (simp flip: power_Suc)
  obtain r where r: "m = 2 ^ (p - 1) + r" "r < 2 ^ (p - 1)"
    using assms(2,3) pp by (metis le_Suc_ex add_less_cancel_left mult_2)
  have g: "?g = Suc (nat (e - emin)) * 2 ^ (p - 1) + r" using r by simp
  have d: "?g div 2 ^ (p - 1) = Suc (nat (e - emin))"
    and md: "?g mod 2 ^ (p - 1) = r"
    unfolding g by (rule block_div_mod [OF r(2)])+
  show "fp_mant p ?g = m" unfolding fp_mant_def d md using r(1) by simp
  show "fp_exp p emin ?g = e" unfolding fp_exp_def d using assms(4) by simp
qed

section \<open>Fields of binary64 values\<close>

lemma f64_make_fields:
  assumes "g < 2 ^ 63"
  shows "f64_sign (f64_make s g) = s" and "f64_mag (f64_make s g) = g"
proof -
  have "unat (f64_make s g) = (if s then 2 ^ 63 else 0) + g"
    unfolding f64_make_def using assms by (intro unat_of_nat_small) simp
  then show "f64_sign (f64_make s g) = s" "f64_mag (f64_make s g) = g"
    using assms by (simp_all add: f64_sign_def f64_mag_def)
qed

lemma f64_make_surj: "f64_make (f64_sign x) (f64_mag x) = x"
proof -
  have "unat x < 2 * 2 ^ 63" using unsigned_less [of x] by simp
  then have "(if f64_sign x then 2 ^ 63 else 0) + f64_mag x = unat x"
    unfolding f64_sign_def f64_mag_def by (rule top_bit_split)
  then show ?thesis by (simp add: f64_make_def)
qed

lemma f64_mag_less: "f64_mag x < 2 ^ 63"
  by (simp add: f64_mag_def)

lemma f64_cases:
  obtains "f64_is_nan x" "\<not> f64_is_inf x" "\<not> f64_finite x"
  | "f64_is_inf x" "\<not> f64_is_nan x" "\<not> f64_finite x"
  | "f64_finite x" "\<not> f64_is_nan x" "\<not> f64_is_inf x"
  unfolding f64_is_nan_def f64_is_inf_def f64_finite_def by linarith

lemma f64_pack_unpack:
  assumes "f64_finite x"
  shows "f64_pack (f64_sign x) (f64_mant x) (f64_exp x) = x"
proof -
  have "fp_mag 53 (- 1074) (f64_mant x) (f64_exp x) = f64_mag x"
    by (simp add: f64_mant_def f64_exp_def fp_mag_unpack)
  then have "min f64_inf_mag (fp_mag 53 (- 1074) (f64_mant x) (f64_exp x)) = f64_mag x"
    using assms by (simp add: f64_finite_def)
  then show ?thesis by (simp add: f64_pack_def f64_make_surj)
qed

lemma f64_pack_scale: "f64_pack s (n * 2 ^ k) (e - int k) = f64_pack s n e"
  by (simp add: f64_pack_def fp_mag_scale)

lemma f64_one_fields [fp_simps]:
  "f64_sign f64_one = False" "f64_mant f64_one = 2 ^ 52" "f64_exp f64_one = - 52"
  "f64_is_nan f64_one = False" "f64_is_inf f64_one = False" "f64_is_zero f64_one = False"
  by (simp_all add: f64_one_def f64_sign_def f64_mag_def f64_mant_def f64_exp_def f64_is_nan_def
      f64_is_inf_def f64_is_zero_def f64_inf_mag_def fp_mant_def fp_exp_def)

text \<open>Multiplying by one changes no value but a NaN's payload.\<close>

lemma f64_mul_one:
  assumes "\<not> f64_is_nan x"
  shows "f64_mul x f64_one = x"
proof (cases x rule: f64_cases)
  case 2
  then have "f64_make (f64_sign x) f64_inf_mag = x"
    using f64_make_surj [of x] by (simp add: f64_is_inf_def)
  moreover have "\<not> f64_is_zero x" using 2 by (simp add: f64_is_inf_def f64_is_zero_def f64_inf_mag_def)
  ultimately show ?thesis using 2 by (simp add: f64_mul_def fp_simps f64_inf_def)
next
  case 3
  have "f64_pack (f64_sign x) (f64_mant x * 2 ^ 52) (f64_exp x - int 52) = x"
    unfolding f64_pack_scale using 3 by (simp add: f64_pack_unpack)
  with 3 show ?thesis by (simp add: f64_mul_def fp_simps)
qed (use assms in simp)

section \<open>Integers are exact up to 53 bits\<close>

text \<open>
  The significand and exponent that represent n, scaled up to the full precision.
\<close>

lemma f64_pack_fields:
  assumes "0 < n" "n < 2 ^ 53" "- 1074 \<le> e + int (nbits n) - 53" "e + int (nbits n) - 53 \<le> 971"
  shows "f64_sign (f64_pack s n e) = s"
    and "f64_mant (f64_pack s n e) = n * 2 ^ (53 - nbits n)"
    and "f64_exp (f64_pack s n e) = e - int (53 - nbits n)"
    and "f64_finite (f64_pack s n e)"
proof -
  let ?k = "53 - nbits n"
  let ?m = "n * 2 ^ ?k" and ?e = "e - int ?k"
  have nb: "nbits n \<le> 53" using assms(2) by (rule nbits_le)
  have b: "2 ^ (nbits n - 1) \<le> n" "n < 2 ^ nbits n" using nbits_bounds [OF assms(1)] by simp_all
  have pos: "0 < nbits n" using assms(1) by simp
  have lo: "2 ^ (53 - 1) \<le> ?m"
  proof -
    have "(2::nat) ^ (53 - 1) = 2 ^ (nbits n - 1) * 2 ^ ?k"
      using nb pos by (simp flip: power_add)
    also have "\<dots> \<le> ?m" using b(1) by simp
    finally show ?thesis .
  qed
  have hi: "?m < 2 ^ 53"
  proof -
    have "?m < 2 ^ nbits n * 2 ^ ?k" using b(2) by simp
    also have "\<dots> = 2 ^ 53" using nb by (simp flip: power_add)
    finally show ?thesis .
  qed
  have e: "- 1074 \<le> ?e" "?e \<le> 971" using assms(3,4) nb by simp_all
  have "fp_mag 53 (- 1074) n e = nat (?e - (- 1074)) * 2 ^ (53 - 1) + ?m" (is "_ = ?g")
    using fp_mag_scale [of 53 "- 1074" n ?k e] fp_mag_normal [of 53 ?m "- 1074" ?e] lo hi e(1)
    by simp
  moreover have gl: "?g < f64_inf_mag"
  proof -
    have "nat (?e - (- 1074)) \<le> 2045" using e(2) by simp
    then have "nat (?e - (- 1074)) * 2 ^ (53 - 1) \<le> 2045 * 2 ^ (53 - 1)" by (rule mult_le_mono1)
    with hi show ?thesis by (simp add: f64_inf_mag_def)
  qed
  ultimately have p: "f64_pack s n e = f64_make s ?g"
    unfolding f64_pack_def by simp
  have g63: "?g < 2 ^ 63" using gl by (simp add: f64_inf_mag_def)
  show "f64_sign (f64_pack s n e) = s" unfolding p by (rule f64_make_fields [OF g63])
  show "f64_mant (f64_pack s n e) = ?m"
    unfolding p f64_mant_def f64_make_fields(2) [OF g63]
    by (rule fp_unpack_normal) (use lo hi e in simp_all)
  show "f64_exp (f64_pack s n e) = ?e"
    unfolding p f64_exp_def f64_make_fields(2) [OF g63]
    by (rule fp_unpack_normal) (use lo hi e in simp_all)
  show "f64_finite (f64_pack s n e)"
    unfolding p f64_finite_def f64_make_fields(2) [OF g63] by (rule gl)
qed

lemma f64_pack_0: "f64_pack s 0 e = f64_make s 0"
  by (simp add: f64_pack_def)

lemma f64_trunc_scaled:
  assumes "f64_mant x = n * 2 ^ k" "f64_exp x = - int k"
  shows "f64_trunc x = (if f64_sign x then - int n else int n)"
    and "f64_finite x \<Longrightarrow> f64_integral x"
  using assms by (cases "k = 0"; simp add: f64_trunc_def f64_integral_def)+

lemma f64_of_int_exact:
  assumes "\<bar>i\<bar> < 2 ^ 53"
  shows "f64_trunc (f64_of_int i) = i" and "f64_finite (f64_of_int i)"
    and "f64_integral (f64_of_int i)"
proof -
  let ?n = "nat \<bar>i\<bar>"
  have n: "?n < 2 ^ 53" using assms by (simp add: nat_less_iff)
  have nb: "nbits ?n \<le> 53" using n by (rule nbits_le)
  have *: "f64_trunc (f64_of_int i) = i \<and> f64_finite (f64_of_int i) \<and> f64_integral (f64_of_int i)"
  proof (cases "i = 0")
    case True
    then show ?thesis
      by (simp add: f64_of_int_def f64_pack_0 f64_trunc_def f64_make_fields f64_mant_def f64_exp_def
          fp_mant_def fp_exp_def f64_finite_def f64_inf_mag_def f64_integral_def)
  next
    case False
    then have pos: "0 < ?n" by simp
    have r: "- 1074 \<le> 0 + int (nbits ?n) - 53" "0 + int (nbits ?n) - 53 \<le> 971" using nb by simp_all
    note f = f64_pack_fields [OF pos n r, of "i < 0"]
    have "f64_exp (f64_of_int i) = - int (53 - nbits ?n)" using f(3) by (simp add: f64_of_int_def)
    moreover have "f64_mant (f64_of_int i) = ?n * 2 ^ (53 - nbits ?n)"
      using f(2) by (simp add: f64_of_int_def)
    ultimately show ?thesis using f(1,4) f64_trunc_scaled [of "f64_of_int i" ?n "53 - nbits ?n"]
      by (simp add: f64_of_int_def)
  qed
  then show "f64_trunc (f64_of_int i) = i" "f64_finite (f64_of_int i)" "f64_integral (f64_of_int i)"
    by simp_all
qed

lemma f64_of_int_finite:
  assumes "\<bar>i\<bar> < 2 ^ 64"
  shows "f64_finite (f64_of_int i)"
proof (cases "i = 0")
  case True
  then show ?thesis using f64_of_int_exact(2) [of 0] by simp
next
  case False
  let ?n = "nat \<bar>i\<bar>" and ?p = "nbits (nat \<bar>i\<bar>)"
  have n: "?n < 2 ^ 64" "0 < ?n" using assms False by (simp_all add: nat_less_iff)
  have p: "?p \<le> 64" "?n < 2 ^ ?p" using nbits_le [OF n(1)] nbits_bounds [OF n(2)] by simp_all
  have "fp_mag 53 (- 1074) ?n 0 < f64_inf_mag"
  proof (cases "53 \<le> ?p")
    case True
    then have e: "max (- 1074) (0 + int ?p - int 53) = int (?p - 53)" by simp
    have "?n div 2 ^ (?p - 53) < 2 ^ 53"
      using p(2) unfolding pow2_split [OF True] by (rule less_mult_imp_div_less)
    then have "rne ?n (?p - 53) \<le> 2 ^ 53" by (simp add: rne_def Let_def)
    moreover have "nat (int (?p - 53) - (- 1074)) \<le> 1085" using p(1) by simp
    ultimately show ?thesis
      using n(2) unfolding fp_mag_def e Let_def f64_inf_mag_def by simp
  next
    case False
    then have e: "max (- 1074) (0 + int ?p - int 53) = - int (53 - ?p)" by simp
    have "?n * 2 ^ (53 - ?p) < 2 ^ ?p * 2 ^ (53 - ?p)" using p(2) by simp
    also have "\<dots> = 2 ^ 53" using False by (simp flip: power_add)
    finally have "?n * 2 ^ (53 - ?p) < 2 ^ 53" .
    moreover have "nat (- int (53 - ?p) - (- 1074)) \<le> 1074" "nat (53 - int ?p) = 53 - ?p" using False by linarith+
    ultimately show ?thesis
      using n(2) False unfolding fp_mag_def e Let_def f64_inf_mag_def by simp
  qed
  then show ?thesis
    by (simp add: f64_of_int_def f64_pack_def f64_finite_def f64_make_fields f64_inf_mag_def)
qed

lemma f64_to_int_of_int:
  assumes "\<bar>i\<bar> < 2 ^ 53" "int_fits sgnd w i"
  shows "f64_to_int impl sgnd w (f64_of_int i) = i"
  using assms by (simp add: f64_to_int_def f64_of_int_exact)

lemma f64_finite_not_special: "f64_finite x \<Longrightarrow> \<not> f64_is_nan x \<and> \<not> f64_is_inf x"
  by (simp add: f64_finite_def f64_is_nan_def f64_is_inf_def)

section \<open>binary32 values survive the widening\<close>

lemma f32_make_fields:
  assumes "g < 2 ^ 31"
  shows "f32_sign (f32_make s g) = s" and "f32_mag (f32_make s g) = g"
proof -
  have "unat (f32_make s g) = (if s then 2 ^ 31 else 0) + g"
    unfolding f32_make_def using assms by (intro unat_of_nat_small) simp
  then show "f32_sign (f32_make s g) = s" "f32_mag (f32_make s g) = g"
    using assms by (simp_all add: f32_sign_def f32_mag_def)
qed

lemma f32_make_surj: "f32_make (f32_sign x) (f32_mag x) = x"
proof -
  have "unat x < 2 * 2 ^ 31" using unsigned_less [of x] by simp
  then have "(if f32_sign x then 2 ^ 31 else 0) + f32_mag x = unat x"
    unfolding f32_sign_def f32_mag_def by (rule top_bit_split)
  then show ?thesis by (simp add: f32_make_def)
qed

lemma f32_pack_unpack:
  assumes "f32_mag x < f32_inf_mag"
  shows "f32_pack (f32_sign x) (f32_mant x) (f32_exp x) = x"
proof -
  have "fp_mag 24 (- 149) (f32_mant x) (f32_exp x) = f32_mag x"
    by (simp add: f32_mant_def f32_exp_def fp_mag_unpack)
  then show ?thesis using assms by (simp add: f32_pack_def f32_make_surj)
qed

lemma f32_pack_scale: "f32_pack s (n * 2 ^ k) (e - int k) = f32_pack s n e"
  by (simp add: f32_pack_def fp_mag_scale)

lemma f32_mant_less: "f32_mant x < 2 ^ 24"
proof -
  have "f32_mag x mod 2 ^ 23 < 2 ^ 23" by (rule mod_less_divisor) simp
  then show ?thesis unfolding f32_mant_def fp_mant_def by (auto simp: div_eq_0_iff)
qed

lemma f32_exp_bounds:
  assumes "f32_mag x < f32_inf_mag"
  shows "- 149 \<le> f32_exp x" and "f32_exp x \<le> 104"
proof -
  have "f32_mag x div 2 ^ 23 < 255"
    using assms by (intro less_mult_imp_div_less) (simp add: f32_inf_mag_def)
  then show "- 149 \<le> f32_exp x" "f32_exp x \<le> 104"
    by (simp_all add: f32_exp_def fp_exp_def)
qed

lemma f32_of_f64_of_f32:
  assumes "\<not> f32_is_nan x"
  shows "f32_of_f64 (f64_of_f32 x) = x" and "\<not> f64_is_nan (f64_of_f32 x)"
proof -
  consider (inf) "f32_mag x = f32_inf_mag" | (fin) "f32_mag x < f32_inf_mag"
    using assms unfolding f32_is_nan_def by linarith
  then have "f32_of_f64 (f64_of_f32 x) = x \<and> \<not> f64_is_nan (f64_of_f32 x)"
  proof cases
    case inf
    have "f64_inf_mag < 2 ^ 63" by (simp add: f64_inf_mag_def)
    with inf assms f32_make_surj [of x] show ?thesis
      by (simp add: f64_of_f32_def f32_of_f64_def f64_inf_def f64_is_nan_def f64_is_inf_def f64_make_fields)
  next
    case fin
    show ?thesis
    proof (cases "f32_mant x = 0")
      case True
      then have e: "f64_of_f32 x = f64_make (f32_sign x) 0"
        using fin assms by (simp add: f64_of_f32_def f64_pack_0)
      have "f64_mant (f64_of_f32 x) = 0" "f64_sign (f64_of_f32 x) = f32_sign x"
        "\<not> f64_is_nan (f64_of_f32 x)" "\<not> f64_is_inf (f64_of_f32 x)"
        by (simp_all add: e f64_mant_def fp_mant_def f64_make_fields f64_is_nan_def f64_is_inf_def
            f64_inf_mag_def)
      moreover have "f32_pack (f32_sign x) 0 (f64_exp (f64_of_f32 x)) = x"
        using f32_pack_unpack [OF fin] True by (simp add: f32_pack_def)
      ultimately show ?thesis by (simp add: f32_of_f64_def)
    next
      case False
      let ?k = "53 - nbits (f32_mant x)"
      have n: "0 < f32_mant x" "f32_mant x < 2 ^ 53"
        using False f32_mant_less [of x] by simp_all
      have nb: "nbits (f32_mant x) \<le> 53" using n(2) by (rule nbits_le)
      note e = f32_exp_bounds [OF fin]
      have r: "- 1074 \<le> f32_exp x + int (nbits (f32_mant x)) - 53"
        "f32_exp x + int (nbits (f32_mant x)) - 53 \<le> 971" using e nb by simp_all
      note f = f64_pack_fields [OF n r, of "f32_sign x"]
      have w: "f64_of_f32 x = f64_pack (f32_sign x) (f32_mant x) (f32_exp x)"
        using fin assms by (simp add: f64_of_f32_def)
      have "f32_pack (f32_sign x) (f32_mant x * 2 ^ ?k) (f32_exp x - int ?k) = x"
        using f32_pack_unpack [OF fin] by (simp only: f32_pack_scale)
      then show ?thesis using f f64_finite_not_special [OF f(4)]
        by (simp add: w f32_of_f64_def)
    qed
  qed
  then show "f32_of_f64 (f64_of_f32 x) = x" "\<not> f64_is_nan (f64_of_f32 x)" by simp_all
qed

section \<open>Evaluation of closed instances\<close>

lemmas fp_eval =
  f64_inf_mag_def f64_sign_def f64_mag_def f64_mant_def f64_exp_def f64_is_nan_def f64_is_inf_def
  f64_finite_def f64_is_zero_def f64_make_def f64_pack_def f64_nan_def f64_inf_def f64_of_int_def
  f64_abs_def f64_neg_def f64_eq_def f64_key_def f64_lt_def f64_mul_def f64_div_def f64_add_def
  f64_trunc_def f64_integral_def int_fits_def f64_to_int_def f64_zero_def f64_half_def f64_one_def
  f64_ten_def f64_ldexp_def go_pow10_def fp_mag_def fp_mant_def fp_exp_def rne_def nbits.simps
  pow_loop.simps Let_literal

text \<open>One choice of the implementation-specific results, to evaluate instances on.\<close>

definition demo_impl :: go_impl where
  "demo_impl = \<lparr>cvt_oor = (\<lambda>_ _ _. 0), pow10_frac = (\<lambda>_. f64_nan)\<rparr>"

end
