(* ===== verification/GoStd.thy ===== *)
theory GoStd
  imports GoFloat
begin

text \<open>
  The parts of Go's standard library the program calls: big-endian encoding of
  fixed-width integers (encoding/binary), the bit operations of math/bits,
  conversions of strconv and time, and string functions. Strings are lists of
  bytes, as in Go.
\<close>

unbundle bit_operations_syntax

section \<open>encoding/binary, big endian\<close>

definition be_encode :: "nat \<Rightarrow> nat \<Rightarrow> byte list" where
  "be_encode k n = map (\<lambda>i. of_nat (n div 256 ^ i)) (rev [0..<k])"

definition be_decode :: "byte list \<Rightarrow> nat" where
  "be_decode bs = foldl (\<lambda>a b. a * 256 + unat b) 0 bs"

text \<open>binary.Write of a value of the given width, and binary.Read of one, which
  fails on a short buffer and ignores what follows the value.\<close>

definition put16 :: "uint16 \<Rightarrow> byte list" where "put16 w = be_encode 2 (unat w)"
definition put32 :: "uint32 \<Rightarrow> byte list" where "put32 w = be_encode 4 (unat w)"
definition put64 :: "uint64 \<Rightarrow> byte list" where "put64 w = be_encode 8 (unat w)"

definition get16 :: "byte list \<Rightarrow> uint16 option" where
  "get16 bs = (if length bs < 2 then None else Some (of_nat (be_decode (take 2 bs))))"
definition get32 :: "byte list \<Rightarrow> uint32 option" where
  "get32 bs = (if length bs < 4 then None else Some (of_nat (be_decode (take 4 bs))))"
definition get64 :: "byte list \<Rightarrow> uint64 option" where
  "get64 bs = (if length bs < 8 then None else Some (of_nat (be_decode (take 8 bs))))"

lemma be_decode_snoc: "be_decode (bs @ [b]) = be_decode bs * 256 + unat b"
  by (simp add: be_decode_def)

lemma be_decode_Nil [simp]: "be_decode [] = 0"
  by (simp add: be_decode_def)

lemma be_encode_length [simp]: "length (be_encode k n) = k"
  by (simp add: be_encode_def)

lemma unat_byte_of_nat: "unat (of_nat n :: byte) = n mod 256"
  by (simp add: unat_of_nat take_bit_eq_mod)

lemma be_encode_Suc: "be_encode (Suc k) n = be_encode k (n div 256) @ [of_nat n]"
proof -
  have "map (\<lambda>i. of_nat (n div 256 ^ i) :: byte) [0..<Suc k] =
      of_nat n # map (\<lambda>i. of_nat (n div 256 div 256 ^ i)) [0..<k]"
    by (simp add: upt_conv_Cons map_Suc_upt [symmetric] div_mult2_eq del: upt_Suc)
  then show ?thesis
    by (simp add: be_encode_def rev_map [symmetric] del: upt_Suc)
qed

lemma be_decode_encode: "be_decode (be_encode k n) = n mod 256 ^ k"
proof (induction k arbitrary: n)
  case 0
  then show ?case by (simp add: be_encode_def)
next
  case (Suc k)
  have "n mod 256 ^ Suc k = 256 * (n div 256 mod 256 ^ k) + n mod 256"
    by (simp add: mod_mult2_eq)
  with Suc show ?case by (simp add: be_encode_Suc be_decode_snoc unat_byte_of_nat)
qed

lemma be_encode_decode: "length bs = k \<Longrightarrow> be_encode k (be_decode bs) = bs"
proof (induction k arbitrary: bs)
  case 0
  then show ?case by (simp add: be_encode_def)
next
  case (Suc k)
  then obtain cs b where bs: "bs = cs @ [b]" "length cs = k"
    by (cases bs rule: rev_cases) auto
  have b: "unat b < 256" using unsigned_less [of b] by simp
  have "(of_nat (be_decode cs * 256 + unat b) :: byte) = b"
    unfolding word_unat_eq_iff unat_byte_of_nat using b by simp
  moreover have "(be_decode cs * 256 + unat b) div 256 = be_decode cs"
    using b by simp
  ultimately show ?case
    using Suc.IH [OF bs(2)] by (simp add: bs(1) be_encode_Suc be_decode_snoc)
qed

lemma be_decode_less: "be_decode bs < 256 ^ length bs"
  using be_decode_encode [of "length bs" "be_decode bs"]
  by (simp add: be_encode_decode) (metis mod_less_divisor zero_less_numeral zero_less_power)

text \<open>
  What a fixed-width encoding promises its clients: every value has exactly the
  given number of bytes, reading them back gives the value whatever follows, and
  a full buffer is the encoding of what is read from it.
\<close>

locale byte_codec =
  fixes width :: nat
    and enc :: "'a \<Rightarrow> byte list"
    and dec :: "byte list \<Rightarrow> 'a option"
  assumes enc_length: "length (enc w) = width"
    and dec_enc: "dec (enc w @ rest) = Some w"
    and dec_short: "length bs < width \<Longrightarrow> dec bs = None"
    and enc_dec: "length bs = width \<Longrightarrow> \<exists>w. dec bs = Some w \<and> enc w = bs"
begin

lemma dec_enc_exact: "dec (enc w) = Some w"
  using dec_enc [of w "[]"] by simp

lemma enc_inject: "enc v = enc w \<longleftrightarrow> v = w"
  using dec_enc_exact by (metis option.inject)

lemma dec_iff_long_enough: "dec bs \<noteq> None \<longleftrightarrow> width \<le> length bs"
proof
  assume "dec bs \<noteq> None"
  then show "width \<le> length bs" using dec_short [of bs] by (cases "length bs < width") auto
next
  assume "width \<le> length bs"
  then obtain w where "enc w = take width bs"
    using enc_dec [of "take width bs"] by auto
  then have "dec bs = Some w" using dec_enc [of w "drop width bs"] by simp
  then show "dec bs \<noteq> None" by simp
qed

lemma dec_full: "length bs = width \<Longrightarrow> dec bs = Some w \<Longrightarrow> enc w = bs"
  using enc_dec by fastforce

end

lemma codec_word:
  assumes "LENGTH('a::len) = 8 * k"
  shows "be_decode (be_encode k (unat (w :: 'a word))) = unat w"
    and "length bs = k \<Longrightarrow> be_encode k (unat (of_nat (be_decode bs) :: 'a word)) = bs"
proof -
  have p: "(256::nat) ^ k = 2 ^ LENGTH('a)" using assms by (simp add: power_mult)
  show "be_decode (be_encode k (unat w)) = unat w"
    using unsigned_less [of w] p by (simp add: be_decode_encode)
  assume "length bs = k"
  then show "be_encode k (unat (of_nat (be_decode bs) :: 'a word)) = bs"
    using be_decode_less [of bs] p by (simp add: unat_of_nat_small be_encode_decode)
qed

interpretation u16: byte_codec 2 put16 get16
  by unfold_locales (auto simp: put16_def get16_def codec_word)

interpretation u32: byte_codec 4 put32 get32
  by unfold_locales (auto simp: put32_def get32_def codec_word)

interpretation u64: byte_codec 8 put64 get64
  by unfold_locales (auto simp: put64_def get64_def codec_word)

section \<open>math/bits on bytes\<close>

definition Reverse8 :: "byte \<Rightarrow> byte" where
  "Reverse8 b = word_reverse b"

definition LeadingZeros8 :: "byte \<Rightarrow> nat" where
  "LeadingZeros8 b = 8 - nbits (unat b)"

lemma LeadingZeros8_0: "LeadingZeros8 b = 0 \<longleftrightarrow> bit b 7"
proof -
  have ub: "unat b < 2 ^ 8" using unsigned_less [of b] by simp
  have "bit b 7 \<longleftrightarrow> 2 ^ 7 \<le> unat b"
  proof -
    have "bit b 7 \<longleftrightarrow> bit (unat b) 7" by (simp add: bit_unsigned_iff)
    then have "bit b 7 \<longleftrightarrow> odd (unat b div 2 ^ 7)" by (simp only: bit_iff_odd)
    also have "\<dots> \<longleftrightarrow> unat b div 2 ^ 7 = 1"
    proof -
      have "unat b div 2 ^ 7 < 2" using ub by (intro less_mult_imp_div_less) simp
      then show ?thesis by (auto simp: less_2_cases_iff)
    qed
    also have "\<dots> \<longleftrightarrow> 2 ^ 7 \<le> unat b" using ub by auto
    finally show ?thesis .
  qed
  moreover have "nbits (unat b) = 8 \<longleftrightarrow> 2 ^ 7 \<le> unat b"
    using nbits_unique [of 7 "unat b"] ub nbits_bounds [of "unat b"] by (cases "unat b = 0") auto
  moreover have "nbits (unat b) \<le> 8" using ub by (rule nbits_le)
  ultimately show ?thesis by (auto simp: LeadingZeros8_def)
qed

section \<open>strings\<close>

text \<open>strings.EqualFold and ToLower, on text compared with words of ASCII letters. The only ASCII letters that Unicode folds with
  characters beyond ASCII are k and s; the words the program compares with (none, even, odd) have neither, so that
  folding ASCII letters gives the same answer for every text.\<close>

definition to_lower_char :: "char \<Rightarrow> char" where
  "to_lower_char c =
     (if 65 \<le> (of_char c :: nat) \<and> (of_char c :: nat) \<le> 90 then char_of (of_char c + 32 :: nat) else c)"

definition EqualFold :: "string \<Rightarrow> string \<Rightarrow> bool" where
  "EqualFold s t \<longleftrightarrow> map to_lower_char s = map to_lower_char t"

fun HasPrefix :: "string \<Rightarrow> string \<Rightarrow> bool" where
  "HasPrefix s [] = True"
| "HasPrefix [] (p # ps) = False"
| "HasPrefix (c # s) (p # ps) = (c = p \<and> HasPrefix s ps)"

lemma HasPrefix_iff: "HasPrefix s p \<longleftrightarrow> (\<exists>r. s = p @ r)"
  by (induction s p rule: HasPrefix.induct) auto

section \<open>strconv\<close>

definition is_digit :: "char \<Rightarrow> bool" where
  "is_digit c \<longleftrightarrow> 48 \<le> (of_char c :: nat) \<and> (of_char c :: nat) \<le> 57"

definition digit_val :: "char \<Rightarrow> nat" where "digit_val c = of_char c - 48"

definition digits_val :: "string \<Rightarrow> nat" where
  "digits_val ds = foldl (\<lambda>a c. a * 10 + digit_val c) 0 ds"

text \<open>
  strconv.Atoi for a 64-bit int: the value and whether it was accepted. A number out
  of range is refused and comes back clamped, malformed text comes back as 0.
\<close>

definition Atoi :: "string \<Rightarrow> int \<times> bool" where
  "Atoi s =
     (let neg = (s \<noteq> [] \<and> hd s = CHR ''-'');
          ds = (if s \<noteq> [] \<and> (hd s = CHR ''-'' \<or> hd s = CHR ''+'') then tl s else s)
      in if ds = [] \<or> \<not> list_all is_digit ds then (0, False)
         else let n = int (digits_val ds)
              in if neg then (if n \<le> 2 ^ 63 then (- n, True) else (- (2 ^ 63), False))
                 else (if n < 2 ^ 63 then (n, True) else (2 ^ 63 - 1, False)))"

lemma Atoi_range: "- (2 ^ 63) \<le> fst (Atoi s) \<and> fst (Atoi s) < 2 ^ 63"
  by (simp add: Atoi_def Let_def)

text \<open>strconv.ParseBool accepts a fixed list of spellings.\<close>

definition ParseBool :: "string \<Rightarrow> bool option" where
  "ParseBool s =
     (if s \<in> set [''1'', ''t'', ''T'', ''true'', ''TRUE'', ''True''] then Some True
      else if s \<in> set [''0'', ''f'', ''F'', ''false'', ''FALSE'', ''False''] then Some False
      else None)"

section \<open>time.ParseDuration\<close>

fun leading_int :: "string \<Rightarrow> nat \<Rightarrow> (nat \<times> string) option" where
  "leading_int [] x = Some (x, [])"
| "leading_int (c # cs) x =
     (if is_digit c then
        (if 2 ^ 63 div 10 < x then None
         else let y = x * 10 + digit_val c in if 2 ^ 63 < y then None else leading_int cs y)
      else Some (x, c # cs))"

fun leading_fraction :: "string \<Rightarrow> nat \<Rightarrow> float64 \<Rightarrow> bool \<Rightarrow> nat \<times> float64 \<times> string" where
  "leading_fraction [] x scale ovf = (x, scale, [])"
| "leading_fraction (c # cs) x scale ovf =
     (if is_digit c then
        (if ovf \<or> (2 ^ 63 - 1) div 10 < x then leading_fraction cs x scale True
         else let y = x * 10 + digit_val c
              in if 2 ^ 63 < y then leading_fraction cs x scale True
                 else leading_fraction cs y (f64_mul scale f64_ten) False)
      else (x, scale, c # cs))"

text \<open>The unit names, with the two spellings of microseconds in UTF-8, in nanoseconds.\<close>

definition unit_map :: "string \<rightharpoonup> nat" where
  "unit_map = map_of
     [(''ns'', 1), (''us'', 10 ^ 3), ([CHR 0xC2, CHR 0xB5, CHR ''s''], 10 ^ 3),
      ([CHR 0xCE, CHR 0xBC, CHR ''s''], 10 ^ 3), (''ms'', 10 ^ 6), (''s'', 10 ^ 9),
      (''m'', 60 * 10 ^ 9), (''h'', 3600 * 10 ^ 9)]"

definition not_unit_char :: "char \<Rightarrow> bool" where
  "not_unit_char c \<longleftrightarrow> c = CHR ''.'' \<or> is_digit c"

text \<open>One term of a duration, such as 1.5h: its nanoseconds and the text after it.\<close>

definition duration_term :: "go_impl \<Rightarrow> string \<Rightarrow> (nat \<times> string) option" where
  "duration_term impl s =
     (if s = [] \<or> \<not> not_unit_char (hd s) then None
      else case leading_int s 0 of
        None \<Rightarrow> None
      | Some (v, s1) \<Rightarrow>
          let pre = (length s1 \<noteq> length s);
              dot = (s1 \<noteq> [] \<and> hd s1 = CHR ''.'');
              s2 = (if dot then tl s1 else s1)
          in (case (if dot then leading_fraction s2 0 f64_one False else (0, f64_one, s2)) of
                (f, scale, s3) \<Rightarrow>
                  let post = (dot \<and> length s3 \<noteq> length s2);
                      u = takeWhile (\<lambda>c. \<not> not_unit_char c) s3;
                      s4 = dropWhile (\<lambda>c. \<not> not_unit_char c) s3
                  in if \<not> pre \<and> \<not> post then None
                     else if u = [] then None
                     else case unit_map u of
                       None \<Rightarrow> None
                     | Some unit \<Rightarrow>
                         if 2 ^ 63 div unit < v then None
                         else let w = (if 0 < f then v * unit + nat (f64_to_int impl False 64
                                          (f64_mul (f64_of_int (int f)) (f64_div (f64_of_int (int unit)) scale)))
                                       else v * unit)
                              in if 0 < f \<and> 2 ^ 63 < w then None else Some (w, s4)))"

lemma leading_int_length: "leading_int s x = Some (v, r) \<Longrightarrow> length r \<le> length s"
  by (induction s x rule: leading_int.induct) (auto simp: Let_def split: if_splits)

lemma leading_fraction_length: "leading_fraction s x sc ovf = (f, sc', r) \<Longrightarrow> length r \<le> length s"
  by (induction s x sc ovf rule: leading_fraction.induct) (auto simp: Let_def split: if_splits)

lemma duration_term_shorter:
  assumes "duration_term impl s = Some (w, r)"
  shows "length r < length s"
proof -
  obtain v s1 where li: "leading_int s 0 = Some (v, s1)"
    using assms by (auto simp: duration_term_def split: if_splits option.splits)
  define dot where "dot \<longleftrightarrow> s1 \<noteq> [] \<and> hd s1 = CHR ''.''"
  define s2 where "s2 = (if dot then tl s1 else s1)"
  obtain f scale s3 where fr: "(if dot then leading_fraction s2 0 f64_one False else (0, f64_one, s2)) = (f, scale, s3)"
    by (metis prod_cases3)
  have "length s3 \<le> length s2" using fr leading_fraction_length by (auto split: if_splits)
  moreover have "length s2 \<le> length s1" by (simp add: s2_def)
  moreover have "length s1 \<le> length s" using li by (rule leading_int_length)
  ultimately have le: "length s3 \<le> length s" by linarith
  have "takeWhile (\<lambda>c. \<not> not_unit_char c) s3 \<noteq> []" "r = dropWhile (\<lambda>c. \<not> not_unit_char c) s3"
    using assms li fr unfolding duration_term_def
    by (auto simp: Let_def dot_def s2_def split: if_splits option.splits)
  then have "length r < length s3"
    by (metis append_Nil length_append length_greater_0_conv less_add_same_cancel2 takeWhile_dropWhile_id)
  with le show ?thesis by simp
qed

text \<open>The sum of the terms is kept in 64 bits.\<close>

function duration_loop :: "go_impl \<Rightarrow> string \<Rightarrow> nat \<Rightarrow> nat option" where
  "duration_loop impl s d =
     (if s = [] then Some d
      else case duration_term impl s of
             None \<Rightarrow> None
           | Some (v, r) \<Rightarrow>
               (let d' = (d + v) mod 2 ^ 64
                in if 2 ^ 63 < d' then None else duration_loop impl r d'))"
  by pat_completeness auto
termination
  by (relation "measure (\<lambda>(_, s, _). length s)") (auto dest: duration_term_shorter)

declare duration_loop.simps [simp del]

definition ParseDuration :: "go_impl \<Rightarrow> string \<Rightarrow> int option" where
  "ParseDuration impl s =
     (let neg = (s \<noteq> [] \<and> hd s = CHR ''-'');
          t = (if s \<noteq> [] \<and> (hd s = CHR ''-'' \<or> hd s = CHR ''+'') then tl s else s)
      in if t = ''0'' then Some 0
         else if t = [] then None
         else case duration_loop impl t 0 of
                None \<Rightarrow> None
              | Some d \<Rightarrow> if neg then Some (- int d)
                          else if 2 ^ 63 - 1 < d then None else Some (int d))"

end
