(* ===== verification/GoJson.thy ===== *)
theory GoJson
  imports GoStd
begin

text \<open>
  What the program uses of encoding/json. JSON text is represented by its syntax
  tree; decoding follows json.Unmarshal: members are matched to struct fields by
  name, ignoring case, null leaves a field as it was, and a value of the wrong
  kind leaves the field as it was and makes the whole call report an error after
  the rest has been decoded.
\<close>

text \<open>
  A number is a decimal literal (sign, digits, power of ten, and whether it was
  written with digits only), or the shortest literal that encoding/json writes for
  a finite float64, which reads back as that float64.
\<close>

datatype number = Decimal bool nat int bool | Shortest float64

datatype json =
    JNull
  | JBool bool
  | JNumber number
  | JString string
  | JArray "json list"
  | JObject "(string \<times> json) list"

section \<open>Numbers\<close>

text \<open>strconv.ParseFloat of a decimal literal: the nearest float64.\<close>

definition f64_of_decimal :: "bool \<Rightarrow> nat \<Rightarrow> int \<Rightarrow> float64" where
  "f64_of_decimal neg m e =
     (if 0 \<le> e then f64_pack neg (m * 10 ^ nat e) 0
      else let d = 10 ^ nat (- e); k = 64 + nbits d; a = m * 2 ^ k
           in f64_pack neg (2 * (a div d) + (if a mod d = 0 then 0 else 1)) (- int k - 1))"

fun number_float64 :: "number \<Rightarrow> float64 option" where
  "number_float64 (Shortest v) = Some v"
| "number_float64 (Decimal neg m e plain) =
     (let v = f64_of_decimal neg m e in if f64_is_inf v then None else Some v)"

text \<open>strconv.ParseUint accepts plain digits in range only. A shortest literal is a plain
  integer below 2^53 exactly when its float is one.\<close>

fun number_uint64 :: "number \<Rightarrow> uint64 option" where
  "number_uint64 (Decimal neg m e plain) =
     (if plain \<and> \<not> neg \<and> m < 2 ^ 64 then Some (of_nat m) else None)"
| "number_uint64 (Shortest v) =
     (if f64_integral v \<and> \<not> f64_sign v \<and> f64_trunc v < 2 ^ 53 then Some (of_int (f64_trunc v))
      else None)"

section \<open>json.Unmarshal\<close>

text \<open>A decoder takes the JSON value and the current content of its target, and
  returns the new content and whether a mismatch was found.\<close>

type_synonym 'a decoder = "json \<Rightarrow> 'a \<Rightarrow> 'a \<times> bool"

fun dec_string :: "string decoder" where
  "dec_string (JString s) _ = (s, False)"
| "dec_string JNull old = (old, False)"
| "dec_string _ old = (old, True)"

fun dec_bool :: "bool decoder" where
  "dec_bool (JBool b) _ = (b, False)"
| "dec_bool JNull old = (old, False)"
| "dec_bool _ old = (old, True)"

fun dec_float64 :: "float64 decoder" where
  "dec_float64 (JNumber n) old =
     (case number_float64 n of None \<Rightarrow> (old, True) | Some v \<Rightarrow> (v, False))"
| "dec_float64 JNull old = (old, False)"
| "dec_float64 _ old = (old, True)"

fun dec_uint64 :: "uint64 decoder" where
  "dec_uint64 (JNumber n) old =
     (case number_uint64 n of None \<Rightarrow> (old, True) | Some v \<Rightarrow> (v, False))"
| "dec_uint64 JNull old = (old, False)"
| "dec_uint64 _ old = (old, True)"

fun dec_elems :: "'a decoder \<Rightarrow> 'a \<Rightarrow> json list \<Rightarrow> 'a list \<times> bool" where
  "dec_elems f z [] = ([], False)"
| "dec_elems f z (j # js) =
     (case f j z of (x, e) \<Rightarrow> case dec_elems f z js of (xs, e') \<Rightarrow> (x # xs, e \<or> e'))"

fun dec_slice :: "'a decoder \<Rightarrow> 'a \<Rightarrow> 'a list decoder" where
  "dec_slice f z (JArray js) _ = dec_elems f z js"
| "dec_slice f z JNull _ = ([], False)"
| "dec_slice f z _ old = (old, True)"

fun dec_members :: "(string \<Rightarrow> 'a decoder) \<Rightarrow> (string \<times> json) list \<Rightarrow> 'a \<Rightarrow> 'a \<times> bool" where
  "dec_members f [] x = (x, False)"
| "dec_members f ((k, j) # ms) x =
     (case f k j x of (x', e) \<Rightarrow> case dec_members f ms x' of (x'', e') \<Rightarrow> (x'', e \<or> e'))"

fun dec_object :: "(string \<Rightarrow> 'a decoder) \<Rightarrow> 'a decoder" where
  "dec_object f (JObject ms) x = dec_members f ms x"
| "dec_object f JNull x = (x, False)"
| "dec_object f _ x = (x, True)"

text \<open>A map from strings to strings; a mismatched element is stored as the empty string.\<close>

definition dec_string_map :: "((string \<times> string) list) decoder" where
  "dec_string_map j old =
     (if j = JNull then ([], False)
      else dec_object (\<lambda>k v m. case dec_string v [] of (s, e) \<Rightarrow> ((k, s) # m, e)) j old)"

text \<open>The letters that fold to k and s beside their ASCII capitals are the Kelvin sign and
  the long s, written in UTF-8.\<close>

fun fold_name :: "string \<Rightarrow> string" where
  "fold_name [] = []"
| "fold_name (c # cs) =
     (if c = CHR 0xC5 \<and> cs \<noteq> [] \<and> hd cs = CHR 0xBF then CHR ''s'' # fold_name (tl cs)
      else if c = CHR 0xE2 \<and> take 2 cs = [CHR 0x84, CHR 0xAA] then CHR ''k'' # fold_name (drop 2 cs)
      else to_lower_char c # fold_name cs)"

definition field_match :: "string \<Rightarrow> string \<Rightarrow> bool" where
  "field_match name key \<longleftrightarrow> key = name \<or> fold_name key = fold_name name"

text \<open>The field of a struct a member goes to: an exact match first, then one ignoring case;
  a member that matches no field is skipped.\<close>

definition pick_field :: "(string \<times> 'a decoder) list \<Rightarrow> string \<Rightarrow> 'a decoder" where
  "pick_field fs k =
     (case map_of fs k of
        Some d \<Rightarrow> d
      | None \<Rightarrow> (case filter (\<lambda>(n, _). fold_name n = fold_name k) fs of
                   (_, d) # _ \<Rightarrow> d
                 | [] \<Rightarrow> (\<lambda>_ x. (x, False))))"

definition dec_struct :: "(string \<times> 'a decoder) list \<Rightarrow> 'a decoder" where
  "dec_struct fs = dec_object (pick_field fs)"

text \<open>A decoder for one field of a struct.\<close>

definition into :: "('a \<Rightarrow> 'b) \<Rightarrow> (('b \<Rightarrow> 'b) \<Rightarrow> 'a \<Rightarrow> 'a) \<Rightarrow> 'b decoder \<Rightarrow> 'a decoder" where
  "into get upd d j x = (case d j (get x) of (v, e) \<Rightarrow> (upd (\<lambda>_. v) x, e))"

section \<open>Encoding and decoding agree\<close>

text \<open>
  What a pair of an encoder and a decoder promises: decoding an encoded value gives
  it back without a mismatch, whatever the target held before. The value may be
  limited to those the encoder accepts.
\<close>

locale json_codec =
  fixes encode :: "'a \<Rightarrow> json" and decode :: "'a decoder" and accepts :: "'a \<Rightarrow> bool" and zero :: 'a
  assumes decode_encode: "accepts x \<Longrightarrow> decode (encode x) zero = (x, False)"
begin

lemma elems: "list_all accepts xs \<Longrightarrow> dec_elems decode zero (map encode xs) = (xs, False)"
  by (induction xs) (simp_all add: decode_encode)

lemma slice: "list_all accepts xs \<Longrightarrow> dec_slice decode zero (JArray (map encode xs)) old = (xs, False)"
  by (simp add: elems)

lemma encode_inject: "accepts x \<Longrightarrow> accepts y \<Longrightarrow> encode x = encode y \<longleftrightarrow> x = y"
  using decode_encode by (metis prod.inject)

end

interpretation json_string: json_codec JString dec_string "\<lambda>_. True" "[]"
  by unfold_locales simp

interpretation json_float: json_codec "\<lambda>v. JNumber (Shortest v)" dec_float64 f64_finite "0"
  by unfold_locales simp

lemma uint64_literal: "number_uint64 (Decimal False (unat w) 0 True) = Some w"
  using unsigned_less [of w] by simp

interpretation json_uint64: json_codec "\<lambda>w. JNumber (Decimal False (unat w) 0 True)" dec_uint64
  "\<lambda>_. True" "0"
  by unfold_locales (simp only: dec_uint64.simps uint64_literal option.case)

end
