(* ===== verification/GoText.thy ===== *)
theory GoText
  imports GoJson
begin

text \<open>
  What the program uses of strings and strconv on text: splitting and trimming,
  decimal output, and strconv.ParseFloat. Text is a list of bytes.
\<close>

section \<open>strings\<close>

text \<open>strings.Split with a separator of one byte.\<close>

fun split_char :: "char \<Rightarrow> string \<Rightarrow> string list" where
  "split_char sep [] = [[]]"
| "split_char sep (c # cs) =
     (if c = sep then [] # split_char sep cs
      else case split_char sep cs of
             [] \<Rightarrow> [[c]]
           | s # ss \<Rightarrow> (c # s) # ss)"

text \<open>strings.SplitN with a separator of one byte and at most two parts: the text before and
  after the first separator, if there is one.\<close>

fun split2 :: "char \<Rightarrow> string \<Rightarrow> string \<times> string option" where
  "split2 sep [] = ([], None)"
| "split2 sep (c # cs) =
     (if c = sep then ([], Some cs) else case split2 sep cs of (l, r) \<Rightarrow> (c # l, r))"

text \<open>The white space of strings.TrimSpace in UTF-8.\<close>

definition white_space :: "string list" where
  "white_space =
     [[CHR 0x09], [CHR 0x0A], [CHR 0x0B], [CHR 0x0C], [CHR 0x0D], [CHR 0x20],
      [CHR 0xC2, CHR 0x85], [CHR 0xC2, CHR 0xA0], [CHR 0xE1, CHR 0x9A, CHR 0x80],
      [CHR 0xE2, CHR 0x80, CHR 0x80], [CHR 0xE2, CHR 0x80, CHR 0x81], [CHR 0xE2, CHR 0x80, CHR 0x82],
      [CHR 0xE2, CHR 0x80, CHR 0x83], [CHR 0xE2, CHR 0x80, CHR 0x84], [CHR 0xE2, CHR 0x80, CHR 0x85],
      [CHR 0xE2, CHR 0x80, CHR 0x86], [CHR 0xE2, CHR 0x80, CHR 0x87], [CHR 0xE2, CHR 0x80, CHR 0x88],
      [CHR 0xE2, CHR 0x80, CHR 0x89], [CHR 0xE2, CHR 0x80, CHR 0x8A], [CHR 0xE2, CHR 0x80, CHR 0xA8],
      [CHR 0xE2, CHR 0x80, CHR 0xA9], [CHR 0xE2, CHR 0x80, CHR 0xAF], [CHR 0xE2, CHR 0x81, CHR 0x9F],
      [CHR 0xE3, CHR 0x80, CHR 0x80]]"

fun skip_any :: "nat \<Rightarrow> string list \<Rightarrow> string \<Rightarrow> string" where
  "skip_any 0 ws s = s"
| "skip_any (Suc n) ws s =
     (case find (HasPrefix s) ws of None \<Rightarrow> s | Some w \<Rightarrow> skip_any n ws (drop (length w) s))"

text \<open>Each step drops a byte or more, so the length of the text is fuel enough.\<close>

definition TrimSpace :: "string \<Rightarrow> string" where
  "TrimSpace s =
     (let l = skip_any (length s) white_space s
      in rev (skip_any (length l) (map rev white_space) (rev l)))"

text \<open>The decimal digits of a number, as fmt prints them.\<close>

fun show_nat :: "nat \<Rightarrow> string" where
  "show_nat n = (if n < 10 then [char_of (48 + n)] else show_nat (n div 10) @ [char_of (48 + n mod 10)])"

declare show_nat.simps [simp del]

section \<open>strconv.ParseFloat\<close>

definition lower :: "char \<Rightarrow> char" where "lower c = to_lower_char c"

definition is_hex_letter :: "char \<Rightarrow> bool" where
  "is_hex_letter c \<longleftrightarrow> 97 \<le> (of_char (lower c) :: nat) \<and> (of_char (lower c) :: nat) \<le> 102"

text \<open>The digits of the mantissa: value, number of digits, digits after the point, and the rest.\<close>

fun read_mantissa :: "bool \<Rightarrow> string \<Rightarrow> bool \<Rightarrow> nat \<Rightarrow> nat \<Rightarrow> nat \<Rightarrow> nat \<times> nat \<times> nat \<times> string" where
  "read_mantissa hex [] dot m nd frac = (m, nd, frac, [])"
| "read_mantissa hex (c # cs) dot m nd frac =
     (if c = CHR ''_'' then read_mantissa hex cs dot m nd frac
      else if c = CHR ''.'' then
        (if dot then (m, nd, frac, c # cs) else read_mantissa hex cs True m nd frac)
      else if is_digit c then
        read_mantissa hex cs dot (m * (if hex then 16 else 10) + digit_val c) (Suc nd) (if dot then Suc frac else frac)
      else if hex \<and> is_hex_letter c then
        read_mantissa hex cs dot (m * 16 + (of_char (lower c) - 87)) (Suc nd) (if dot then Suc frac else frac)
      else (m, nd, frac, c # cs))"

fun read_exponent :: "string \<Rightarrow> nat \<Rightarrow> nat \<times> string" where
  "read_exponent [] e = (e, [])"
| "read_exponent (c # cs) e =
     (if c = CHR ''_'' then read_exponent cs e
      else if is_digit c then read_exponent cs (if e < 10000 then e * 10 + digit_val c else e)
      else (e, c # cs))"

text \<open>Whether underscores only separate digits.\<close>

datatype seen = SawStart | SawDigit | SawUnderscore | SawOther

fun underscore_loop :: "bool \<Rightarrow> string \<Rightarrow> seen \<Rightarrow> bool" where
  "underscore_loop hex [] saw \<longleftrightarrow> saw \<noteq> SawUnderscore"
| "underscore_loop hex (c # cs) saw \<longleftrightarrow>
     (if is_digit c \<or> hex \<and> is_hex_letter c then underscore_loop hex cs SawDigit
      else if c = CHR ''_'' then saw = SawDigit \<and> underscore_loop hex cs SawUnderscore
      else saw \<noteq> SawUnderscore \<and> underscore_loop hex cs SawOther)"

definition underscoreOK :: "string \<Rightarrow> bool" where
  "underscoreOK s =
     (if 2 \<le> length s \<and> s ! 0 = CHR ''0'' \<and> lower (s ! 1) \<in> set ''box''
      then underscore_loop (lower (s ! 1) = CHR ''x'') (drop 2 s) SawDigit
      else underscore_loop False s SawStart)"

text \<open>An unsigned decimal or hexadecimal literal, all of it: mantissa, power (of ten, or of two) and
  whether it is hexadecimal.\<close>

definition read_float :: "string \<Rightarrow> (nat \<times> int \<times> bool) option" where
  "read_float s =
     (let hex = (2 < length s \<and> s ! 0 = CHR ''0'' \<and> lower (s ! 1) = CHR ''x'')
      in case read_mantissa hex (if hex then drop 2 s else s) False 0 0 0 of
           (m, nd, frac, r) \<Rightarrow>
             let scale = - int frac * (if hex then 4 else 1)
             in if nd = 0 \<or> (CHR ''_'' \<in> set s \<and> \<not> underscoreOK s) then None
                else if r = [] then (if hex then None else Some (m, scale, hex))
                else if lower (hd r) = (if hex then CHR ''p'' else CHR ''e'') then
                  (let t = tl r;
                       neg = (t \<noteq> [] \<and> hd t = CHR ''-'');
                       u = (if t \<noteq> [] \<and> (hd t = CHR ''-'' \<or> hd t = CHR ''+'') then tl t else t)
                   in if u = [] \<or> \<not> is_digit (hd u) then None
                      else case read_exponent u 0 of
                             (e, r') \<Rightarrow> if r' = [] then Some (m, scale + (if neg then - int e else int e), hex) else None)
                else None)"

text \<open>The value, or None for malformed text and for a number too large for a float64.\<close>

definition ParseFloat :: "string \<Rightarrow> float64 option" where
  "ParseFloat s =
     (let neg = (s \<noteq> [] \<and> hd s = CHR ''-'');
          signed = (s \<noteq> [] \<and> (hd s = CHR ''-'' \<or> hd s = CHR ''+''));
          t = (if signed then tl s else s)
      in if EqualFold t ''inf'' \<or> EqualFold t ''infinity'' then Some (f64_inf neg)
         else if \<not> signed \<and> EqualFold t ''nan'' then Some f64_nan
         else case read_float t of
                None \<Rightarrow> None
              | Some (m, e, hex) \<Rightarrow>
                  let v = (if hex then f64_pack neg m e else f64_of_decimal neg m e)
                  in if f64_is_inf v then None else Some v)"

section \<open>Facts\<close>

lemma split_char_nonempty: "split_char sep s \<noteq> []"
  by (induction s) (auto split: list.split)

end
