(* ===== verification/Etree.thy ===== *)
theory Etree
  imports Prelude
begin

text \<open>
  The XML configuration as the modules see it. The etree package is not part of the
  program: an element is represented by the answers of the accessors the program
  calls on it (its tag, its text, its attributes, its child elements and the first
  child with a given tag), and nothing is assumed about how they relate.
\<close>

datatype element = Element
  (Tag: string)
  (Text: string)
  (SelectAttr: "string \<Rightarrow> string option")
  (SelectAttrValue: "string \<Rightarrow> string \<Rightarrow> string")
  (SelectElement: "string \<Rightarrow> element option")
  (ChildElements: "element list")

text \<open>Elements for concrete instances: a leaf with text, and a node with children.\<close>

definition attrs :: "(string \<times> string) list \<Rightarrow> string \<Rightarrow> string option" where
  "attrs as = map_of as"

definition attr_value :: "(string \<times> string) list \<Rightarrow> string \<Rightarrow> string \<Rightarrow> string" where
  "attr_value as k d = (case map_of as k of Some v \<Rightarrow> v | None \<Rightarrow> d)"

definition node :: "string \<Rightarrow> (string \<times> string) list \<Rightarrow> string \<Rightarrow> element list \<Rightarrow> element" where
  "node tag as txt cs =
     Element tag txt (attrs as) (attr_value as) (\<lambda>t. find (\<lambda>c. Tag c = t) cs) cs"

lemma node_simps [simp]:
  "Tag (node t as x cs) = t" "Text (node t as x cs) = x" "ChildElements (node t as x cs) = cs"
  "SelectAttr (node t as x cs) k = map_of as k"
  "SelectAttrValue (node t as x cs) k d = (case map_of as k of Some v \<Rightarrow> v | None \<Rightarrow> d)"
  "SelectElement (node t as x cs) k = find (\<lambda>c. Tag c = k) cs"
  by (simp_all add: node_def attrs_def attr_value_def)

end
