(* ===== verification/ModbusUtil.thy ===== *)
theory ModbusUtil
  imports GoStd
begin

text \<open>
  The package modbus/util: the register description shared by the Modbus server and
  client (register.go), its conversions between engineering values and wire bytes,
  and the packing of discrete values into bytes (bytes.go).
\<close>

unbundle bit_operations_syntax

section \<open>bytes.go\<close>

text \<open>One byte of BytesToBits: the byte is mirrored and its top bit read eight times.\<close>

fun byte_loop :: "nat \<Rightarrow> byte \<Rightarrow> int list" where
  "byte_loop 0 d = []"
| "byte_loop (Suc j) d = (if LeadingZeros8 d = 0 then 1 else 0) # byte_loop j (push_bit 1 d)"

definition BytesToBits :: "byte list \<Rightarrow> int list" where
  "BytesToBits data = concat (map (\<lambda>d. byte_loop 8 (Reverse8 d)) data)"

text \<open>The loop of BitsToBytes, which the discrete read handler repeats: a set bit is
  or-ed into the byte that holds its position.\<close>

fun set_bits :: "int list \<Rightarrow> nat \<Rightarrow> byte list \<Rightarrow> byte list" where
  "set_bits [] idx data = data"
| "set_bits (b # bs) idx data =
     set_bits bs (Suc idx)
       (if b \<noteq> 0 then data[idx div 8 := data ! (idx div 8) OR push_bit (idx mod 8) 1] else data)"

definition bits_size :: "nat \<Rightarrow> nat" where
  "bits_size count = (if count mod 8 \<noteq> 0 then count div 8 + 1 else count div 8)"

definition BitsToBytes :: "int list \<Rightarrow> byte list" where
  "BitsToBytes bs = set_bits bs 0 (replicate (bits_size (length bs)) 0)"

section \<open>register.go\<close>

record Register =
  reg_type :: string
  reg_datatype :: string
  reg_addr :: int
  reg_count :: int
  reg_scaling :: int
  reg_tag :: string

definition validRegisterTypes :: "string list" where
  "validRegisterTypes = [''coil'', ''discrete'', ''input'', ''holding'']"

definition validDataTypes :: "string list" where
  "validDataTypes =
     [''int16'', ''uint16'', ''int32'', ''uint32'', ''int64'', ''uint64'', ''float'', ''double'']"

definition Register_Init :: "go_impl \<Rightarrow> Register \<Rightarrow> Register result" where
  "Register_Init impl r =
     (if reg_type r \<notin> set validRegisterTypes then Inl ''invalid register type''
      else if (reg_type r = ''input'' \<or> reg_type r = ''holding'')
           \<and> reg_datatype r \<notin> set validDataTypes then Inl ''invalid register data type''
      else
        let count =
              (if reg_datatype r \<in> set [''int16'', ''uint16''] then 1
               else if reg_datatype r \<in> set [''int32'', ''uint32''] then 2
               else if reg_datatype r \<in> set [''int64'', ''uint64''] then 4
               else if reg_datatype r = ''float'' then 2
               else if reg_datatype r = ''double'' then 4
               else reg_count r);
            scaling = f64_to_int impl True 64 (f64_abs (f64_of_int (reg_scaling r)))
        in Inr (r\<lparr>reg_count := count, reg_scaling := scaling\<rparr>))"

definition scale_up :: "go_impl \<Rightarrow> Register \<Rightarrow> float64 \<Rightarrow> float64" where
  "scale_up impl r value = f64_mul value (go_pow10 impl (f64_of_int (reg_scaling r)))"

definition scale_down :: "go_impl \<Rightarrow> Register \<Rightarrow> float64 \<Rightarrow> float64" where
  "scale_down impl r value = f64_mul value (go_pow10 impl (f64_neg (f64_of_int (reg_scaling r))))"

definition Register_Scaled :: "go_impl \<Rightarrow> Register \<Rightarrow> float64 \<Rightarrow> float64" where
  "Register_Scaled impl r value =
     (if reg_type r \<in> set [''coil'', ''discrete''] then value
      else if reg_type r \<in> set [''input'', ''holding''] then
        (if reg_datatype r \<in> set [''int16'', ''uint16'', ''int32'', ''uint32'', ''int64'', ''uint64'']
         then scale_up impl r value
         else value)
      else value)"

definition Register_Bytes :: "go_impl \<Rightarrow> Register \<Rightarrow> float64 \<Rightarrow> byte list result" where
  "Register_Bytes impl r value =
     (if reg_type r \<in> set [''coil'', ''discrete''] then
        Inr (put16 (if f64_eq value f64_zero then 0 else 65280))
      else if reg_type r \<in> set [''input'', ''holding''] then
        (let v = scale_up impl r value in
         if reg_datatype r = ''int16'' then Inr (put16 (of_int (f64_to_int impl True 16 v)))
         else if reg_datatype r = ''uint16'' then Inr (put16 (of_int (f64_to_int impl False 16 v)))
         else if reg_datatype r = ''int32'' then Inr (put32 (of_int (f64_to_int impl True 32 v)))
         else if reg_datatype r = ''uint32'' then Inr (put32 (of_int (f64_to_int impl False 32 v)))
         else if reg_datatype r = ''int64'' then Inr (put64 (of_int (f64_to_int impl True 64 v)))
         else if reg_datatype r = ''uint64'' then Inr (put64 (of_int (f64_to_int impl False 64 v)))
         else if reg_datatype r = ''float'' then Inr (put32 (f32_of_f64 value))
         else if reg_datatype r = ''double'' then Inr (put64 value)
         else Inl ''invalid register data type'')
      else Inl ''invalid register type'')"

text \<open>binary.Read into a variable, then the conversion of the value read.\<close>

definition read_as :: "'w option \<Rightarrow> ('w \<Rightarrow> float64) \<Rightarrow> float64 result" where
  "read_as x f = (case x of None \<Rightarrow> Inl ''reading value'' | Some w \<Rightarrow> Inr (f w))"

definition Register_Value :: "go_impl \<Rightarrow> Register \<Rightarrow> byte list \<Rightarrow> float64 result outcome" where
  "Register_Value impl r data =
     (if reg_type r \<in> set [''coil'', ''discrete''] then
        (case BytesToBits data of
           [] \<Rightarrow> Panic
         | b # _ \<Rightarrow> Done (Inr (f64_of_int b)))
      else if reg_type r \<in> set [''input'', ''holding''] then Done
        (if reg_datatype r = ''int16'' then
           read_as (get16 data) (\<lambda>w. scale_down impl r (f64_of_int (sint w)))
         else if reg_datatype r = ''uint16'' then
           read_as (get16 data) (\<lambda>w. scale_down impl r (f64_of_int (uint w)))
         else if reg_datatype r = ''int32'' then
           read_as (get32 data) (\<lambda>w. scale_down impl r (f64_of_int (sint w)))
         else if reg_datatype r = ''uint32'' then
           read_as (get32 data) (\<lambda>w. scale_down impl r (f64_of_int (uint w)))
         else if reg_datatype r = ''int64'' then
           read_as (get64 data) (\<lambda>w. scale_down impl r (f64_of_int (sint w)))
         else if reg_datatype r = ''uint64'' then
           read_as (get64 data) (\<lambda>w. scale_down impl r (f64_of_int (uint w)))
         else if reg_datatype r = ''float'' then read_as (get32 data) f64_of_f32
         else if reg_datatype r = ''double'' then read_as (get64 data) (\<lambda>w. w)
         else Inl ''invalid register data type'')
      else Done (Inl ''invalid register type''))"

section \<open>Packing discrete values\<close>

lemma byte_loop_nth:
  "byte_loop n d = map (\<lambda>j. if bit d (7 - j) \<and> j < 8 then 1 else 0) [0..<n]"
proof (induction n arbitrary: d)
  case (Suc n)
  have "map (\<lambda>j. if bit (push_bit 1 d) (7 - j) \<and> j < 8 then 1 else 0) [0..<n] =
      map (\<lambda>j. if bit d (7 - Suc j) \<and> Suc j < 8 then 1 else (0::int)) [0..<n]"
    by (auto simp: mult.commute [of d 2] bit_double_iff)
  with Suc show ?case
    by (simp add: LeadingZeros8_0 upt_conv_Cons map_Suc_upt [symmetric] comp_def del: upt_Suc)
qed simp

text \<open>A byte is unpacked with its least significant bit first.\<close>

lemma byte_bits: "byte_loop 8 (Reverse8 b) = map (\<lambda>j. if bit b j then 1 else 0) [0..<8]"
  unfolding byte_loop_nth Reverse8_def by (auto simp: bit_word_reverse_iff)

lemma length_byte_loop [simp]: "length (byte_loop n d) = n"
  by (induction n arbitrary: d) auto

lemma BytesToBits_Nil [simp]: "BytesToBits [] = []"
  by (simp add: BytesToBits_def)

lemma BytesToBits_Cons:
  "BytesToBits (b # bs) = map (\<lambda>j. if bit b j then 1 else 0) [0..<8] @ BytesToBits bs"
  by (simp add: BytesToBits_def byte_bits)

lemma BytesToBits_length: "length (BytesToBits data) = 8 * length data"
  by (induction data) (auto simp: BytesToBits_Cons)

lemma BytesToBits_nth:
  "i < 8 * length data \<Longrightarrow> BytesToBits data ! i = (if bit (data ! (i div 8)) (i mod 8) then 1 else 0)"
proof (induction data arbitrary: i)
  case (Cons b bs)
  show ?case
  proof (cases "i < 8")
    case True
    then show ?thesis by (simp add: BytesToBits_Cons nth_append)
  next
    case False
    then obtain k where k: "i = k + 8" by (metis le_add_diff_inverse2 not_less)
    then have "i div 8 = Suc (k div 8)" "i mod 8 = k mod 8" by simp_all
    with Cons k show ?thesis by (simp add: BytesToBits_Cons nth_append)
  qed
qed simp

lemma length_set_bits [simp]: "length (set_bits bs idx data) = length data"
  by (induction bs arbitrary: idx data) auto

lemma set_bits_bit:
  assumes "j < 8" "k < length data"
  shows "bit (set_bits bs idx data ! k) j \<longleftrightarrow>
     bit (data ! k) j \<or> (\<exists>i < length bs. idx + i = 8 * k + j \<and> bs ! i \<noteq> 0)"
  using assms(2)
proof (induction bs arbitrary: idx data)
  case (Cons b bs)
  let ?d = "if b \<noteq> 0 then data[idx div 8 := data ! (idx div 8) OR push_bit (idx mod 8) 1] else data"
  have hd: "bit (?d ! k) j \<longleftrightarrow> bit (data ! k) j \<or> (idx = 8 * k + j \<and> b \<noteq> 0)"
  proof (cases "idx div 8 = k")
    case True
    then have "idx = 8 * k + j \<longleftrightarrow> idx mod 8 = j" using assms(1) by presburger
    with True Cons.prems assms(1) show ?thesis by (auto simp: bit_or_iff bit_exp_iff)
  next
    case False
    then have "idx \<noteq> 8 * k + j" using assms(1) by auto
    with False show ?thesis by simp
  qed
  have "(\<exists>i < length (b # bs). idx + i = 8 * k + j \<and> (b # bs) ! i \<noteq> 0) \<longleftrightarrow>
      (idx = 8 * k + j \<and> b \<noteq> 0) \<or> (\<exists>i < length bs. Suc idx + i = 8 * k + j \<and> bs ! i \<noteq> 0)"
    by (auto simp: less_Suc_eq_0_disj)
  with Cons.IH [of ?d "Suc idx"] Cons.prems hd show ?case by auto
qed simp

lemma BitsToBytes_length: "length (BitsToBytes bs) = bits_size (length bs)"
  by (simp add: BitsToBytes_def)

lemma bits_size_bounds: "n \<le> 8 * bits_size n" "8 * bits_size n < n + 8"
  by (auto simp: bits_size_def) presburger+

lemma BitsToBytes_bit:
  assumes "j < 8" "k < bits_size (length bs)"
  shows "bit (BitsToBytes bs ! k) j \<longleftrightarrow> 8 * k + j < length bs \<and> bs ! (8 * k + j) \<noteq> 0"
  using assms set_bits_bit [of j k "replicate (bits_size (length bs)) 0" bs 0]
  by (auto simp: BitsToBytes_def)

lemma BytesToBits_BitsToBytes_pad:
  "BytesToBits (BitsToBytes bs) =
     map (\<lambda>b. if b \<noteq> 0 then 1 else 0) bs @ replicate (8 * bits_size (length bs) - length bs) 0"
proof (rule nth_equalityI)
  show "length (BytesToBits (BitsToBytes bs)) = length (map (\<lambda>b. if b \<noteq> 0 then 1 else (0::int)) bs @
      replicate (8 * bits_size (length bs) - length bs) 0)"
    using bits_size_bounds [of "length bs"] by (simp add: BytesToBits_length BitsToBytes_length)
next
  fix i
  assume "i < length (BytesToBits (BitsToBytes bs))"
  then have i: "i < 8 * bits_size (length bs)" by (simp add: BytesToBits_length BitsToBytes_length)
  have "8 * (i div 8) + i mod 8 = i" by simp
  with i show "BytesToBits (BitsToBytes bs) ! i = (map (\<lambda>b. if b \<noteq> 0 then 1 else 0) bs @
      replicate (8 * bits_size (length bs) - length bs) 0) ! i"
    using BitsToBytes_bit [of "i mod 8" "i div 8" bs]
    by (auto simp: BytesToBits_nth BitsToBytes_length nth_append)
qed

lemma BitsToBytes_BytesToBits_id: "BitsToBytes (BytesToBits data) = data"
proof (rule nth_equalityI)
  have sz: "bits_size (length (BytesToBits data)) = length data"
    by (simp add: BytesToBits_length bits_size_def)
  then show len: "length (BitsToBytes (BytesToBits data)) = length data"
    by (simp add: BitsToBytes_length)
  fix k
  assume "k < length (BitsToBytes (BytesToBits data))"
  then have k: "k < length data" by (simp add: len)
  show "BitsToBytes (BytesToBits data) ! k = data ! k"
  proof (rule bit_word_eqI)
    fix j
    assume "j < LENGTH(8)"
    then have j: "j < 8" by simp
    with k have "8 * k + j < 8 * length data" by linarith
    with j k show "bit (BitsToBytes (BytesToBits data) ! k) j \<longleftrightarrow> bit (data ! k) j"
      by (subst BitsToBytes_bit) (simp_all add: sz BytesToBits_length BytesToBits_nth bits_size_def)
  qed
qed

section \<open>Initialised registers\<close>

text \<open>The number of 16-bit words of a data type, and what Init establishes.\<close>

definition datatype_words :: "string \<Rightarrow> int" where
  "datatype_words dt =
     (if dt \<in> set [''int16'', ''uint16''] then 1
      else if dt \<in> set [''int32'', ''uint32'', ''float''] then 2 else 4)"

definition numeric_reg :: "Register \<Rightarrow> bool" where
  "numeric_reg r \<longleftrightarrow> reg_type r = ''input'' \<or> reg_type r = ''holding''"

definition reg_ok :: "Register \<Rightarrow> bool" where
  "reg_ok r \<longleftrightarrow>
     reg_type r \<in> set validRegisterTypes \<and>
     (numeric_reg r \<longrightarrow>
        reg_datatype r \<in> set validDataTypes \<and> reg_count r = datatype_words (reg_datatype r))"

lemma datatype_words_pos: "0 < datatype_words dt"
  by (simp add: datatype_words_def)

lemma valid_datatype_cases:
  assumes "dt \<in> set validDataTypes"
  obtains "dt = ''int16''" | "dt = ''uint16''" | "dt = ''int32''" | "dt = ''uint32''"
    | "dt = ''int64''" | "dt = ''uint64''" | "dt = ''float''" | "dt = ''double''"
proof -
  from assms have "dt = ''int16'' \<or> dt = ''uint16'' \<or> dt = ''int32'' \<or> dt = ''uint32'' \<or>
      dt = ''int64'' \<or> dt = ''uint64'' \<or> dt = ''float'' \<or> dt = ''double''"
    unfolding validDataTypes_def list.set insert_iff empty_iff by simp
  then show thesis by (elim disjE) (erule that)+
qed

lemma reg_ok_numeric_count:
  assumes "reg_ok r" "numeric_reg r"
  shows "reg_count r = datatype_words (reg_datatype r)" and "0 < reg_count r"
    and "reg_datatype r \<in> set validDataTypes"
  using assms datatype_words_pos by (auto simp: reg_ok_def)

lemma numeric_reg_simps:
  assumes "numeric_reg r"
  shows "reg_type r \<in> set [''coil'', ''discrete''] \<longleftrightarrow> False"
    and "reg_type r \<in> set [''input'', ''holding''] \<longleftrightarrow> True"
  using assms unfolding numeric_reg_def by auto

lemma Register_Init_reg_ok:
  assumes "Register_Init impl r = Inr r'"
  shows "reg_ok r'" and "reg_type r' = reg_type r" and "reg_addr r' = reg_addr r"
    and "reg_tag r' = reg_tag r" and "reg_datatype r' = reg_datatype r"
proof -
  have t: "reg_type r \<in> set validRegisterTypes"
    and d: "numeric_reg r \<Longrightarrow> reg_datatype r \<in> set validDataTypes"
    using assms unfolding Register_Init_def numeric_reg_def by (auto split: if_splits)
  show "reg_type r' = reg_type r" "reg_addr r' = reg_addr r" "reg_tag r' = reg_tag r"
    "reg_datatype r' = reg_datatype r"
    using assms unfolding Register_Init_def by (auto simp: Let_def split: if_splits)
  have "reg_count r' = datatype_words (reg_datatype r)" if "reg_datatype r \<in> set validDataTypes"
    using that assms unfolding Register_Init_def
    by (cases rule: valid_datatype_cases) (auto simp: datatype_words_def Let_def split: if_splits)
  with t d \<open>reg_type r' = reg_type r\<close> \<open>reg_datatype r' = reg_datatype r\<close> show "reg_ok r'"
    by (auto simp: reg_ok_def numeric_reg_def)
qed

text \<open>Encoding and decoding of an initialised numeric register, by data type.\<close>

lemma Register_Bytes_numeric:
  assumes "numeric_reg r"
  shows "reg_datatype r = ''int16'' \<Longrightarrow>
      Register_Bytes impl r v = Inr (put16 (of_int (f64_to_int impl True 16 (scale_up impl r v))))"
    and "reg_datatype r = ''uint16'' \<Longrightarrow>
      Register_Bytes impl r v = Inr (put16 (of_int (f64_to_int impl False 16 (scale_up impl r v))))"
    and "reg_datatype r = ''int32'' \<Longrightarrow>
      Register_Bytes impl r v = Inr (put32 (of_int (f64_to_int impl True 32 (scale_up impl r v))))"
    and "reg_datatype r = ''uint32'' \<Longrightarrow>
      Register_Bytes impl r v = Inr (put32 (of_int (f64_to_int impl False 32 (scale_up impl r v))))"
    and "reg_datatype r = ''int64'' \<Longrightarrow>
      Register_Bytes impl r v = Inr (put64 (of_int (f64_to_int impl True 64 (scale_up impl r v))))"
    and "reg_datatype r = ''uint64'' \<Longrightarrow>
      Register_Bytes impl r v = Inr (put64 (of_int (f64_to_int impl False 64 (scale_up impl r v))))"
    and "reg_datatype r = ''float'' \<Longrightarrow> Register_Bytes impl r v = Inr (put32 (f32_of_f64 v))"
    and "reg_datatype r = ''double'' \<Longrightarrow> Register_Bytes impl r v = Inr (put64 v)"
  by (simp_all only: Register_Bytes_def numeric_reg_simps [OF assms] if_False if_True Let_def) simp_all

lemma Register_Value_numeric:
  assumes "numeric_reg r"
  shows "reg_datatype r = ''int16'' \<Longrightarrow> Register_Value impl r d =
      Done (read_as (get16 d) (\<lambda>w. scale_down impl r (f64_of_int (sint w))))"
    and "reg_datatype r = ''uint16'' \<Longrightarrow> Register_Value impl r d =
      Done (read_as (get16 d) (\<lambda>w. scale_down impl r (f64_of_int (uint w))))"
    and "reg_datatype r = ''int32'' \<Longrightarrow> Register_Value impl r d =
      Done (read_as (get32 d) (\<lambda>w. scale_down impl r (f64_of_int (sint w))))"
    and "reg_datatype r = ''uint32'' \<Longrightarrow> Register_Value impl r d =
      Done (read_as (get32 d) (\<lambda>w. scale_down impl r (f64_of_int (uint w))))"
    and "reg_datatype r = ''int64'' \<Longrightarrow> Register_Value impl r d =
      Done (read_as (get64 d) (\<lambda>w. scale_down impl r (f64_of_int (sint w))))"
    and "reg_datatype r = ''uint64'' \<Longrightarrow> Register_Value impl r d =
      Done (read_as (get64 d) (\<lambda>w. scale_down impl r (f64_of_int (uint w))))"
    and "reg_datatype r = ''float'' \<Longrightarrow>
      Register_Value impl r d = Done (read_as (get32 d) f64_of_f32)"
    and "reg_datatype r = ''double'' \<Longrightarrow>
      Register_Value impl r d = Done (read_as (get64 d) (\<lambda>w. w))"
  by (simp_all only: Register_Value_def numeric_reg_simps [OF assms] if_False if_True) simp_all

lemma datatype_words_simps [simp]:
  "datatype_words ''int16'' = 1" "datatype_words ''uint16'' = 1"
  "datatype_words ''int32'' = 2" "datatype_words ''uint32'' = 2" "datatype_words ''float'' = 2"
  "datatype_words ''int64'' = 4" "datatype_words ''uint64'' = 4" "datatype_words ''double'' = 4"
  by (simp_all add: datatype_words_def)

lemma Register_Bytes_width:
  assumes "reg_ok r" "numeric_reg r"
  shows "\<exists>bs. Register_Bytes impl r v = Inr bs \<and> length bs = 2 * nat (reg_count r)"
  using reg_ok_numeric_count(3) [OF assms]
  by (cases rule: valid_datatype_cases)
    (simp_all add: Register_Bytes_numeric [OF assms(2)] reg_ok_numeric_count(1) [OF assms]
      u16.enc_length u32.enc_length u64.enc_length)

lemma read_as_Inr_iff: "(\<exists>v. read_as x f = Inr v) \<longleftrightarrow> x \<noteq> None"
  by (cases x) (simp_all add: read_as_def)

lemma Register_Value_total:
  assumes "reg_ok r" "numeric_reg r"
  shows "(\<exists>v. Register_Value impl r d = Done (Inr v)) \<longleftrightarrow> 2 * nat (reg_count r) \<le> length d"
    and "\<exists>x. Register_Value impl r d = Done x"
  using reg_ok_numeric_count(3) [OF assms]
  by (cases rule: valid_datatype_cases;
      simp add: Register_Value_numeric [OF assms(2)] reg_ok_numeric_count(1) [OF assms]
        read_as_Inr_iff u16.dec_iff_long_enough u32.dec_iff_long_enough u64.dec_iff_long_enough
        del: not_None_eq)+

section \<open>Unscaled registers\<close>

lemma f64_zero_int: "f64_is_zero (f64_of_int 0)" "f64_is_zero (f64_neg (f64_of_int 0))"
  by (simp_all add: f64_of_int_def f64_pack_0 f64_neg_def f64_is_zero_def f64_make_fields)

lemma scale_none:
  assumes "reg_scaling r = 0" "\<not> f64_is_nan x"
  shows "scale_up impl r x = x" and "scale_down impl r x = x"
  using assms by (simp_all add: scale_up_def scale_down_def go_pow10_def f64_zero_int f64_mul_one)

lemma scale_none_int:
  assumes "reg_scaling r = 0" "\<bar>i\<bar> < 2 ^ 53"
  shows "scale_up impl r (f64_of_int i) = f64_of_int i"
    and "scale_down impl r (f64_of_int i) = f64_of_int i"
  using f64_finite_not_special [OF f64_of_int_exact(2) [OF assms(2)]] assms(1)
  by (simp_all add: scale_none)

lemma word_fits:
  fixes w :: "'a::len word"
  shows "int_fits True LENGTH('a) (sint w)" and "int_fits False LENGTH('a) (uint w)"
  using sint_greater_eq [of w] sint_less [of w] uint_lt2p [of w]
  by (simp_all add: int_fits_def)

lemma narrow_word_exact:
  fixes w :: "'a::len word"
  assumes "LENGTH('a) \<le> 32"
  shows "\<bar>sint w\<bar> < 2 ^ 53" and "\<bar>uint w\<bar> < 2 ^ 53"
proof -
  have p: "(2::int) ^ LENGTH('a) \<le> 2 ^ 32" using assms by (intro power_increasing) simp_all
  have q: "(2::int) ^ (LENGTH('a) - 1) \<le> 2 ^ 32" using assms by (intro power_increasing) simp_all
  have "uint w < 2 ^ 32" using uint_lt2p p by (rule less_le_trans)
  then show "\<bar>uint w\<bar> < 2 ^ 53" by simp
  show "\<bar>sint w\<bar> < 2 ^ 53"
    using sint_greater_eq [of w] sint_less [of w] q by (simp add: abs_less_iff)
qed

lemma scale_none_word:
  fixes w :: "'a::len word"
  assumes "reg_scaling r = 0" "LENGTH('a) \<le> 32"
  shows "scale_up impl r (f64_of_int (sint w)) = f64_of_int (sint w)"
    and "scale_down impl r (f64_of_int (sint w)) = f64_of_int (sint w)"
    and "scale_up impl r (f64_of_int (uint w)) = f64_of_int (uint w)"
    and "scale_down impl r (f64_of_int (uint w)) = f64_of_int (uint w)"
  by (rule scale_none_int [OF assms(1)], rule narrow_word_exact [OF assms(2)])+

text \<open>
  A register's data type is a fixed-width encoding together with the conversions
  between its words and floats; what the register relies on is that the conversion
  back undoes the conversion to a float on the words it calls exact.
\<close>

locale value_codec = byte_codec width enc dec
  for width :: nat and enc :: "'a \<Rightarrow> byte list" and dec :: "byte list \<Rightarrow> 'a option" +
  fixes to_value :: "'a \<Rightarrow> float64" and of_value :: "float64 \<Rightarrow> 'a" and exact :: "'a \<Rightarrow> bool"
  assumes of_to_value: "exact w \<Longrightarrow> of_value (to_value w) = w"
begin

lemma wire:
  assumes "length d = width" "\<And>w. dec d = Some w \<Longrightarrow> exact w"
  shows "\<exists>w. dec d = Some w \<and> exact w \<and> of_value (to_value w) = w \<and> enc w = d"
  using enc_dec [OF assms(1)] assms(2) of_to_value by blast

lemma value_bytes:
  assumes "exact w"
  shows "dec (enc (of_value (to_value w))) = Some w"
  using assms by (simp add: of_to_value dec_enc_exact)

end

interpretation i16: value_codec 2 put16 get16 "\<lambda>w. f64_of_int (sint w)"
  "\<lambda>v. of_int (f64_to_int impl True 16 v)" "\<lambda>_. True" for impl
  using f64_to_int_of_int [of "sint w" True 16 impl for w :: uint16]
    word_fits(1) [where 'a = 16] narrow_word_exact(1) [where 'a = 16]
  by unfold_locales simp

interpretation w16: value_codec 2 put16 get16 "\<lambda>w. f64_of_int (uint w)"
  "\<lambda>v. of_int (f64_to_int impl False 16 v)" "\<lambda>_. True" for impl
  using f64_to_int_of_int [of "uint w" False 16 impl for w :: uint16]
    word_fits(2) [where 'a = 16] narrow_word_exact(2) [where 'a = 16]
  by unfold_locales simp

interpretation i32: value_codec 4 put32 get32 "\<lambda>w. f64_of_int (sint w)"
  "\<lambda>v. of_int (f64_to_int impl True 32 v)" "\<lambda>_. True" for impl
  using f64_to_int_of_int [of "sint w" True 32 impl for w :: uint32]
    word_fits(1) [where 'a = 32] narrow_word_exact(1) [where 'a = 32]
  by unfold_locales simp

interpretation w32: value_codec 4 put32 get32 "\<lambda>w. f64_of_int (uint w)"
  "\<lambda>v. of_int (f64_to_int impl False 32 v)" "\<lambda>_. True" for impl
  using f64_to_int_of_int [of "uint w" False 32 impl for w :: uint32]
    word_fits(2) [where 'a = 32] narrow_word_exact(2) [where 'a = 32]
  by unfold_locales simp

interpretation fl32: value_codec 4 put32 get32 f64_of_f32 f32_of_f64 "\<lambda>w. \<not> f32_is_nan w"
  by unfold_locales (rule f32_of_f64_of_f32)

interpretation fl64: value_codec 8 put64 get64 "\<lambda>w. w" "\<lambda>v. v" "\<lambda>_. True"
  by unfold_locales simp

interpretation i64: value_codec 8 put64 get64 "\<lambda>w. f64_of_int (sint w)"
  "\<lambda>v. of_int (f64_to_int impl True 64 v)" "\<lambda>w. \<bar>sint w\<bar> < 2 ^ 53" for impl
  using f64_to_int_of_int [of "sint w" True 64 impl for w :: uint64] word_fits(1) [where 'a = 64]
  by unfold_locales simp

interpretation w64: value_codec 8 put64 get64 "\<lambda>w. f64_of_int (uint w)"
  "\<lambda>v. of_int (f64_to_int impl False 64 v)" "\<lambda>w. \<bar>uint w\<bar> < 2 ^ 53" for impl
  using f64_to_int_of_int [of "uint w" False 64 impl for w :: uint64] word_fits(2) [where 'a = 64]
  by unfold_locales simp

definition wire_exact :: "Register \<Rightarrow> byte list \<Rightarrow> bool" where
  "wire_exact r d \<longleftrightarrow>
     (reg_datatype r = ''int64'' \<longrightarrow> (\<forall>w. get64 d = Some w \<longrightarrow> \<bar>sint w\<bar> < 2 ^ 53)) \<and>
     (reg_datatype r = ''uint64'' \<longrightarrow> (\<forall>w. get64 d = Some w \<longrightarrow> \<bar>uint w\<bar> < 2 ^ 53)) \<and>
     (reg_datatype r = ''float'' \<longrightarrow> (\<forall>w. get32 d = Some w \<longrightarrow> \<not> f32_is_nan w))"

lemmas register_codec_simps = read_as_def scale_none_word

lemma Register_wire_exact:
  assumes ok: "reg_ok r" and num: "numeric_reg r" and unscaled: "reg_scaling r = 0"
    and len: "length d = 2 * nat (reg_count r)" and exact: "wire_exact r d"
  shows "\<exists>v. Register_Value impl r d = Done (Inr v) \<and> Register_Bytes impl r v = Inr d"
proof -
  note count = reg_ok_numeric_count(1) [OF ok num]
  note simps = Register_Value_numeric [OF num] Register_Bytes_numeric [OF num]
    register_codec_simps unscaled
  show ?thesis
    using reg_ok_numeric_count(3) [OF ok num]
  proof (cases rule: valid_datatype_cases)
    case 1
    then show ?thesis using i16.wire [of d impl] len count by (auto simp: simps)
  next
    case 2
    then show ?thesis using w16.wire [of d impl] len count by (auto simp: simps)
  next
    case 3
    then show ?thesis using i32.wire [of d impl] len count by (auto simp: simps)
  next
    case 4
    then show ?thesis using w32.wire [of d impl] len count by (auto simp: simps)
  next
    case 5
    then show ?thesis using i64.wire [of d impl] len count exact scale_none_int [OF unscaled, of "sint w" impl for w :: uint64]
      by (auto simp: simps wire_exact_def)
  next
    case 6
    then show ?thesis using w64.wire [of d impl] len count exact scale_none_int [OF unscaled, of "uint w" impl for w :: uint64]
      by (auto simp: simps wire_exact_def)
  next
    case 7
    then show ?thesis using fl32.wire [of d] len count exact by (auto simp: simps wire_exact_def)
  next
    case 8
    then show ?thesis using fl64.wire [of d] len count by (auto simp: simps)
  qed
qed

text \<open>The forms of a register on the wire: a single coil or discrete input is one of the two words of the protocol, any other
  register the bytes of its data type, as far as a float64 holds their value exactly.\<close>

definition wire_form :: "Register \<Rightarrow> byte list \<Rightarrow> bool" where
  "wire_form r d \<longleftrightarrow>
     (if numeric_reg r then length d = 2 * nat (reg_count r) \<and> wire_exact r d else d = put16 0 \<or> d = put16 0xFF00)"

lemma bit_wire_exact:
  assumes "reg_ok r" "\<not> numeric_reg r" "d = put16 0 \<or> d = put16 0xFF00"
  shows "\<exists>v. Register_Value impl r d = Done (Inr v) \<and> Register_Bytes impl r v = Inr d"
proof -
  have t: "reg_type r = ''coil'' \<or> reg_type r = ''discrete''"
    using assms(1,2) by (auto simp: reg_ok_def numeric_reg_def validRegisterTypes_def)
  have "put16 0 = [0, 0]" "put16 0xFF00 = [0xFF, 0]" by (simp_all add: put16_def be_encode_def upt_rec)
  then have "\<exists>b bs. BytesToBits d = b # bs \<and> (b = 0 \<and> d = put16 0 \<or> b = 1 \<and> d = put16 0xFF00)"
    using assms(3) by (auto simp: BytesToBits_Cons upt_rec)
  moreover have "f64_eq (f64_of_int 0) f64_zero" "\<not> f64_eq (f64_of_int 1) f64_zero"
    by (simp_all add: fp_eval cong: let_weak_cong)
  ultimately show ?thesis using t by (auto simp: Register_Value_def Register_Bytes_def)
qed

text \<open>C10: an initialised, unscaled register stores what it was given. Decoding the
  wire bytes of the register and encoding the value again gives the same bytes: for every
  16- and 32-bit integer type, for the 64-bit integer types when the value is less than 2 to the power 53 in
  magnitude, for float unless the bytes are a NaN, for double, and for coils and discrete inputs with one of the two words
  the protocol has for them.\<close>

theorem Register_wire_roundtrip:
  assumes "reg_ok r" "reg_scaling r = 0" "wire_form r d"
  shows "\<exists>v. Register_Value impl r d = Done (Inr v) \<and> Register_Bytes impl r v = Inr d"
proof (cases "numeric_reg r")
  case True
  with assms(3) have "length d = 2 * nat (reg_count r)" "wire_exact r d" by (simp_all add: wire_form_def)
  with Register_wire_exact [OF assms(1) True assms(2)] show ?thesis by blast
next
  case False
  with assms bit_wire_exact show ?thesis by (simp add: wire_form_def)
qed

text \<open>Registers to evaluate instances on.\<close>

definition demo_reg :: "string \<Rightarrow> string \<Rightarrow> int \<Rightarrow> int \<Rightarrow> int \<Rightarrow> string \<Rightarrow> Register" where
  "demo_reg t dt a c sc tag =
     \<lparr>reg_type = t, reg_datatype = dt, reg_addr = a, reg_count = c, reg_scaling = sc, reg_tag = tag\<rparr>"

lemma demo_reg_ok:
  "dt \<in> set validDataTypes \<Longrightarrow> c = datatype_words dt \<Longrightarrow> reg_ok (demo_reg ''holding'' dt a c sc tag)"
  "reg_ok (demo_reg ''coil'' [] a c sc tag)"
  "numeric_reg (demo_reg ''holding'' dt a c sc tag)"
  by (simp_all add: demo_reg_def reg_ok_def numeric_reg_def validRegisterTypes_def)

theorem Register_wire_roundtrip_witness:
  "\<exists>v. Register_Value demo_impl (demo_reg ''holding'' ''int16'' 5 1 0 ''t'') [0xFF, 0xFE] = Done (Inr v) \<and>
       Register_Bytes demo_impl (demo_reg ''holding'' ''int16'' 5 1 0 ''t'') v = Inr [0xFF, 0xFE]"
  by (rule Register_wire_roundtrip)
    (simp_all add: demo_reg_ok validDataTypes_def, simp_all add: demo_reg_def wire_form_def wire_exact_def numeric_reg_def)

section \<open>Engineering values\<close>

definition int_kind :: "string \<Rightarrow> (bool \<times> nat) option" where
  "int_kind dt =
     (if dt = ''int16'' then Some (True, 16) else if dt = ''uint16'' then Some (False, 16)
      else if dt = ''int32'' then Some (True, 32) else if dt = ''uint32'' then Some (False, 32)
      else if dt = ''int64'' then Some (True, 64) else if dt = ''uint64'' then Some (False, 64)
      else None)"

lemma fits_word:
  "int_fits True LENGTH('a::len) i \<Longrightarrow> sint (of_int i :: 'a word) = i"
  "int_fits False LENGTH('a::len) i \<Longrightarrow> uint (of_int i :: 'a word) = i"
  by (simp_all add: int_fits_def signed_of_int signed_take_bit_int_eq_self unsigned_of_int
      take_bit_int_eq_self)

lemma Register_value_exact:
  assumes num: "numeric_reg r" and kind: "int_kind (reg_datatype r) = Some (sgnd, w)"
    and unscaled: "reg_scaling r = 0" and fits: "int_fits sgnd w i" and exact: "\<bar>i\<bar> < 2 ^ 53"
  shows "\<exists>bs. Register_Bytes impl r (f64_of_int i) = Inr bs \<and>
              Register_Value impl r bs = Done (Inr (f64_of_int i))"
proof -
  have conv: "f64_to_int impl sgnd w (scale_up impl r (f64_of_int i)) = i"
    using exact fits unscaled by (simp add: scale_none_int f64_to_int_of_int)
  have down: "scale_down impl r (f64_of_int i) = f64_of_int i"
    using exact unscaled by (simp add: scale_none_int)
  note simps = Register_Value_numeric [OF num] Register_Bytes_numeric [OF num] read_as_def
    u16.dec_enc_exact u32.dec_enc_exact u64.dec_enc_exact conv down
  have f16: "w = 16 \<Longrightarrow> (if sgnd then sint (of_int i :: uint16) else uint (of_int i :: uint16)) = i"
    and f32: "w = 32 \<Longrightarrow> (if sgnd then sint (of_int i :: uint32) else uint (of_int i :: uint32)) = i"
    and f64: "w = 64 \<Longrightarrow> (if sgnd then sint (of_int i :: uint64) else uint (of_int i :: uint64)) = i"
    using fits fits_word [where 'a = 16] fits_word [where 'a = 32] fits_word [where 'a = 64]
    by (cases sgnd; simp)+
  from kind consider
    "reg_datatype r = ''int16''" "sgnd" "w = 16" | "reg_datatype r = ''uint16''" "\<not> sgnd" "w = 16"
    | "reg_datatype r = ''int32''" "sgnd" "w = 32" | "reg_datatype r = ''uint32''" "\<not> sgnd" "w = 32"
    | "reg_datatype r = ''int64''" "sgnd" "w = 64" | "reg_datatype r = ''uint64''" "\<not> sgnd" "w = 64"
    unfolding int_kind_def by (simp split: if_splits)
  then show ?thesis
    by cases (use conv f16 f32 f64 in \<open>simp_all add: simps\<close>)
qed

text \<open>C11: an unscaled integer register represents exactly the integers of its type that a
  float64 holds exactly: encoding such a value and decoding the bytes gives it back.\<close>

theorem Register_value_roundtrip:
  assumes num: "numeric_reg r" and kind: "int_kind (reg_datatype r) = Some (sgnd, w)"
    and unscaled: "reg_scaling r = 0" and fits: "int_fits sgnd w i" and exact: "\<bar>i\<bar> < 2 ^ 53"
  shows "\<exists>bs. Register_Bytes impl r (f64_of_int i) = Inr bs \<and>
              Register_Value impl r bs = Done (Inr (f64_of_int i))"
  using assms by (rule Register_value_exact)

theorem Register_value_roundtrip_witness:
  "\<exists>bs. Register_Bytes demo_impl (demo_reg ''holding'' ''int32'' 5 2 0 ''t'') (f64_of_int (- 70000)) = Inr bs \<and>
        Register_Value demo_impl (demo_reg ''holding'' ''int32'' 5 2 0 ''t'') bs = Done (Inr (f64_of_int (- 70000)))"
  by (rule Register_value_roundtrip [where sgnd = True and w = 32])
    (simp_all add: demo_reg_def numeric_reg_def int_kind_def int_fits_def)

text \<open>A scaled register truncates instead of rounding: the raw value 29 written to a uint16
  register with scaling 2 is held as 0.29 and read back as the raw value 28, whatever the
  implementation's conversions do.\<close>

lemma scaled_register_loses_unit:
  "\<exists>v. Register_Value impl (demo_reg ''holding'' ''uint16'' a 1 2 t) [0, 29] = Done (Inr v) \<and>
       Register_Bytes impl (demo_reg ''holding'' ''uint16'' a 1 2 t) v = Inr [0, 28]"
proof -
  let ?r = "demo_reg ''holding'' ''uint16'' a 1 2 t"
  have two: "f64_of_int 2 = 0x4000000000000000" "f64_neg 0x4000000000000000 = 0xC000000000000000"
    "f64_of_int 29 = 0x403D000000000000"
    by (simp_all add: fp_eval cong: let_weak_cong)
  have p: "go_pow10 impl 0x4000000000000000 = 0x4059000000000000"
    "go_pow10 impl 0xC000000000000000 = 0x3F847AE147AE147B"
    by (simp_all add: fp_eval cong: let_weak_cong)
  have m: "f64_mul 0x403D000000000000 0x3F847AE147AE147B = 0x3FD28F5C28F5C28F"
    "f64_mul 0x3FD28F5C28F5C28F 0x4059000000000000 = 0x403CFFFFFFFFFFFF"
    by (simp_all add: fp_eval cong: let_weak_cong)
  have c: "f64_to_int impl False 16 0x403CFFFFFFFFFFFF = 28"
    by (simp add: fp_eval cong: let_weak_cong)
  have g: "get16 [0, 29] = Some 29" "put16 28 = [0, 28]"
    by (simp_all add: get16_def put16_def be_decode_def be_encode_def upt_conv_Cons)
  have r: "numeric_reg ?r" "reg_datatype ?r = ''uint16''" "reg_scaling ?r = 2"
    by (simp_all add: demo_reg_ok, simp_all add: demo_reg_def)
  show ?thesis
    by (rule exI [of _ "0x3FD28F5C28F5C28F"])
      (simp add: Register_Value_numeric(2) [OF r(1,2)] Register_Bytes_numeric(2) [OF r(1,2)]
        read_as_def scale_up_def scale_down_def r(3) g two p m c)
qed

text \<open>Unpacking the bytes a list of discrete values was packed into gives the values back,
  as zeros and ones, followed only by the zeros that fill the last byte; and packing the bits
  of any bytes gives those bytes.\<close>

lemma bits_bytes_roundtrip:
  "BytesToBits (BitsToBytes bs) =
     map (\<lambda>b. if b \<noteq> 0 then 1 else 0) bs @ replicate (8 * bits_size (length bs) - length bs) 0
   \<and> BitsToBytes (BytesToBits data) = data"
  by (simp add: BytesToBits_BitsToBytes_pad BitsToBytes_BytesToBits_id)

end
