(* ===== verification/Msgbus.thy ===== *)
theory Msgbus
  imports GoJson
begin

text \<open>
  The package msgbus: the envelope that every message travels in (envelope.go), the
  message kinds (runtime.go, module.go, health.go), the pusher that hands envelopes
  to the bus (pusher.go) and the metrics a module keeps and publishes (metric.go).
  The ZeroMQ socket is a parameter: it accepts or refuses each send.
\<close>

section \<open>Messages\<close>

record Point =
  pt_tag :: string
  pt_value :: float64
  pt_ts :: uint64

record Status = Measurements :: "Point list"

record Update =
  Updates :: "Point list"
  up_recipient :: string
  up_confirm :: string

record ModuleControl =
  mc_list :: bool
  mc_enable :: "string list"
  mc_disable :: "string list"
  mc_recipient :: string
  mc_confirm :: string

record Confirmation =
  cf_confirm :: string
  cf_results :: "(string \<times> json) list"
  cf_errors :: "(string \<times> string) list"

record HealthCheck = hc_state :: string

definition ENVELOPE_STATUS :: string where "ENVELOPE_STATUS = ''Status''"
definition ENVELOPE_UPDATE :: string where "ENVELOPE_UPDATE = ''Update''"
definition ENVELOPE_CONFIRMATION :: string where "ENVELOPE_CONFIRMATION = ''Confirmation''"
definition ENVELOPE_MODULE_CONTROL :: string where "ENVELOPE_MODULE_CONTROL = ''ModuleControl''"
definition ENVELOPE_HEALTHCHECK :: string where "ENVELOPE_HEALTHCHECK = ''HealthCheck''"
definition ENVELOPE_METRIC :: string where "ENVELOPE_METRIC = ''Metric''"

lemmas kind_defs = ENVELOPE_STATUS_def ENVELOPE_UPDATE_def ENVELOPE_CONFIRMATION_def
  ENVELOPE_MODULE_CONTROL_def ENVELOPE_HEALTHCHECK_def ENVELOPE_METRIC_def

text \<open>The types NewEnvelope is instantiated with, and the kind each reports.\<close>

datatype contents =
    C_Status Status
  | C_Update Update
  | C_ModuleControl ModuleControl
  | C_Confirmation Confirmation

fun contents_kind :: "contents \<Rightarrow> string" where
  "contents_kind (C_Status _) = ENVELOPE_STATUS"
| "contents_kind (C_Update _) = ENVELOPE_UPDATE"
| "contents_kind (C_ModuleControl _) = ENVELOPE_MODULE_CONTROL"
| "contents_kind (C_Confirmation _) = ENVELOPE_CONFIRMATION"

section \<open>JSON of the messages\<close>

text \<open>A nil slice is written as null.\<close>

definition enc_slice :: "('a \<Rightarrow> json) \<Rightarrow> 'a list \<Rightarrow> json" where
  "enc_slice f xs = (if xs = [] then JNull else JArray (map f xs))"

definition enc_point :: "Point \<Rightarrow> json" where
  "enc_point p =
     JObject [(''tag'', JString (pt_tag p)), (''value'', JNumber (Shortest (pt_value p))),
              (''ts'', JNumber (Decimal False (unat (pt_ts p)) 0 True))]"

definition enc_string_map :: "(string \<times> string) list \<Rightarrow> json" where
  "enc_string_map m = JObject (map (\<lambda>(k, v). (k, JString v)) m)"

fun enc_contents :: "contents \<Rightarrow> json" where
  "enc_contents (C_Status s) = JObject [(''measurements'', enc_slice enc_point (Measurements s))]"
| "enc_contents (C_Update u) =
     JObject [(''updates'', enc_slice enc_point (Updates u)), (''recipient'', JString (up_recipient u)),
              (''confirm'', JString (up_confirm u))]"
| "enc_contents (C_ModuleControl c) =
     JObject [(''list'', JBool (mc_list c)), (''enable'', enc_slice JString (mc_enable c)),
              (''disable'', enc_slice JString (mc_disable c)), (''recipient'', JString (mc_recipient c)),
              (''confirm'', JString (mc_confirm c))]"
| "enc_contents (C_Confirmation c) =
     JObject [(''confirm'', JString (cf_confirm c)), (''results'', JObject (cf_results c)),
              (''errors'', enc_string_map (cf_errors c))]"

text \<open>json.Marshal refuses a NaN or an infinity.\<close>

definition points_finite :: "Point list \<Rightarrow> bool" where
  "points_finite ps = list_all (\<lambda>p. f64_finite (pt_value p)) ps"

fun marshal_contents :: "contents \<Rightarrow> json result" where
  "marshal_contents (C_Status s) =
     (if points_finite (Measurements s) then Inr (enc_contents (C_Status s))
      else Inl ''unsupported value'')"
| "marshal_contents (C_Update u) =
     (if points_finite (Updates u) then Inr (enc_contents (C_Update u)) else Inl ''unsupported value'')"
| "marshal_contents c = Inr (enc_contents c)"

definition zero_point :: Point where "zero_point = \<lparr>pt_tag = [], pt_value = 0, pt_ts = 0\<rparr>"

definition dec_point :: "Point decoder" where
  "dec_point =
     dec_struct [(''tag'', into pt_tag pt_tag_update dec_string),
                 (''value'', into pt_value pt_value_update dec_float64),
                 (''ts'', into pt_ts pt_ts_update dec_uint64)]"

definition dec_status :: "Status decoder" where
  "dec_status =
     dec_struct [(''measurements'', into Measurements Measurements_update (dec_slice dec_point zero_point))]"

definition dec_update :: "Update decoder" where
  "dec_update =
     dec_struct [(''updates'', into Updates Updates_update (dec_slice dec_point zero_point)),
                 (''recipient'', into up_recipient up_recipient_update dec_string),
                 (''confirm'', into up_confirm up_confirm_update dec_string)]"

definition dec_module_control :: "ModuleControl decoder" where
  "dec_module_control =
     dec_struct [(''list'', into mc_list mc_list_update dec_bool),
                 (''enable'', into mc_enable mc_enable_update (dec_slice dec_string [])),
                 (''disable'', into mc_disable mc_disable_update (dec_slice dec_string [])),
                 (''recipient'', into mc_recipient mc_recipient_update dec_string),
                 (''confirm'', into mc_confirm mc_confirm_update dec_string)]"

text \<open>A map whose values are of any type keeps them as they are.\<close>

definition dec_any_map :: "((string \<times> json) list) decoder" where
  "dec_any_map j old = (if j = JNull then ([], False) else dec_object (\<lambda>k v m. ((k, v) # m, False)) j old)"

definition dec_confirmation :: "Confirmation decoder" where
  "dec_confirmation =
     dec_struct [(''confirm'', into cf_confirm cf_confirm_update dec_string),
                 (''results'', into cf_results cf_results_update dec_any_map),
                 (''errors'', into cf_errors cf_errors_update dec_string_map)]"

definition dec_health_check :: "HealthCheck decoder" where
  "dec_health_check = dec_struct [(''state'', into hc_state hc_state_update dec_string)]"

section \<open>envelope.go\<close>

record Envelope =
  env_version :: string
  env_kind :: string
  env_metadata :: "(string \<times> string) list"
  env_contents :: "json option"

definition zero_envelope :: Envelope where
  "zero_envelope = \<lparr>env_version = [], env_kind = [], env_metadata = [], env_contents = None\<rparr>"

definition Sender :: "Envelope \<Rightarrow> string" where
  "Sender env = (case map_of (env_metadata env) ''sender'' of Some s \<Rightarrow> s | None \<Rightarrow> [])"

definition NewEnvelope :: "string \<Rightarrow> contents \<Rightarrow> Envelope result" where
  "NewEnvelope sender c =
     (case marshal_contents c of
        Inl e \<Rightarrow> Inl ''marshaling envelope contents''
      | Inr raw \<Rightarrow> Inr \<lparr>env_version = ''v1'', env_kind = contents_kind c,
                      env_metadata = [(''sender'', sender)], env_contents = Some raw\<rparr>)"

text \<open>The text of an envelope on the bus, and ParseEnvelope; text that is not JSON is None.\<close>

definition enc_envelope :: "Envelope \<Rightarrow> json" where
  "enc_envelope env =
     JObject [(''version'', JString (env_version env)), (''kind'', JString (env_kind env)),
              (''metadata'', enc_string_map (env_metadata env)),
              (''contents'', case env_contents env of None \<Rightarrow> JNull | Some j \<Rightarrow> j)]"

definition dec_envelope :: "Envelope decoder" where
  "dec_envelope =
     dec_struct [(''version'', into env_version env_version_update dec_string),
                 (''kind'', into env_kind env_kind_update dec_string),
                 (''metadata'', into env_metadata env_metadata_update dec_string_map),
                 (''contents'', into env_contents env_contents_update (\<lambda>j _. (Some j, False)))]"

definition ParseEnvelope :: "json option \<Rightarrow> Envelope result" where
  "ParseEnvelope data =
     (case data of
        None \<Rightarrow> Inl ''unmarshaling envelope''
      | Some j \<Rightarrow> (case dec_envelope j zero_envelope of
                    (env, e) \<Rightarrow> if e then Inl ''unmarshaling envelope'' else Inr env))"

section \<open>Typed access to the contents\<close>

text \<open>
  The accessors return the message, decoded as far as it went, and an error: the
  kind's own error value when the envelope is of another kind, or a decoding error.
\<close>

datatype access_error = ErrKind | ErrUnmarshal

definition access :: "string \<Rightarrow> 'a decoder \<Rightarrow> 'a \<Rightarrow> Envelope \<Rightarrow> 'a \<times> access_error option" where
  "access kind d z env =
     (if env_kind env \<noteq> kind then (z, Some ErrKind)
      else case env_contents env of
             None \<Rightarrow> (z, Some ErrUnmarshal)
           | Some j \<Rightarrow> (case d j z of (x, e) \<Rightarrow> (x, if e then Some ErrUnmarshal else None)))"

definition env_Status :: "Envelope \<Rightarrow> Status \<times> access_error option" where
  "env_Status = access ENVELOPE_STATUS dec_status \<lparr>Measurements = []\<rparr>"

definition env_Update :: "Envelope \<Rightarrow> Update \<times> access_error option" where
  "env_Update = access ENVELOPE_UPDATE dec_update \<lparr>Updates = [], up_recipient = [], up_confirm = []\<rparr>"

definition env_ModuleControl :: "Envelope \<Rightarrow> ModuleControl \<times> access_error option" where
  "env_ModuleControl = access ENVELOPE_MODULE_CONTROL dec_module_control
     \<lparr>mc_list = False, mc_enable = [], mc_disable = [], mc_recipient = [], mc_confirm = []\<rparr>"

definition env_Confirmation :: "Envelope \<Rightarrow> Confirmation \<times> access_error option" where
  "env_Confirmation = access ENVELOPE_CONFIRMATION dec_confirmation \<lparr>cf_confirm = [], cf_results = [], cf_errors = []\<rparr>"

definition NewHealthCheckEnvelope :: "string \<Rightarrow> HealthCheck \<Rightarrow> Envelope" where
  "NewHealthCheckEnvelope sender hc =
     \<lparr>env_version = ''v1'', env_kind = ENVELOPE_HEALTHCHECK, env_metadata = [(''sender'', sender)],
      env_contents = Some (JObject [(''state'', JString (hc_state hc))])\<rparr>"

definition env_HealthCheck :: "Envelope \<Rightarrow> HealthCheck \<times> access_error option" where
  "env_HealthCheck = access ENVELOPE_HEALTHCHECK dec_health_check \<lparr>hc_state = []\<rparr>"

section \<open>pusher.go\<close>

datatype payload = P_Envelope Envelope | P_Text string

text \<open>The socket decides, send by send, whether it takes the message.\<close>

record Pusher =
  sock :: "nat \<Rightarrow> bool"
  attempts :: nat
  sent :: "(string \<times> payload) list"

text \<open>Opening a socket: whether the context, the socket, the connection and the option are granted.\<close>

record zmq_api =
  zmq_context :: bool
  zmq_socket :: bool
  zmq_connect :: "string \<Rightarrow> bool"
  zmq_linger :: bool
  zmq_sends :: "nat \<Rightarrow> bool"

definition NewPusher :: "zmq_api \<Rightarrow> string \<Rightarrow> Pusher result" where
  "NewPusher zmq endpoint =
     (if \<not> zmq_context zmq then Inl ''creating ZMQ context''
      else if \<not> zmq_socket zmq then Inl ''creating ZMQ PUSH socket''
      else if \<not> zmq_connect zmq endpoint then Inl ''connecting ZMQ PUSH socket''
      else if \<not> zmq_linger zmq then Inl ''setting ZMQ PUSH socket linger''
      else Inr \<lparr>sock = zmq_sends zmq, attempts = 0, sent = []\<rparr>)"

definition MustNewPusher :: "zmq_api \<Rightarrow> string \<Rightarrow> Pusher outcome" where
  "MustNewPusher zmq endpoint = (case NewPusher zmq endpoint of Inl err \<Rightarrow> Panic | Inr p \<Rightarrow> Done p)"

definition SendMessage :: "string \<Rightarrow> payload \<Rightarrow> Pusher \<Rightarrow> bool \<times> Pusher" where
  "SendMessage topic body p =
     (if sock p (attempts p)
      then (True, p\<lparr>attempts := attempts p + 1, sent := sent p @ [(topic, body)]\<rparr>)
      else (False, p\<lparr>attempts := attempts p + 1\<rparr>))"

definition Push :: "string \<Rightarrow> Envelope \<Rightarrow> Pusher \<Rightarrow> string option \<times> Pusher" where
  "Push topic env p =
     (case SendMessage topic (P_Envelope env) p of
        (ok, p') \<Rightarrow> (if ok then None else Some ''sending Envelope to topic'', p'))"

definition PushString :: "string \<Rightarrow> string \<Rightarrow> Pusher \<Rightarrow> string option \<times> Pusher" where
  "PushString topic msg p =
     (case SendMessage topic (P_Text msg) p of
        (ok, p') \<Rightarrow> (if ok then None else Some ''sending string to topic'', p'))"

section \<open>metric.go\<close>

definition METRIC_COUNTER :: string where "METRIC_COUNTER = ''Counter''"
definition METRIC_GAUGE :: string where "METRIC_GAUGE = ''Gauge''"

record Metric =
  m_kind :: string
  m_name :: string
  m_desc :: string
  m_value :: float64

type_synonym MetricsPusher = "string \<rightharpoonup> Metric"

definition NewMetric :: "string \<Rightarrow> string \<Rightarrow> string \<Rightarrow> MetricsPusher \<Rightarrow> MetricsPusher" where
  "NewMetric kind name desc ms = ms(name \<mapsto> \<lparr>m_kind = kind, m_name = name, m_desc = desc, m_value = f64_zero\<rparr>)"

definition IncrMetric :: "string \<Rightarrow> MetricsPusher \<Rightarrow> MetricsPusher" where
  "IncrMetric name ms =
     (case ms name of
        Some m \<Rightarrow> ms(name \<mapsto> m\<lparr>m_value := f64_add (m_value m) f64_one\<rparr>)
      | None \<Rightarrow> ms)"

definition IncrMetricBy :: "string \<Rightarrow> int \<Rightarrow> MetricsPusher \<Rightarrow> MetricsPusher" where
  "IncrMetricBy name val ms =
     (case ms name of
        Some m \<Rightarrow> ms(name \<mapsto> m\<lparr>m_value := f64_add (m_value m) (f64_of_int val)\<rparr>)
      | None \<Rightarrow> ms)"

definition SetMetric :: "string \<Rightarrow> float64 \<Rightarrow> MetricsPusher \<Rightarrow> MetricsPusher" where
  "SetMetric name val ms =
     (case ms name of Some m \<Rightarrow> ms(name \<mapsto> m\<lparr>m_value := val\<rparr>) | None \<Rightarrow> ms)"

definition enc_metric :: "Metric \<Rightarrow> json" where
  "enc_metric m =
     JObject [(''kind'', JString (m_kind m)), (''name'', JString (m_name m)),
              (''desc'', JString (m_desc m)), (''value'', JNumber (Shortest (m_value m)))]"

definition zero_metric :: Metric where
  "zero_metric = \<lparr>m_kind = [], m_name = [], m_desc = [], m_value = 0\<rparr>"

definition dec_metric :: "Metric decoder" where
  "dec_metric =
     dec_struct [(''kind'', into m_kind m_kind_update dec_string),
                 (''name'', into m_name m_name_update dec_string),
                 (''desc'', into m_desc m_desc_update dec_string),
                 (''value'', into m_value m_value_update dec_float64)]"

definition NewMetricEnvelope :: "string \<Rightarrow> Metric list \<Rightarrow> Envelope result" where
  "NewMetricEnvelope sender ms =
     (if list_all (\<lambda>m. f64_finite (m_value m)) ms
      then Inr \<lparr>env_version = ''v1'', env_kind = ENVELOPE_METRIC, env_metadata = [(''sender'', sender)],
                env_contents = Some (JObject [(''metrics'', enc_slice enc_metric ms)])\<rparr>
      else Inl ''marshaling Metric envelope contents'')"

definition env_Metrics :: "Envelope \<Rightarrow> Metric list \<times> access_error option" where
  "env_Metrics = access ENVELOPE_METRIC
     (dec_struct [(''metrics'', into id (\<lambda>f. f) (dec_slice dec_metric zero_metric))]) []"

text \<open>
  One tick of the publishing loop. Go visits the map in any order: keys is the order
  of this visit. The metric's copy gets the module's name in front of its own, once.
\<close>

definition prefixed :: "string \<Rightarrow> Metric \<Rightarrow> Metric" where
  "prefixed name m =
     (let prefix = name @ ''_''
      in if \<not> HasPrefix (m_name m) prefix then m\<lparr>m_name := prefix @ m_name m\<rparr> else m)"

definition metric_updates :: "string \<Rightarrow> string list \<Rightarrow> MetricsPusher \<Rightarrow> Metric list" where
  "metric_updates name keys ms = map (prefixed name) (List.map_filter ms keys)"

definition MetricsPusher_tick :: "string \<Rightarrow> string list \<Rightarrow> MetricsPusher \<Rightarrow> Pusher \<Rightarrow> Pusher" where
  "MetricsPusher_tick name keys ms p =
     (let updates = metric_updates name keys ms
      in if updates = [] then p
         else case NewMetricEnvelope name updates of
                Inl err \<Rightarrow> snd (PushString ''LOG'' err p)
              | Inr env \<Rightarrow>
                  (case Push ''HEALTH'' env p of
                     (None, p') \<Rightarrow> p'
                   | (Some err, p') \<Rightarrow> snd (PushString ''LOG'' err p')))"

section \<open>Facts about messages\<close>

lemmas dec_simps = dec_struct_def pick_field_def into_def

lemma kinds_distinct:
  "distinct [ENVELOPE_STATUS, ENVELOPE_UPDATE, ENVELOPE_CONFIRMATION, ENVELOPE_MODULE_CONTROL,
     ENVELOPE_HEALTHCHECK, ENVELOPE_METRIC]"
  by (simp add: kind_defs)

interpretation json_point: json_codec enc_point dec_point "\<lambda>p. f64_finite (pt_value p)" zero_point
proof unfold_locales
  fix p :: Point
  show "dec_point (enc_point p) zero_point = (p, False)"
    using uint64_literal [of "pt_ts p"]
    by (cases p) (simp add: dec_point_def enc_point_def dec_simps zero_point_def)
qed

interpretation json_metric: json_codec enc_metric dec_metric "\<lambda>m. f64_finite (m_value m)" zero_metric
  by unfold_locales (simp add: dec_metric_def enc_metric_def dec_simps zero_metric_def)

lemma dec_enc_points:
  "points_finite ps \<Longrightarrow> dec_slice dec_point zero_point (enc_slice enc_point ps) old = (ps, False)"
  by (simp add: enc_slice_def points_finite_def json_point.elems)

lemma dec_enc_strings: "dec_slice dec_string [] (enc_slice JString xs) old = (xs, False)"
  by (simp add: enc_slice_def json_string.elems list_all_iff)

lemma env_Status_NewEnvelope:
  "NewEnvelope n (C_Status s) = Inr env \<Longrightarrow> env_Status env = (s, None)"
  by (auto simp: NewEnvelope_def env_Status_def access_def dec_status_def dec_simps dec_enc_points
      split: if_splits)

lemma env_Update_NewEnvelope:
  "NewEnvelope n (C_Update u) = Inr env \<Longrightarrow> env_Update env = (u, None)"
  by (auto simp: NewEnvelope_def env_Update_def access_def dec_update_def dec_simps dec_enc_points
      split: if_splits)

lemma env_ModuleControl_NewEnvelope:
  "NewEnvelope n (C_ModuleControl c) = Inr env \<Longrightarrow> env_ModuleControl env = (c, None)"
  by (auto simp: NewEnvelope_def env_ModuleControl_def access_def dec_module_control_def dec_simps
      dec_enc_strings)

lemma dec_members_any: "\<exists>m. dec_members (\<lambda>k v m. ((k, v) # m, False)) ms old = (m, False)"
  by (induction ms arbitrary: old) (auto split: prod.split)

lemma dec_members_strings:
  "\<exists>m. dec_members (\<lambda>k v m. case dec_string v [] of (s, e) \<Rightarrow> ((k, s) # m, e)) (map (\<lambda>(k, v). (k, JString v)) ms) old = (m, False)"
  by (induction ms arbitrary: old) (auto split: prod.split)

lemma env_Confirmation_NewEnvelope:
  assumes "NewEnvelope n (C_Confirmation c) = Inr env"
  shows "\<exists>c'. env_Confirmation env = (c', None) \<and> cf_confirm c' = cf_confirm c"
proof -
  obtain m where m: "dec_any_map (JObject (cf_results c)) [] = (m, False)"
    using dec_members_any [of "cf_results c" "[]"] by (auto simp: dec_any_map_def)
  obtain m' where m': "dec_string_map (enc_string_map (cf_errors c)) [] = (m', False)"
    using dec_members_strings [of "cf_errors c" "[]"] by (auto simp: dec_string_map_def enc_string_map_def)
  from assms m m' show ?thesis
    by (auto simp: NewEnvelope_def env_Confirmation_def access_def dec_confirmation_def dec_simps)
qed

lemma env_HealthCheck_NewEnvelope: "env_HealthCheck (NewHealthCheckEnvelope n hc) = (hc, None)"
  by (simp add: NewHealthCheckEnvelope_def env_HealthCheck_def access_def dec_health_check_def dec_simps)

lemma Sender_NewEnvelope: "NewEnvelope n c = Inr env \<Longrightarrow> Sender env = n"
  by (auto simp: NewEnvelope_def Sender_def split: sum.splits)

lemma kind_NewEnvelope: "NewEnvelope n c = Inr env \<Longrightarrow> env_kind env = contents_kind c"
  by (auto simp: NewEnvelope_def split: sum.splits)

lemma Parse_NewEnvelope:
  "NewEnvelope n c = Inr env \<Longrightarrow> ParseEnvelope (Some (enc_envelope env)) = Inr env"
  by (auto simp: NewEnvelope_def ParseEnvelope_def enc_envelope_def dec_envelope_def dec_simps
      dec_string_map_def enc_string_map_def zero_envelope_def split: sum.splits)

lemma NewEnvelope_fails_iff:
  "(\<exists>env. NewEnvelope n (C_Status s) = Inr env) \<longleftrightarrow> points_finite (Measurements s)"
  "(\<exists>env. NewEnvelope n (C_Update u) = Inr env) \<longleftrightarrow> points_finite (Updates u)"
  "\<exists>env. NewEnvelope n (C_ModuleControl mc) = Inr env"
  "\<exists>env. NewEnvelope n (C_Confirmation cf) = Inr env"
  by (simp_all add: NewEnvelope_def)

text \<open>The kinds of messages as which an envelope can be read: those whose method does not refuse it for its kind.\<close>

definition readable_as :: "Envelope \<Rightarrow> string list" where
  "readable_as env = map fst (filter (\<lambda>(kind, err). err \<noteq> Some ErrKind)
     [(ENVELOPE_STATUS, snd (env_Status env)), (ENVELOPE_UPDATE, snd (env_Update env)),
      (ENVELOPE_MODULE_CONTROL, snd (env_ModuleControl env)), (ENVELOPE_CONFIRMATION, snd (env_Confirmation env)),
      (ENVELOPE_HEALTHCHECK, snd (env_HealthCheck env)), (ENVELOPE_METRIC, snd (env_Metrics env))])"

lemma readable_as_one:
  "NewEnvelope n (C_Status s) = Inr env \<Longrightarrow> readable_as env = [ENVELOPE_STATUS]"
  "NewEnvelope n (C_Update u) = Inr env \<Longrightarrow> readable_as env = [ENVELOPE_UPDATE]"
  using env_Status_NewEnvelope [of n s env] env_Update_NewEnvelope [of n u env]
  by (auto simp: readable_as_def env_Status_def env_Update_def env_ModuleControl_def env_Confirmation_def
      env_HealthCheck_def env_Metrics_def access_def kind_defs dest!: kind_NewEnvelope)

text \<open>C12: a status or an update travels unchanged or is refused. When all its values are finite it can be put in an
  envelope, and what a subscriber parses from the bus is then the same envelope,
  with the same sender, from which the same message is read; read as a message of any other kind it is refused. With a value that
  is not finite there is no envelope.\<close>

theorem envelope_roundtrip:
  "(if points_finite (Measurements s)
    then \<exists>env. NewEnvelope n (C_Status s) = Inr env \<and> ParseEnvelope (Some (enc_envelope env)) = Inr env \<and>
           Sender env = n \<and> env_Status env = (s, None) \<and> readable_as env = [ENVELOPE_STATUS]
    else \<exists>err. NewEnvelope n (C_Status s) = Inl err) \<and>
   (if points_finite (Updates u)
    then \<exists>env. NewEnvelope n (C_Update u) = Inr env \<and> ParseEnvelope (Some (enc_envelope env)) = Inr env \<and>
           Sender env = n \<and> env_Update env = (u, None) \<and> readable_as env = [ENVELOPE_UPDATE]
    else \<exists>err. NewEnvelope n (C_Update u) = Inl err)"
proof (intro conjI)
  show "if points_finite (Measurements s)
    then \<exists>env. NewEnvelope n (C_Status s) = Inr env \<and> ParseEnvelope (Some (enc_envelope env)) = Inr env \<and>
           Sender env = n \<and> env_Status env = (s, None) \<and> readable_as env = [ENVELOPE_STATUS]
    else \<exists>err. NewEnvelope n (C_Status s) = Inl err"
  proof (cases "NewEnvelope n (C_Status s)")
    case (Inr env)
    with Parse_NewEnvelope [OF Inr] Sender_NewEnvelope [OF Inr] env_Status_NewEnvelope [OF Inr] readable_as_one(1) [OF Inr]
      NewEnvelope_fails_iff(1) [of n s] show ?thesis by auto
  qed (use NewEnvelope_fails_iff(1) [of n s] in auto)
  show "if points_finite (Updates u)
    then \<exists>env. NewEnvelope n (C_Update u) = Inr env \<and> ParseEnvelope (Some (enc_envelope env)) = Inr env \<and>
           Sender env = n \<and> env_Update env = (u, None) \<and> readable_as env = [ENVELOPE_UPDATE]
    else \<exists>err. NewEnvelope n (C_Update u) = Inl err"
  proof (cases "NewEnvelope n (C_Update u)")
    case (Inr env)
    with Parse_NewEnvelope [OF Inr] Sender_NewEnvelope [OF Inr] env_Update_NewEnvelope [OF Inr] readable_as_one(2) [OF Inr]
      NewEnvelope_fails_iff(2) [of n u] show ?thesis by auto
  qed (use NewEnvelope_fails_iff(2) [of n u] in auto)
qed

section \<open>Handlers on the bus\<close>

text \<open>
  Every module that subscribes to the bus drops the messages it sent itself. What the
  bus relies on: such a message changes nothing, and no message renames the module.
  Then only the messages of the other modules count.
\<close>

locale bus_handler =
  fixes handler_name :: "'s \<Rightarrow> string" and handle :: "Envelope \<Rightarrow> 's \<Rightarrow> 's"
  assumes own_ignored: "Sender env = handler_name s \<Longrightarrow> handle env s = s"
    and name_kept: "handler_name (handle env s) = handler_name s"
begin

lemma name_kept_all: "handler_name (fold handle envs s) = handler_name s"
  by (induction envs arbitrary: s) (simp_all add: name_kept)

lemma echo_free:
  "fold handle envs s = fold handle (filter (\<lambda>env. Sender env \<noteq> handler_name s) envs) s"
proof (induction envs arbitrary: s)
  case (Cons env envs)
  then show ?case
    by (cases "Sender env = handler_name s")
      (simp_all add: own_ignored, simp add: Cons.IH [of "handle env s"] name_kept)
qed simp

end

section \<open>Metrics\<close>

text \<open>Setting, raising and publishing a metric never creates one; a module's counters are those
  it declared with NewMetric.\<close>

lemma metric_dom [simp]:
  "dom (IncrMetric n ms) = dom ms" "dom (IncrMetricBy n k ms) = dom ms" "dom (SetMetric n v ms) = dom ms"
  "dom (NewMetric kd n d ms) = insert n (dom ms)"
  by (auto simp: IncrMetric_def IncrMetricBy_def SetMetric_def NewMetric_def split: option.splits if_splits)

lemma IncrMetric_other: "n' \<noteq> n \<Longrightarrow> IncrMetric n ms n' = ms n'"
  by (simp add: IncrMetric_def split: option.splits)

lemma IncrMetricBy_1: "IncrMetricBy n 1 ms = IncrMetric n ms"
proof -
  have "f64_of_int 1 = f64_one" by (simp add: fp_eval cong: let_weak_cong)
  then show ?thesis by (simp add: IncrMetricBy_def IncrMetric_def split: option.split)
qed

lemma prefixed_idem: "prefixed name (prefixed name m) = prefixed name m"
  by (simp add: prefixed_def Let_def HasPrefix_iff)

end
