(* ===== verification/Subscriber.thy ===== *)
theory Subscriber
  imports Msgbus
begin

text \<open>
  The subscriber of msgbus/subscriber.go: the handlers a module registers, the loop
  that receives messages and dispatches them by kind, and the confirmations other
  goroutines wait for. The loop has a value receiver, so it works on the copy of the
  subscriber made when it was started; the map of confirmations is shared between
  the copy and the original.
\<close>

section \<open>State\<close>

type_synonym 's handler = "Envelope \<Rightarrow> 's \<Rightarrow> 's"

record 's Subscriber =
  sub_running :: bool
  statusHandlers :: "'s handler list"
  updateHandlers :: "'s handler list"
  healthCheckHandlers :: "'s handler list"

text \<open>
  The subscriber object, the topic and the copy its loop runs with, the shared map of
  confirmation channels, which channels have a receiver, what was sent on them, and
  the state of the module the handlers work on.
\<close>

record 's bus =
  sub_object :: "'s Subscriber"
  sub_loop :: "(string \<times> 's Subscriber) option"
  confirmationHandlers :: "string \<rightharpoonup> nat"
  chan_next :: nat
  chan_receiver :: "nat \<Rightarrow> bool"
  chan_sent :: "(nat \<times> Confirmation) list"
  module_state :: 's

definition empty_subscriber :: "'s \<Rightarrow> 's bus" where
  "empty_subscriber m =
     \<lparr>sub_object = \<lparr>sub_running = False, statusHandlers = [], updateHandlers = [], healthCheckHandlers = []\<rparr>,
      sub_loop = None, confirmationHandlers = Map.empty, chan_next = 0, chan_receiver = (\<lambda>_. False),
      chan_sent = [], module_state = m\<rparr>"

definition NewSubscriber :: "zmq_api \<Rightarrow> string \<Rightarrow> 's \<Rightarrow> 's bus result" where
  "NewSubscriber zmq endpoint m =
     (if \<not> zmq_context zmq then Inl ''creating ZMQ context''
      else if \<not> zmq_socket zmq then Inl ''creating ZMQ SUB socket''
      else if \<not> zmq_connect zmq endpoint then Inl ''connecting ZMQ SUB socket''
      else if \<not> zmq_linger zmq then Inl ''setting ZMQ SUB socket linger''
      else Inr (empty_subscriber m))"

definition MustNewSubscriber :: "zmq_api \<Rightarrow> string \<Rightarrow> 's \<Rightarrow> 's bus outcome" where
  "MustNewSubscriber zmq endpoint m = (case NewSubscriber zmq endpoint m of Inl err \<Rightarrow> Panic | Inr b \<Rightarrow> Done b)"

definition AddStatusHandler :: "'s handler \<Rightarrow> 's bus \<Rightarrow> 's bus" where
  "AddStatusHandler h b = b\<lparr>sub_object := (sub_object b)\<lparr>statusHandlers := statusHandlers (sub_object b) @ [h]\<rparr>\<rparr>"

definition AddUpdateHandler :: "'s handler \<Rightarrow> 's bus \<Rightarrow> 's bus" where
  "AddUpdateHandler h b = b\<lparr>sub_object := (sub_object b)\<lparr>updateHandlers := updateHandlers (sub_object b) @ [h]\<rparr>\<rparr>"

definition AddHealthCheckHandler :: "'s handler \<Rightarrow> 's bus \<Rightarrow> 's bus" where
  "AddHealthCheckHandler h b =
     b\<lparr>sub_object := (sub_object b)\<lparr>healthCheckHandlers := healthCheckHandlers (sub_object b) @ [h]\<rparr>\<rparr>"

text \<open>A new unbuffered channel; the caller receives from it until it gives up.\<close>

definition RegisterConfirmationHandler :: "string \<Rightarrow> 's bus \<Rightarrow> nat \<times> 's bus" where
  "RegisterConfirmationHandler confirmation b =
     (chan_next b,
      b\<lparr>confirmationHandlers := (confirmationHandlers b)(confirmation \<mapsto> chan_next b),
        chan_receiver := (chan_receiver b)(chan_next b := True), chan_next := chan_next b + 1\<rparr>)"

definition give_up :: "nat \<Rightarrow> 's bus \<Rightarrow> 's bus" where
  "give_up ch b = b\<lparr>chan_receiver := (chan_receiver b)(ch := False)\<rparr>"

definition Subscriber_Start :: "string \<Rightarrow> 's bus \<Rightarrow> 's bus" where
  "Subscriber_Start topic b =
     (let o' = (sub_object b)\<lparr>sub_running := True\<rparr> in b\<lparr>sub_object := o', sub_loop := Some (topic, o')\<rparr>)"

definition Subscriber_Stop :: "'s bus \<Rightarrow> 's bus" where
  "Subscriber_Stop b = b\<lparr>sub_object := (sub_object b)\<lparr>sub_running := False\<rparr>\<rparr>"

section \<open>The loop\<close>

text \<open>What the socket returns: an error, or the frames of a message, each with the JSON value its
  text has, if it is JSON.\<close>

type_synonym frame = "string \<times> json option"

datatype received = RecvError | RecvMessage "frame list"

definition run_handlers :: "'s handler list \<Rightarrow> Envelope \<Rightarrow> 's bus \<Rightarrow> 's bus" where
  "run_handlers hs env b = b\<lparr>module_state := fold (\<lambda>h. h env) hs (module_state b)\<rparr>"

text \<open>Sending on the channel of a confirmation blocks while nobody receives.\<close>

definition dispatch_confirmation :: "Envelope \<Rightarrow> 's bus \<Rightarrow> 's bus outcome" where
  "dispatch_confirmation env b =
     (case env_Confirmation env of
        (c, Some err) \<Rightarrow> Done b
      | (c, None) \<Rightarrow>
          (case confirmationHandlers b (cf_confirm c) of
             None \<Rightarrow> Done b
           | Some ch \<Rightarrow>
               if chan_receiver b ch
               then Done (b\<lparr>chan_sent := chan_sent b @ [(ch, c)], chan_receiver := (chan_receiver b)(ch := False),
                            confirmationHandlers := (confirmationHandlers b)(cf_confirm c := None)\<rparr>)
               else Diverge))"

definition dispatch :: "'s Subscriber \<Rightarrow> Envelope \<Rightarrow> 's bus \<Rightarrow> 's bus outcome" where
  "dispatch copy env b =
     (if env_kind env = ENVELOPE_STATUS then Done (run_handlers (statusHandlers copy) env b)
      else if env_kind env = ENVELOPE_UPDATE then Done (run_handlers (updateHandlers copy) env b)
      else if env_kind env = ENVELOPE_HEALTHCHECK then Done (run_handlers (healthCheckHandlers copy) env b)
      else if env_kind env = ENVELOPE_CONFIRMATION then dispatch_confirmation env b
      else Done b)"

text \<open>The body of the loop. The index expressions panic on a message with too few frames.\<close>

fun handle_received :: "string \<Rightarrow> 's Subscriber \<Rightarrow> received \<Rightarrow> 's bus \<Rightarrow> 's bus outcome" where
  "handle_received topic copy RecvError b = Done b"
| "handle_received topic copy (RecvMessage []) b = Panic"
| "handle_received topic copy (RecvMessage [(t, _)]) b = (if t \<noteq> topic then Done b else Panic)"
| "handle_received topic copy (RecvMessage ((t, _) # (_, body) # fs)) b =
     (if t \<noteq> topic then Done b
      else case ParseEnvelope body of
             Inl err \<Rightarrow> Done b
           | Inr env \<Rightarrow> dispatch copy env b)"

text \<open>One iteration of the loop; without a loop nothing happens.\<close>

definition run_iteration :: "received \<Rightarrow> 's bus \<Rightarrow> 's bus outcome" where
  "run_iteration msg b =
     (case sub_loop b of
        None \<Rightarrow> Done b
      | Some (topic, copy) \<Rightarrow>
          if \<not> sub_running copy then Done (b\<lparr>sub_loop := None\<rparr>)
          else handle_received topic copy msg b)"

fun run_loop :: "received list \<Rightarrow> 's bus \<Rightarrow> 's bus outcome" where
  "run_loop [] b = Done b"
| "run_loop (m # ms) b =
     (case run_iteration m b of Done b' \<Rightarrow> run_loop ms b' | Panic \<Rightarrow> Panic | Diverge \<Rightarrow> Diverge)"

section \<open>Facts about the loop\<close>

lemma dispatch_frame: "dispatch copy env b = Done b' \<Longrightarrow> sub_loop b' = sub_loop b \<and> sub_object b' = sub_object b"
  by (auto simp: dispatch_def run_handlers_def dispatch_confirmation_def split: if_splits prod.splits option.splits)

lemma handle_received_frame:
  "handle_received topic copy msg b = Done b' \<Longrightarrow> sub_loop b' = sub_loop b"
  by (cases "(topic, copy, msg, b)" rule: handle_received.cases)
    (auto split: if_splits sum.splits dest: dispatch_frame)

lemma run_iteration_frame:
  assumes "sub_loop b = Some (topic, copy)" "sub_running copy" "run_iteration msg b = Done b'"
  shows "sub_loop b' = Some (topic, copy)"
  using assms handle_received_frame by (fastforce simp: run_iteration_def)

lemma run_loop_frame:
  "sub_loop b = Some (topic, copy) \<Longrightarrow> sub_running copy \<Longrightarrow> run_loop ms b = Done b' \<Longrightarrow> sub_loop b' = Some (topic, copy)"
proof (induction ms arbitrary: b)
  case (Cons m ms)
  then obtain b1 where b1: "run_iteration m b = Done b1" "run_loop ms b1 = Done b'" by (auto split: outcome.splits)
  with Cons.IH [OF run_iteration_frame [OF Cons.prems(1,2) b1(1)] Cons.prems(2)] show ?case by blast
qed simp

text \<open>A message as another module puts it on a topic.\<close>

definition on_topic :: "string \<Rightarrow> Envelope \<Rightarrow> received" where
  "on_topic topic env = RecvMessage [(topic, None), ([], Some (enc_envelope env))]"

lemma run_iteration_envelope:
  assumes "sub_loop b = Some (topic, copy)" "sub_running copy" "NewEnvelope n c = Inr env"
  shows "run_iteration (on_topic topic env) b = dispatch copy env b"
  using assms Parse_NewEnvelope [OF assms(3)] by (simp add: run_iteration_def on_topic_def)

section \<open>Properties\<close>

text \<open>C24: the subscriber delivers. A status or an update that a module creates and another one receives
  on its topic runs the handlers registered for its kind before the loop was started, in order, each
  exactly once, and nothing else; messages on other topics, and text that is no envelope, run none.\<close>

theorem subscriber_delivers:
  assumes "sub_loop b = Some (topic, copy)" "sub_running copy"
  shows "(NewEnvelope n (C_Status st) = Inr env \<longrightarrow>
      run_iteration (on_topic topic env) b =
        Done (b\<lparr>module_state := fold (\<lambda>h. h env) (statusHandlers copy) (module_state b)\<rparr>)) \<and>
    (NewEnvelope n (C_Update up) = Inr env \<longrightarrow>
      run_iteration (on_topic topic env) b =
        Done (b\<lparr>module_state := fold (\<lambda>h. h env) (updateHandlers copy) (module_state b)\<rparr>)) \<and>
    (other \<noteq> topic \<longrightarrow> run_iteration (on_topic other env) b = Done b) \<and>
    run_iteration (RecvMessage [(topic, None), (text, None)]) b = Done b"
proof (intro conjI impI)
  assume e: "NewEnvelope n (C_Status st) = Inr env"
  show "run_iteration (on_topic topic env) b =
      Done (b\<lparr>module_state := fold (\<lambda>h. h env) (statusHandlers copy) (module_state b)\<rparr>)"
    using kind_NewEnvelope [OF e] by (simp add: run_iteration_envelope [OF assms e] dispatch_def run_handlers_def)
next
  assume e: "NewEnvelope n (C_Update up) = Inr env"
  show "run_iteration (on_topic topic env) b =
      Done (b\<lparr>module_state := fold (\<lambda>h. h env) (updateHandlers copy) (module_state b)\<rparr>)"
    using kind_NewEnvelope [OF e]
    by (simp add: run_iteration_envelope [OF assms e] dispatch_def run_handlers_def kind_defs)
next
  show "run_iteration (RecvMessage [(topic, None), (text, None)]) b = Done b"
    using assms by (simp add: run_iteration_def ParseEnvelope_def)
next
  assume "other \<noteq> topic"
  then show "run_iteration (on_topic other env) b = Done b"
    using assms by (simp add: run_iteration_def on_topic_def)
qed

text \<open>Stopping a subscriber does not end its loop, and handlers added after it was started are never
  called. Whatever the socket returns from then on, the loop keeps running with the copy made by Start.\<close>

lemma stop_not_seen_by_loop:
  assumes "run_loop ms (Subscriber_Stop (AddStatusHandler h (Subscriber_Start topic b))) = Done b'"
  shows "\<exists>copy. sub_loop b' = Some (topic, copy) \<and> sub_running copy \<and>
    statusHandlers copy = statusHandlers (sub_object b) \<and>
    (\<forall>m b''. run_iteration m b' = Done b'' \<longrightarrow> sub_loop b'' = sub_loop b')"
proof -
  let ?copy = "(sub_object b)\<lparr>sub_running := True\<rparr>"
  have l: "sub_loop b' = Some (topic, ?copy)"
    by (rule run_loop_frame [OF _ _ assms])
      (simp_all add: Subscriber_Stop_def AddStatusHandler_def Subscriber_Start_def Let_def)
  with run_iteration_frame [OF l] show ?thesis by auto
qed

text \<open>Confirmations. A confirmation that somebody waits for is handed over once and its entry removed,
  so a second one is ignored; one that arrives after its waiter gave up blocks the loop for ever.\<close>

lemma confirmation_delivery:
  assumes "sub_loop b = Some (topic, copy)" "sub_running copy" "NewEnvelope n (C_Confirmation c) = Inr env"
    and "RegisterConfirmationHandler (cf_confirm c) b = (ch, b1)"
  shows "(\<exists>b2 c'. run_iteration (on_topic topic env) b1 = Done b2 \<and> cf_confirm c' = cf_confirm c \<and>
      chan_sent b2 = chan_sent b @ [(ch, c')] \<and> run_iteration (on_topic topic env) b2 = Done b2) \<and>
    run_iteration (on_topic topic env) (give_up ch b1) = Diverge"
proof -
  obtain c' where c': "env_Confirmation env = (c', None)" "cf_confirm c' = cf_confirm c"
    using env_Confirmation_NewEnvelope [OF assms(3)] by blast
  have k: "dispatch copy env x = dispatch_confirmation env x" for x
    using kind_NewEnvelope [OF assms(3)] by (simp add: dispatch_def kind_defs)
  note it = run_iteration_envelope [OF _ assms(2,3), unfolded k]
  show ?thesis
    using assms(1,4) c' 
    by (auto simp: it RegisterConfirmationHandler_def give_up_def dispatch_confirmation_def)
qed

section \<open>Instances\<close>

definition demo_bus :: "nat bus" where
  "demo_bus = Subscriber_Start ''RUNTIME'' (AddStatusHandler (\<lambda>env n. n + 1) (empty_subscriber 0))"

lemma demo_bus_loop:
  "sub_loop demo_bus = Some (''RUNTIME'', \<lparr>sub_running = True, statusHandlers = [\<lambda>env n. n + 1], updateHandlers = [],
     healthCheckHandlers = []\<rparr>)" "module_state demo_bus = 0"
  by (simp_all add: demo_bus_def Subscriber_Start_def AddStatusHandler_def empty_subscriber_def Let_def)

theorem subscriber_delivers_witness:
  "\<exists>env b. NewEnvelope ''rtu'' (C_Status \<lparr>Measurements = []\<rparr>) = Inr env \<and>
     run_iteration (on_topic ''RUNTIME'' env) demo_bus = Done b \<and> module_state b = 1"
proof -
  obtain env where env: "NewEnvelope ''rtu'' (C_Status \<lparr>Measurements = []\<rparr>) = Inr env"
    by (simp add: NewEnvelope_def points_finite_def)
  from subscriber_delivers [OF demo_bus_loop(1), of "''rtu''" "\<lparr>Measurements = []\<rparr>" env "\<lparr>Updates = [], up_recipient = [], up_confirm = []\<rparr>" "[]" "[]"] env
  show ?thesis by (auto simp: demo_bus_loop(2))
qed

lemma stop_not_seen_by_loop_witness:
  "\<exists>b' copy. run_loop [RecvError, RecvError] (Subscriber_Stop (AddStatusHandler (\<lambda>env n. n) (Subscriber_Start ''RUNTIME'' (empty_subscriber (0 :: nat))))) = Done b' \<and>
     sub_loop b' = Some (''RUNTIME'', copy) \<and> sub_running copy"
proof -
  let ?b = "Subscriber_Stop (AddStatusHandler (\<lambda>env n. n) (Subscriber_Start ''RUNTIME'' (empty_subscriber (0 :: nat))))"
  have "run_loop [RecvError, RecvError] ?b = Done ?b"
    by (simp add: run_iteration_def split: option.split)
      (auto simp: Subscriber_Stop_def AddStatusHandler_def Subscriber_Start_def Let_def)
  with stop_not_seen_by_loop [OF this] show ?thesis by blast
qed

lemma confirmation_delivery_witness:
  "\<exists>env. NewEnvelope ''cpu'' (C_Confirmation \<lparr>cf_confirm = ''id'', cf_results = [], cf_errors = []\<rparr>) = Inr env \<and>
     run_iteration (on_topic ''RUNTIME'' env)
       (give_up (fst (RegisterConfirmationHandler ''id'' demo_bus)) (snd (RegisterConfirmationHandler ''id'' demo_bus))) = Diverge"
proof -
  let ?c = "\<lparr>cf_confirm = ''id'', cf_results = [], cf_errors = []\<rparr> :: Confirmation"
  obtain env where env: "NewEnvelope ''cpu'' (C_Confirmation ?c) = Inr env"
    by (simp add: NewEnvelope_def)
  have "RegisterConfirmationHandler (cf_confirm ?c) demo_bus =
      (fst (RegisterConfirmationHandler ''id'' demo_bus), snd (RegisterConfirmationHandler ''id'' demo_bus))" by simp
  from confirmation_delivery [OF demo_bus_loop(1) _ env this] env show ?thesis by auto
qed

end
