(* ===== verification/ModbusServer.thy ===== *)
theory ModbusServer
  imports ModbusUtil Msgbus Etree
begin

text \<open>
  The package modbus/server: the server's state and its configuration (server.go), the
  function-code handlers for coils (coil.go), discrete inputs (discrete.go), input
  registers (input.go) and holding registers (holding.go), and the handler of status
  messages. The mbserver package calls a handler with the data of a request frame and
  sends back what it returns.
\<close>

section \<open>State\<close>

record SerialConfig =
  ser_address :: string
  ser_baud_rate :: int
  ser_data_bits :: int
  ser_stop_bits :: int
  ser_parity :: string
  ser_timeout :: int

type_synonym registers = "string \<rightharpoonup> (int \<rightharpoonup> Register)"
type_synonym tags = "string \<rightharpoonup> float64"

record ModbusServer =
  srv_pull_endpoint :: string
  srv_pub_endpoint :: string
  srv_pusher :: Pusher
  srv_metrics :: MetricsPusher
  srv_name :: string
  srv_id :: int
  srv_endpoint :: string
  srv_serial :: "SerialConfig option"
  srv_registers :: registers
  srv_tags :: tags

text \<open>The pusher is created by Run; until then it is any pusher that has sent nothing.\<close>

definition NewServer :: "string \<Rightarrow> Pusher \<Rightarrow> ModbusServer" where
  "NewServer name p =
     \<lparr>srv_pull_endpoint = [], srv_pub_endpoint = [], srv_pusher = p, srv_metrics = Map.empty,
      srv_name = name, srv_id = 1, srv_endpoint = [], srv_serial = None,
      srv_registers = Map.empty, srv_tags = Map.empty\<rparr>"

section \<open>Configuration\<close>

definition default_serial :: "int \<Rightarrow> SerialConfig" where
  "default_serial timeout =
     \<lparr>ser_address = ''/dev/ttyS0'', ser_baud_rate = 115200, ser_data_bits = 8, ser_stop_bits = 1,
      ser_parity = ''N'', ser_timeout = timeout\<rparr>"

definition set_int :: "string \<Rightarrow> string \<Rightarrow> (int \<Rightarrow> 'a) \<Rightarrow> 'a result" where
  "set_int msg txt f = (case Atoi txt of (v, ok) \<Rightarrow> if ok then Inr (f v) else Inl msg)"

definition serial_option :: "go_impl \<Rightarrow> element \<Rightarrow> SerialConfig \<Rightarrow> SerialConfig result" where
  "serial_option impl child c =
     (if Tag child = ''device'' then Inr (c\<lparr>ser_address := Text child\<rparr>)
      else if Tag child = ''baud-rate'' then
        set_int ''invalid baud rate'' (Text child) (\<lambda>v. c\<lparr>ser_baud_rate := v\<rparr>)
      else if Tag child = ''data-bits'' then
        set_int ''invalid data bits'' (Text child) (\<lambda>v. c\<lparr>ser_data_bits := v\<rparr>)
      else if Tag child = ''stop-bits'' then
        set_int ''invalid stop bits'' (Text child) (\<lambda>v. c\<lparr>ser_stop_bits := v\<rparr>)
      else if Tag child = ''parity'' then
        (if EqualFold (Text child) ''none'' then Inr (c\<lparr>ser_parity := ''N''\<rparr>)
         else if EqualFold (Text child) ''even'' then Inr (c\<lparr>ser_parity := ''E''\<rparr>)
         else if EqualFold (Text child) ''odd'' then Inr (c\<lparr>ser_parity := ''O''\<rparr>)
         else Inl ''invalid parity'')
      else if Tag child = ''timeout'' then
        (case ParseDuration impl (Text child) of
           None \<Rightarrow> Inl ''invalid timeout''
         | Some d \<Rightarrow> Inr (c\<lparr>ser_timeout := d\<rparr>))
      else Inr c)"

fun serial_options :: "go_impl \<Rightarrow> element list \<Rightarrow> SerialConfig \<Rightarrow> SerialConfig result" where
  "serial_options impl [] c = Inr c"
| "serial_options impl (e # es) c =
     (case serial_option impl e c of Inl err \<Rightarrow> Inl err | Inr c' \<Rightarrow> serial_options impl es c')"

text \<open>A register element, as both the server and the client read it.\<close>

definition parse_register :: "go_impl \<Rightarrow> element \<Rightarrow> Register result" where
  "parse_register impl child =
     (case SelectAttr child ''type'' of
        None \<Rightarrow> Inl ''type attribute missing from register''
      | Some t \<Rightarrow>
          let dt = (if t = ''input'' \<or> t = ''holding'' then SelectAttrValue child ''data-type'' ''uint16'' else [])
          in case SelectElement child ''address'' of
               None \<Rightarrow> Inl ''address element missing from register''
             | Some a \<Rightarrow>
                 (case Atoi (Text a) of
                    (addr, ok) \<Rightarrow>
                      if \<not> ok then Inl ''unable to convert register address''
                      else case SelectElement child ''tag'' of
                             None \<Rightarrow> Inl ''tag element missing from register''
                           | Some g \<Rightarrow>
                               let scaling = (case SelectElement child ''scaling'' of
                                                None \<Rightarrow> 0
                                              | Some e \<Rightarrow> if dt = ''float'' then 0 else fst (Atoi (Text e)))
                               in case Register_Init impl
                                         \<lparr>reg_type = t, reg_datatype = dt, reg_addr = addr, reg_count = 0,
                                          reg_scaling = scaling, reg_tag = Text g\<rparr> of
                                    Inl err \<Rightarrow> Inl ''validating register''
                                  | Inr r \<Rightarrow> Inr r))"

definition add_register :: "Register \<Rightarrow> ModbusServer \<Rightarrow> ModbusServer" where
  "add_register r s =
     (let m = (case srv_registers s (reg_type r) of None \<Rightarrow> Map.empty | Some m \<Rightarrow> m)
      in s\<lparr>srv_registers := (srv_registers s)(reg_type r \<mapsto> m(reg_addr r \<mapsto> r)),
           srv_tags := (srv_tags s)(reg_tag r \<mapsto> f64_zero)\<rparr>)"

definition configure_child :: "go_impl \<Rightarrow> element \<Rightarrow> ModbusServer \<Rightarrow> ModbusServer result" where
  "configure_child impl child s =
     (if Tag child = ''pull-endpoint'' then Inr (s\<lparr>srv_pull_endpoint := Text child\<rparr>)
      else if Tag child = ''pub-endpoint'' then Inr (s\<lparr>srv_pub_endpoint := Text child\<rparr>)
      else if Tag child = ''id'' then
        set_int ''invalid unit ID'' (Text child) (\<lambda>v. s\<lparr>srv_id := v\<rparr>)
      else if Tag child = ''endpoint'' then Inr (s\<lparr>srv_endpoint := Text child\<rparr>)
      else if Tag child = ''serial'' then
        (case serial_options impl (ChildElements child) (default_serial 0) of
           Inl err \<Rightarrow> Inl err
         | Inr c \<Rightarrow> Inr (s\<lparr>srv_serial := Some c\<rparr>))
      else if Tag child = ''register'' then
        (case parse_register impl child of Inl err \<Rightarrow> Inl err | Inr r \<Rightarrow> Inr (add_register r s))
      else Inr s)"

fun Server_Configure :: "go_impl \<Rightarrow> element list \<Rightarrow> ModbusServer \<Rightarrow> ModbusServer result" where
  "Server_Configure impl [] s = Inr s"
| "Server_Configure impl (e # es) s =
     (case configure_child impl e s of Inl err \<Rightarrow> Inl err | Inr s' \<Rightarrow> Server_Configure impl es s')"

section \<open>Requests and replies\<close>

datatype exception = Success | IllegalDataAddress | IllegalDataValue | SlaveDeviceFailure

type_synonym reply = "byte list \<times> exception"

text \<open>The big-endian word at an offset of the request; reading past the buffer panics.\<close>

definition req_word :: "gslice \<Rightarrow> nat \<Rightarrow> int option" where
  "req_word data i =
     (case slice data i (i + 2) of None \<Rightarrow> None | Some d \<Rightarrow> map_option uint (get16 d))"

definition req_range :: "gslice \<Rightarrow> (int \<times> int) option" where
  "req_range data =
     (case req_word data 0 of
        None \<Rightarrow> None
      | Some start \<Rightarrow> (case req_word data 2 of None \<Rightarrow> None | Some count \<Rightarrow> Some (start, count)))"

text \<open>The tail of every write handler: an update with the written points goes to the bus.\<close>

definition publish_updates :: "Point list \<Rightarrow> ModbusServer \<Rightarrow> bool \<times> ModbusServer" where
  "publish_updates updates s =
     (case NewEnvelope (srv_name s) (C_Update \<lparr>Updates = updates, up_recipient = [], up_confirm = []\<rparr>) of
        Inl err \<Rightarrow> (False, s)
      | Inr env \<Rightarrow>
          (case Push ''RUNTIME'' env (srv_pusher s) of
             (None, p) \<Rightarrow> (True, s\<lparr>srv_pusher := p\<rparr>)
           | (Some err, p) \<Rightarrow> (False, s\<lparr>srv_pusher := p\<rparr>)))"

definition point :: "string \<Rightarrow> float64 \<Rightarrow> Point" where
  "point tag v = \<lparr>pt_tag = tag, pt_value = v, pt_ts = 0\<rparr>"

definition set_tag :: "string \<Rightarrow> float64 \<Rightarrow> ModbusServer \<Rightarrow> ModbusServer" where
  "set_tag tag v s = s\<lparr>srv_tags := (srv_tags s)(tag \<mapsto> v)\<rparr>"

abbreviation tag_value :: "tags \<Rightarrow> string \<Rightarrow> float64" where
  "tag_value ts t \<equiv> lookup0 f64_zero ts t"

section \<open>coil.go\<close>

fun coil_loop :: "(int \<rightharpoonup> Register) \<Rightarrow> tags \<Rightarrow> int \<Rightarrow> nat \<Rightarrow> int list option" where
  "coil_loop regs ts addr 0 = Some []"
| "coil_loop regs ts addr (Suc n) =
     (case regs addr of
        None \<Rightarrow> None
      | Some r \<Rightarrow> map_option ((#) (if f64_eq (tag_value ts (reg_tag r)) f64_zero then 0 else 1))
                    (coil_loop regs ts (addr + 1) n))"

definition readCoilRegisters :: "gslice \<Rightarrow> ModbusServer \<Rightarrow> reply outcome" where
  "readCoilRegisters data s =
     (case srv_registers s ''coil'' of
        None \<Rightarrow> Done ([], IllegalDataAddress)
      | Some regs \<Rightarrow>
          (case req_range data of
             None \<Rightarrow> Panic
           | Some (start, count) \<Rightarrow>
               (case coil_loop regs (srv_tags s) start (nat count) of
                  None \<Rightarrow> Done ([], IllegalDataAddress)
                | Some bs \<Rightarrow>
                    let d = BitsToBytes bs
                    in Done (of_nat (length d) # d, Success))))"

definition writeCoilRegister :: "go_impl \<Rightarrow> gslice \<Rightarrow> ModbusServer \<Rightarrow> reply outcome \<times> ModbusServer" where
  "writeCoilRegister impl data s =
     (case srv_registers s ''coil'' of
        None \<Rightarrow> (Done ([], IllegalDataAddress), s)
      | Some regs \<Rightarrow>
          (case req_word data 0 of
             None \<Rightarrow> (Panic, s)
           | Some addr \<Rightarrow>
               (case regs addr of
                  None \<Rightarrow> (Done ([], IllegalDataAddress), s)
                | Some r \<Rightarrow>
                    (case slice data 2 4 of
                       None \<Rightarrow> (Panic, s)
                     | Some d \<Rightarrow>
                         (case Register_Value impl r d of
                            Done (Inr v) \<Rightarrow>
                              (case publish_updates [point (reg_tag r) v] (set_tag (reg_tag r) v s) of
                                 (False, s') \<Rightarrow> (Done ([], SlaveDeviceFailure), s')
                               | (True, s') \<Rightarrow>
                                   (Done (take 4 (backing data), Success),
                                    s'\<lparr>srv_metrics := IncrMetric ''coil_writes_count'' (srv_metrics s')\<rparr>))
                          | Done (Inl err) \<Rightarrow> (Done ([], IllegalDataValue), s)
                          | Panic \<Rightarrow> (Panic, s)
                          | Diverge \<Rightarrow> (Diverge, s))))))"

text \<open>
  The loop of a multiple write: the exception it ends with, if any, and the tags and
  points written so far.
\<close>

fun write_coils_loop ::
  "(int \<rightharpoonup> Register) \<Rightarrow> int list \<Rightarrow> int \<Rightarrow> int \<Rightarrow> nat \<Rightarrow> tags \<Rightarrow> Point list
     \<Rightarrow> exception option outcome \<times> tags \<times> Point list" where
  "write_coils_loop regs bs start addr 0 ts ups = (Done None, ts, ups)"
| "write_coils_loop regs bs start addr (Suc n) ts ups =
     (case regs addr of
        None \<Rightarrow> (Done (Some IllegalDataAddress), ts, ups)
      | Some r \<Rightarrow>
          let idx = nat (addr - start)
          in if length bs \<le> idx then (Panic, ts, ups)
             else let v = f64_of_int (bs ! idx)
                  in write_coils_loop regs bs start (addr + 1) n (ts(reg_tag r \<mapsto> v))
                       (ups @ [point (reg_tag r) v]))"

text \<open>What follows both loops of multiple writes.\<close>

definition finish_write ::
  "string \<Rightarrow> gslice \<Rightarrow> int \<Rightarrow> exception option outcome \<times> tags \<times> Point list \<Rightarrow> ModbusServer
     \<Rightarrow> reply outcome \<times> ModbusServer" where
  "finish_write metric data count res s =
     (case res of
        (Done (Some e), ts, ups) \<Rightarrow> (Done ([], e), s\<lparr>srv_tags := ts\<rparr>)
      | (Panic, ts, ups) \<Rightarrow> (Panic, s\<lparr>srv_tags := ts\<rparr>)
      | (Diverge, ts, ups) \<Rightarrow> (Diverge, s\<lparr>srv_tags := ts\<rparr>)
      | (Done None, ts, ups) \<Rightarrow>
          let s1 = s\<lparr>srv_tags := ts\<rparr>
          in (case (if ups = [] then (True, s1) else publish_updates ups s1) of
                (False, s2) \<Rightarrow> (Done ([], SlaveDeviceFailure), s2)
              | (True, s2) \<Rightarrow>
                  (Done (take 4 (backing data), Success),
                   s2\<lparr>srv_metrics := IncrMetricBy metric count (srv_metrics s2)\<rparr>)))"

definition writeCoilRegisters :: "gslice \<Rightarrow> ModbusServer \<Rightarrow> reply outcome \<times> ModbusServer" where
  "writeCoilRegisters data s =
     (case srv_registers s ''coil'' of
        None \<Rightarrow> (Done ([], IllegalDataAddress), s)
      | Some regs \<Rightarrow>
          (case (req_range data, slice_from data 5) of
             (Some (start, count), Some payload) \<Rightarrow>
               finish_write ''coil_writes_count'' data count
                 (write_coils_loop regs (BytesToBits payload) start start (nat count) (srv_tags s) []) s
           | _ \<Rightarrow> (Panic, s)))"

section \<open>discrete.go\<close>

fun discrete_loop ::
  "(int \<rightharpoonup> Register) \<Rightarrow> tags \<Rightarrow> int \<Rightarrow> nat \<Rightarrow> nat \<Rightarrow> byte list \<Rightarrow> byte list option" where
  "discrete_loop regs ts addr 0 idx d = Some d"
| "discrete_loop regs ts addr (Suc n) idx d =
     (case regs addr of
        None \<Rightarrow> None
      | Some r \<Rightarrow>
          discrete_loop regs ts (addr + 1) n (Suc idx)
            (if \<not> f64_eq (tag_value ts (reg_tag r)) f64_zero
             then d[idx div 8 := or (d ! (idx div 8)) (push_bit (idx mod 8) 1)] else d))"

definition readDiscreteRegisters :: "gslice \<Rightarrow> ModbusServer \<Rightarrow> reply outcome" where
  "readDiscreteRegisters data s =
     (case srv_registers s ''discrete'' of
        None \<Rightarrow> Done ([], IllegalDataAddress)
      | Some regs \<Rightarrow>
          (case req_range data of
             None \<Rightarrow> Panic
           | Some (start, count) \<Rightarrow>
               let sz = bits_size (nat count)
               in (case discrete_loop regs (srv_tags s) start (nat count) 0 (replicate sz 0) of
                     None \<Rightarrow> Done ([], IllegalDataAddress)
                   | Some d \<Rightarrow> Done (of_nat sz # d, Success))))"

section \<open>input.go and holding.go\<close>

text \<open>
  The read loop advances by the width of each register. Its fuel is the number of
  words asked for: a loop that is not done by then has met a register of width zero
  and never ends.
\<close>

fun read_loop ::
  "go_impl \<Rightarrow> (int \<rightharpoonup> Register) \<Rightarrow> tags \<Rightarrow> nat \<Rightarrow> int \<Rightarrow> int \<Rightarrow> int \<Rightarrow> byte list
     \<Rightarrow> (exception + int \<times> byte list) outcome" where
  "read_loop impl regs ts 0 addr stop sz d = (if addr < stop then Diverge else Done (Inr (sz, d)))"
| "read_loop impl regs ts (Suc n) addr stop sz d =
     (if addr < stop then
        (case regs addr of
           None \<Rightarrow> Done (Inl IllegalDataAddress)
         | Some r \<Rightarrow>
             (case Register_Bytes impl r (tag_value ts (reg_tag r)) of
                Inl err \<Rightarrow> Done (Inl SlaveDeviceFailure)
              | Inr buf \<Rightarrow>
                  read_loop impl regs ts n (addr + reg_count r) stop (sz + reg_count r * 2) (d @ buf)))
      else Done (Inr (sz, d)))"

definition read_registers :: "go_impl \<Rightarrow> string \<Rightarrow> gslice \<Rightarrow> ModbusServer \<Rightarrow> reply outcome" where
  "read_registers impl t data s =
     (case srv_registers s t of
        None \<Rightarrow> Done ([], IllegalDataAddress)
      | Some regs \<Rightarrow>
          (case req_range data of
             None \<Rightarrow> Panic
           | Some (start, count) \<Rightarrow>
               (case read_loop impl regs (srv_tags s) (nat count) start (start + count) 0 [] of
                  Done (Inr (sz, d)) \<Rightarrow> Done (of_int sz # d, Success)
                | Done (Inl e) \<Rightarrow> Done ([], e)
                | Panic \<Rightarrow> Panic
                | Diverge \<Rightarrow> Diverge)))"

definition readInputRegisters :: "go_impl \<Rightarrow> gslice \<Rightarrow> ModbusServer \<Rightarrow> reply outcome" where
  "readInputRegisters impl = read_registers impl ''input''"

definition readHoldingRegisters :: "go_impl \<Rightarrow> gslice \<Rightarrow> ModbusServer \<Rightarrow> reply outcome" where
  "readHoldingRegisters impl = read_registers impl ''holding''"

definition writeHoldingRegister :: "go_impl \<Rightarrow> gslice \<Rightarrow> ModbusServer \<Rightarrow> reply outcome \<times> ModbusServer" where
  "writeHoldingRegister impl data s =
     (case srv_registers s ''holding'' of
        None \<Rightarrow> (Done ([], IllegalDataAddress), s)
      | Some regs \<Rightarrow>
          (case req_word data 0 of
             None \<Rightarrow> (Panic, s)
           | Some addr \<Rightarrow>
               (case regs addr of
                  None \<Rightarrow> (Done ([], IllegalDataAddress), s)
                | Some r \<Rightarrow>
                    (case slice data 2 4 of
                       None \<Rightarrow> (Panic, s)
                     | Some d \<Rightarrow>
                         (case Register_Value impl r d of
                            Done (Inr v) \<Rightarrow>
                              (case publish_updates [point (reg_tag r) v] (set_tag (reg_tag r) v s) of
                                 (False, s') \<Rightarrow> (Done ([], SlaveDeviceFailure), s')
                               | (True, s') \<Rightarrow>
                                   (Done (take 4 (backing data), Success),
                                    s'\<lparr>srv_metrics := IncrMetric ''holding_writes_count'' (srv_metrics s')\<rparr>))
                          | Done (Inl err) \<Rightarrow> (Done ([], IllegalDataValue), s)
                          | Panic \<Rightarrow> (Panic, s)
                          | Diverge \<Rightarrow> (Diverge, s))))))"

fun write_loop ::
  "go_impl \<Rightarrow> (int \<rightharpoonup> Register) \<Rightarrow> gslice \<Rightarrow> nat \<Rightarrow> int \<Rightarrow> int \<Rightarrow> nat \<Rightarrow> tags \<Rightarrow> Point list
     \<Rightarrow> exception option outcome \<times> tags \<times> Point list" where
  "write_loop impl regs data 0 addr stop off ts ups =
     (if addr < stop then Diverge else Done None, ts, ups)"
| "write_loop impl regs data (Suc n) addr stop off ts ups =
     (if addr < stop then
        (case regs addr of
           None \<Rightarrow> (Done (Some IllegalDataAddress), ts, ups)
         | Some r \<Rightarrow>
             let fin = off + nat (reg_count r * 2)
             in (case slice data off fin of
                   None \<Rightarrow> (Panic, ts, ups)
                 | Some d \<Rightarrow>
                     (case Register_Value impl r d of
                        Done (Inr v) \<Rightarrow>
                          write_loop impl regs data n (addr + reg_count r) stop fin
                            (ts(reg_tag r \<mapsto> v)) (ups @ [point (reg_tag r) v])
                      | Done (Inl err) \<Rightarrow> (Done (Some IllegalDataValue), ts, ups)
                      | Panic \<Rightarrow> (Panic, ts, ups)
                      | Diverge \<Rightarrow> (Diverge, ts, ups))))
      else (Done None, ts, ups))"

definition writeHoldingRegisters :: "go_impl \<Rightarrow> gslice \<Rightarrow> ModbusServer \<Rightarrow> reply outcome \<times> ModbusServer" where
  "writeHoldingRegisters impl data s =
     (case srv_registers s ''holding'' of
        None \<Rightarrow> (Done ([], IllegalDataAddress), s)
      | Some regs \<Rightarrow>
          (case req_range data of
             None \<Rightarrow> (Panic, s)
           | Some (start, count) \<Rightarrow>
               finish_write ''holding_writes_count'' data count
                 (write_loop impl regs data (nat count) start (start + count) 5 (srv_tags s) []) s))"

section \<open>Status messages\<close>

fun apply_points :: "Point list \<Rightarrow> tags \<Rightarrow> tags" where
  "apply_points [] ts = ts"
| "apply_points (p # ps) ts = apply_points ps (ts(pt_tag p \<mapsto> pt_value p))"

text \<open>A status that could not be decoded completely is logged and still applied.\<close>

definition handleMsgBusStatus :: "Envelope \<Rightarrow> ModbusServer \<Rightarrow> ModbusServer" where
  "handleMsgBusStatus env s =
     (if Sender env = srv_name s then s
      else let s1 = s\<lparr>srv_metrics := IncrMetric ''status_count'' (srv_metrics s)\<rparr>
           in (case env_Status env of
                 (status, Some ErrKind) \<Rightarrow> s1
               | (status, _) \<Rightarrow> s1\<lparr>srv_tags := apply_points (Measurements status) (srv_tags s1)\<rparr>))"

section \<open>Run\<close>

text \<open>The metrics Run declares, and the table of function codes it registers.\<close>

definition Server_start :: "Pusher \<Rightarrow> ModbusServer \<Rightarrow> ModbusServer" where
  "Server_start p s =
     s\<lparr>srv_pusher := p,
       srv_metrics :=
         NewMetric METRIC_COUNTER ''holding_writes_count'' ''number of holding writes processed''
           (NewMetric METRIC_COUNTER ''coil_writes_count'' ''number of coil writes processed''
             (NewMetric METRIC_COUNTER ''status_count'' ''number of status messages processed'' (srv_metrics s)))\<rparr>"

text \<open>The endpoints of the bus that Run uses, and the listeners it opens, whose results are arguments.\<close>

definition Server_endpoints :: "string \<Rightarrow> string \<Rightarrow> ModbusServer \<Rightarrow> string \<times> string" where
  "Server_endpoints pubEndpoint pullEndpoint s =
     (if srv_pub_endpoint s \<noteq> [] then srv_pub_endpoint s else pubEndpoint,
      if srv_pull_endpoint s \<noteq> [] then srv_pull_endpoint s else pullEndpoint)"

definition Server_listen :: "(string \<Rightarrow> string option) \<Rightarrow> (SerialConfig \<Rightarrow> string option) \<Rightarrow> ModbusServer \<Rightarrow> string option" where
  "Server_listen ListenTCP ListenRTU s =
     (if srv_endpoint s \<noteq> [] \<and> ListenTCP (srv_endpoint s) \<noteq> None then Some ''listening for TCP connections''
      else case srv_serial s of
             None \<Rightarrow> None
           | Some c \<Rightarrow> if ListenRTU c \<noteq> None then Some ''listening for RTU connections'' else None)"

definition function_handler :: "go_impl \<Rightarrow> nat \<Rightarrow> gslice \<Rightarrow> ModbusServer \<Rightarrow> (reply outcome \<times> ModbusServer) option" where
  "function_handler impl code data s =
     (if code = 1 then Some (readCoilRegisters data s, s)
      else if code = 2 then Some (readDiscreteRegisters data s, s)
      else if code = 3 then Some (readHoldingRegisters impl data s, s)
      else if code = 4 then Some (readInputRegisters impl data s, s)
      else if code = 5 then Some (writeCoilRegister impl data s)
      else if code = 6 then Some (writeHoldingRegister impl data s)
      else if code = 15 then Some (writeCoilRegisters data s)
      else if code = 16 then Some (writeHoldingRegisters impl data s)
      else None)"

section \<open>The configuration invariant\<close>

text \<open>Every register is initialised and filed under its own type and address.\<close>

definition regs_ok :: "string \<Rightarrow> (int \<rightharpoonup> Register) \<Rightarrow> bool" where
  "regs_ok t regs \<longleftrightarrow> (\<forall>a r. regs a = Some r \<longrightarrow> reg_ok r \<and> reg_type r = t \<and> reg_addr r = a)"

definition server_ok :: "ModbusServer \<Rightarrow> bool" where
  "server_ok s \<longleftrightarrow> (\<forall>t regs. srv_registers s t = Some regs \<longrightarrow> regs_ok t regs)"

lemma parse_register_ok: "parse_register impl e = Inr r \<Longrightarrow> reg_ok r"
  unfolding parse_register_def
  by (auto simp: Let_def split: option.splits prod.splits if_splits sum.splits dest: Register_Init_reg_ok(1))

lemma add_register_ok:
  assumes "server_ok s" "reg_ok r"
  shows "server_ok (add_register r s)"
  using assms unfolding server_ok_def regs_ok_def add_register_def
  by (auto simp: Let_def split: option.splits if_splits)

lemma configure_child_ok:
  assumes "server_ok s" "configure_child impl e s = Inr s'"
  shows "server_ok s'"
proof (cases "Tag e = ''register''")
  case True
  with assms show ?thesis
    by (auto simp: configure_child_def split: sum.splits intro: add_register_ok parse_register_ok)
next
  case False
  with assms(2) have "srv_registers s' = srv_registers s"
    unfolding configure_child_def set_int_def
    by (auto split: if_splits prod.splits sum.splits)
  with assms(1) show ?thesis by (simp add: server_ok_def)
qed

lemma Server_Configure_ok: "server_ok s \<Longrightarrow> Server_Configure impl es s = Inr s' \<Longrightarrow> server_ok s'"
  by (induction impl es s rule: Server_Configure.induct)
    (auto split: sum.splits dest: configure_child_ok)

lemma NewServer_ok: "server_ok (NewServer n p)"
  by (simp add: server_ok_def NewServer_def)

section \<open>What no handler changes\<close>

lemma publish_updates_frame:
  "publish_updates ups s = (b, s') \<Longrightarrow>
     srv_registers s' = srv_registers s \<and> srv_name s' = srv_name s \<and> srv_tags s' = srv_tags s \<and>
     srv_metrics s' = srv_metrics s"
  by (auto simp: publish_updates_def split: sum.splits prod.splits option.splits)

lemma finish_write_frame:
  "finish_write m data c res s = (out, s') \<Longrightarrow>
     srv_registers s' = srv_registers s \<and> srv_name s' = srv_name s \<and> srv_tags s' = fst (snd res)"
  by (auto simp: finish_write_def Let_def
      split: prod.splits outcome.splits option.splits if_splits bool.splits dest!: publish_updates_frame)

text \<open>
  The contract the write handlers share: they leave the configuration alone. A
  configured server stays configured whatever requests it serves.
\<close>

locale write_handler =
  fixes handler :: "gslice \<Rightarrow> ModbusServer \<Rightarrow> reply outcome \<times> ModbusServer"
  assumes frame: "handler data s = (out, s') \<Longrightarrow>
    srv_registers s' = srv_registers s \<and> srv_name s' = srv_name s"
begin

lemma keeps_ok: "server_ok s \<Longrightarrow> handler data s = (out, s') \<Longrightarrow> server_ok s'"
  using frame by (simp add: server_ok_def)

end

lemma single_write_frame:
  "writeCoilRegister impl data s = (out, s') \<Longrightarrow> srv_registers s' = srv_registers s \<and> srv_name s' = srv_name s"
  "writeHoldingRegister impl data s = (out, s') \<Longrightarrow> srv_registers s' = srv_registers s \<and> srv_name s' = srv_name s"
  by (auto simp: writeCoilRegister_def writeHoldingRegister_def set_tag_def
      split: option.splits outcome.splits sum.splits prod.splits bool.splits dest!: publish_updates_frame)

interpretation wc: write_handler "writeCoilRegister impl" for impl
  by unfold_locales (rule single_write_frame)

interpretation wh: write_handler "writeHoldingRegister impl" for impl
  by unfold_locales (rule single_write_frame)

interpretation wcs: write_handler writeCoilRegisters
  by unfold_locales
    (auto simp: writeCoilRegisters_def split: option.splits prod.splits dest!: finish_write_frame)

interpretation whs: write_handler "writeHoldingRegisters impl" for impl
  by unfold_locales
    (auto simp: writeHoldingRegisters_def split: option.splits prod.splits dest!: finish_write_frame)

lemma function_handler_ok:
  assumes "server_ok s" "function_handler impl code data s = Some (out, s')"
  shows "server_ok s'"
proof -
  consider "s' = s" | "writeCoilRegister impl data s = (out, s')" | "writeHoldingRegister impl data s = (out, s')"
    | "writeCoilRegisters data s = (out, s')" | "writeHoldingRegisters impl data s = (out, s')"
    using assms(2) unfolding function_handler_def by (simp split: if_splits)
  then show ?thesis
    using assms(1) by cases (erule (1) wc.keeps_ok wh.keeps_ok wcs.keeps_ok whs.keeps_ok | simp)+
qed

lemma handleMsgBusStatus_frame:
  "srv_registers (handleMsgBusStatus env s) = srv_registers s"
  "srv_name (handleMsgBusStatus env s) = srv_name s"
  by (simp_all add: handleMsgBusStatus_def Let_def split: prod.split option.split access_error.split)

interpretation srv: bus_handler srv_name handleMsgBusStatus
  by unfold_locales (simp_all add: handleMsgBusStatus_frame, simp add: handleMsgBusStatus_def)

section \<open>Runs of the server\<close>

text \<open>
  The states of a running server: configured from an XML element and started, then
  serving requests that return and status messages, in any order.
\<close>

inductive server_run :: "go_impl \<Rightarrow> ModbusServer \<Rightarrow> bool" for impl where
  started: "Server_Configure impl es (NewServer n p) = Inr s \<Longrightarrow> server_run impl (Server_start p' s)"
| request: "server_run impl s \<Longrightarrow> function_handler impl code data s = Some (Done r, s') \<Longrightarrow> server_run impl s'"
| status: "server_run impl s \<Longrightarrow> server_run impl (handleMsgBusStatus env s)"

lemma server_run_ok: "server_run impl s \<Longrightarrow> server_ok s"
proof (induction rule: server_run.induct)
  case (started es n p s p')
  then have "server_ok s" using Server_Configure_ok [OF NewServer_ok] by blast
  then show ?case by (simp add: server_ok_def Server_start_def)
next
  case (request s code data r s')
  then show ?case by (blast intro: function_handler_ok)
next
  case (status s env)
  then show ?case by (simp add: server_ok_def handleMsgBusStatus_frame)
qed

end
