(* ===== verification/ModbusServerCorrect.thy ===== *)
theory ModbusServerCorrect
  imports ModbusServer
begin

text \<open>
  What the Modbus server promises: every request with a complete frame is answered, but for writes that end inside of a register,
  reads return the registers of the range they name, writes are read back and announced
  on the bus, and status messages move values from the bus to the registers.
\<close>

section \<open>Ranges of registers\<close>

text \<open>
  The registers a loop over an address range visits: each starts where the one before
  it ends, and the last one may reach past the end of the range.
\<close>

fun tiles :: "(int \<rightharpoonup> Register) \<Rightarrow> int \<Rightarrow> int \<Rightarrow> Register list \<Rightarrow> bool" where
  "tiles regs a stop [] \<longleftrightarrow> stop \<le> a"
| "tiles regs a stop (r # rs) \<longleftrightarrow> a < stop \<and> regs a = Some r \<and> tiles regs (a + reg_count r) stop rs"

definition words :: "Register list \<Rightarrow> int" where
  "words rs = sum_list (map reg_count rs)"

lemma words_simps [simp]: "words [] = 0" "words (r # rs) = reg_count r + words rs"
  by (simp_all add: words_def)

definition numeric_regs :: "(int \<rightharpoonup> Register) \<Rightarrow> bool" where
  "numeric_regs regs \<longleftrightarrow> (\<forall>a r. regs a = Some r \<longrightarrow> reg_ok r \<and> numeric_reg r)"

lemma server_ok_numeric:
  assumes "server_ok s" "srv_registers s t = Some regs" "t = ''holding'' \<or> t = ''input''"
  shows "numeric_regs regs"
proof -
  have "regs_ok t regs" using assms(1,2) by (simp add: server_ok_def)
  with assms(3) show ?thesis by (auto simp: regs_ok_def numeric_regs_def numeric_reg_def)
qed

lemma numeric_regs_count:
  assumes "numeric_regs regs" "regs a = Some r"
  shows "1 \<le> reg_count r" "reg_count r \<le> 4" "reg_ok r" "numeric_reg r"
  using assms reg_ok_numeric_count(1,2) [of r]
  by (auto simp: numeric_regs_def datatype_words_def)

lemma tiles_unique: "tiles regs a stop rs \<Longrightarrow> tiles regs a stop rs' \<Longrightarrow> rs' = rs"
proof (induction rs arbitrary: a rs')
  case Nil
  then show ?case by (cases rs') auto
next
  case (Cons r rs)
  then show ?case by (cases rs') auto
qed

lemma tiles_words:
  assumes "numeric_regs regs"
  shows "tiles regs a stop rs \<Longrightarrow> a \<le> stop \<Longrightarrow> stop - a \<le> words rs \<and> words rs \<le> stop - a + 3"
proof (induction rs arbitrary: a)
  case (Cons r rs)
  then have r: "regs a = Some r" by simp
  note c = numeric_regs_count [OF assms r]
  show ?case
  proof (cases "a + reg_count r \<le> stop")
    case True
    with Cons.IH [of "a + reg_count r"] Cons.prems show ?thesis by simp
  next
    case False
    with Cons.prems have "rs = []" by (cases rs) auto
    with False c Cons.prems show ?thesis by simp
  qed
qed simp

lemma tiles_mem:
  assumes "numeric_regs regs"
  shows "tiles regs a stop rs \<Longrightarrow> r \<in> set rs \<Longrightarrow> reg_ok r \<and> numeric_reg r \<and> 1 \<le> reg_count r \<and> reg_count r \<le> 4"
proof (induction rs arbitrary: a)
  case (Cons x xs)
  then have x: "regs a = Some x" by simp
  from Cons numeric_regs_count [OF assms x] show ?case by auto
qed simp

section \<open>Reads\<close>

definition encoding :: "go_impl \<Rightarrow> tags \<Rightarrow> Register \<Rightarrow> byte list" where
  "encoding impl ts r = (case Register_Bytes impl r (tag_value ts (reg_tag r)) of Inl _ \<Rightarrow> [] | Inr bs \<Rightarrow> bs)"

lemma encoding_width:
  assumes "reg_ok r" "numeric_reg r"
  shows "Register_Bytes impl r (tag_value ts (reg_tag r)) = Inr (encoding impl ts r)"
    and "length (encoding impl ts r) = 2 * nat (reg_count r)"
  using Register_Bytes_width [OF assms, of impl "tag_value ts (reg_tag r)"] by (auto simp: encoding_def)

lemma read_loop_spec:
  assumes "numeric_regs regs"
  shows "stop - addr \<le> int n \<Longrightarrow>
    (case read_loop impl regs ts n addr stop sz d of
       Done (Inr (sz', d')) \<Rightarrow>
         \<exists>rs. tiles regs addr stop rs \<and> sz' = sz + 2 * words rs \<and> d' = d @ concat (map (encoding impl ts) rs)
     | Done (Inl e) \<Rightarrow> e = IllegalDataAddress \<and> (\<nexists>rs. tiles regs addr stop rs)
     | _ \<Rightarrow> False)"
proof (induction n arbitrary: addr sz d)
  case 0
  then show ?case by (auto intro!: exI [of _ "[]"])
next
  case (Suc n)
  show ?case
  proof (cases "addr < stop")
    case False
    then show ?thesis by (auto intro!: exI [of _ "[]"])
  next
    case lt: True
    show ?thesis
    proof (cases "regs addr")
      case None
      have "\<not> tiles regs addr stop rs" for rs using lt None by (cases rs) auto
      with lt None show ?thesis by simp
    next
      case (Some r)
      note c = numeric_regs_count [OF assms Some]
      note e = encoding_width(1) [OF c(3,4)]
      have step: "tiles regs addr stop rs \<longleftrightarrow> (\<exists>rs'. rs = r # rs' \<and> tiles regs (addr + reg_count r) stop rs')" for rs
        using lt Some by (cases rs) auto
      from Suc.prems c(1) have "stop - (addr + reg_count r) \<le> int n" by simp
      from Suc.IH [OF this, of "sz + reg_count r * 2" "d @ encoding impl ts r"] lt Some show ?thesis
        by (simp add: e step split: outcome.splits sum.splits prod.splits) fastforce
    qed
  qed
qed

lemma read_registers_spec:
  assumes "server_ok s" "srv_registers s t = Some regs" "t = ''holding'' \<or> t = ''input''"
    and "req_range data = Some (start, count)"
  shows "(\<exists>rs. tiles regs start (start + count) rs \<and>
            read_registers impl t data s =
              Done (of_int (2 * words rs) # concat (map (encoding impl (srv_tags s)) rs), Success)) \<or>
         (\<nexists>rs. tiles regs start (start + count) rs) \<and>
            read_registers impl t data s = Done ([], IllegalDataAddress)"
proof -
  have "numeric_regs regs" using assms(1-3) by (rule server_ok_numeric)
  moreover have "start + count - start \<le> int (nat count)" by simp
  ultimately show ?thesis
    using read_loop_spec [where regs = regs and stop = "start + count" and addr = start and n = "nat count"
        and impl = impl and ts = "srv_tags s" and sz = 0 and d = "[]"] assms(2,4)
    by (auto simp: read_registers_def split: outcome.splits sum.splits prod.splits)
qed

lemma encoding_length:
  assumes "\<And>r. r \<in> set rs \<Longrightarrow> reg_ok r \<and> numeric_reg r \<and> 1 \<le> reg_count r \<and> reg_count r \<le> 4"
  shows "int (length (concat (map (encoding impl ts) rs))) = 2 * words rs"
  using assms
proof (induction rs)
  case (Cons r rs)
  from Cons.prems [of r] have "length (encoding impl ts r) = 2 * nat (reg_count r)" "0 \<le> reg_count r"
    by (simp_all add: encoding_width(2))
  with Cons show ?case by simp
qed simp

section \<open>Writes\<close>

lemma apply_points_append: "apply_points (xs @ ys) ts = apply_points ys (apply_points xs ts)"
  by (induction xs arbitrary: ts) simp_all

lemma apply_points_other: "t \<notin> pt_tag ` set ps \<Longrightarrow> apply_points ps ts t = ts t"
  by (induction ps arbitrary: ts) simp_all

text \<open>The points a payload holds for a list of registers.\<close>

fun decode_points :: "go_impl \<Rightarrow> Register list \<Rightarrow> byte list \<Rightarrow> Point list" where
  "decode_points impl [] d = []"
| "decode_points impl (r # rs) d =
     (case Register_Value impl r (take (2 * nat (reg_count r)) d) of
        Done (Inr v) \<Rightarrow> point (reg_tag r) v # decode_points impl rs (drop (2 * nat (reg_count r)) d)
      | _ \<Rightarrow> [])"

lemma decode_points_tags: "pt_tag ` set (decode_points impl rs d) \<subseteq> reg_tag ` set rs"
proof (induction rs arbitrary: d)
  case (Cons r rs)
  show ?case
    using Cons [of "drop (2 * nat (reg_count r)) d"]
    by (auto simp: point_def split: outcome.split sum.split)
qed simp

text \<open>
  What the loop of a multiple register write does from an address and an offset of the
  frame on: the points it writes, and how it ends. It panics when a register it visits ends
  after the frame.
\<close>

fun visits :: "(int \<rightharpoonup> Register) \<Rightarrow> int \<Rightarrow> int \<Rightarrow> Register list \<Rightarrow> bool" where
  "visits regs a stop [] \<longleftrightarrow> True"
| "visits regs a stop (r # rs) \<longleftrightarrow> a < stop \<and> regs a = Some r \<and> visits regs (a + reg_count r) stop rs"

lemma visits_tiles: "visits regs a stop rs \<Longrightarrow> stop \<le> a + words rs \<Longrightarrow> tiles regs a stop rs"
  by (induction rs arbitrary: a) (auto simp: add.assoc)

fun write_spec ::
  "go_impl \<Rightarrow> (int \<rightharpoonup> Register) \<Rightarrow> byte list \<Rightarrow> int \<Rightarrow> int \<Rightarrow> exception option outcome \<Rightarrow> Point list \<Rightarrow> bool" where
  "write_spec impl regs d addr stop (Done None) new \<longleftrightarrow>
     (\<exists>rs. tiles regs addr stop rs \<and> 2 * words rs \<le> int (length d) \<and>
           new = decode_points impl rs d \<and> map pt_tag new = map reg_tag rs)"
| "write_spec impl regs d addr stop (Done (Some e)) new \<longleftrightarrow>
     e = IllegalDataAddress \<and> (\<nexists>rs. tiles regs addr stop rs)"
| "write_spec impl regs d addr stop Panic new \<longleftrightarrow> (\<exists>rs. visits regs addr stop rs \<and> int (length d) < 2 * words rs)"
| "write_spec impl regs d addr stop Diverge new \<longleftrightarrow> False"

lemma tiles_step:
  assumes "a < stop" "regs a = Some r"
  shows "tiles regs a stop rs \<longleftrightarrow> (\<exists>rs'. rs = r # rs' \<and> tiles regs (a + reg_count r) stop rs')"
  using assms by (cases rs) auto

lemma write_spec_step:
  assumes "addr < stop" "regs addr = Some r" "2 * nat (reg_count r) \<le> length d" "1 \<le> reg_count r"
    and v: "Register_Value impl r (take (2 * nat (reg_count r)) d) = Done (Inr v)"
    and rest: "write_spec impl regs (drop (2 * nat (reg_count r)) d) (addr + reg_count r) stop out new"
  shows "write_spec impl regs d addr stop out (point (reg_tag r) v # new)"
proof -
  note step = tiles_step [of addr stop regs r, OF assms(1,2)]
  have panics: "\<exists>rs. visits regs addr stop rs \<and> int (length d) < 2 * words rs"
    if "visits regs (addr + reg_count r) stop rs" "int (length d) - 2 * reg_count r < 2 * words rs" for rs
    using that assms(1,2) by (intro exI [of _ "r # rs"]) simp
  have "decode_points impl (r # rs) d = point (reg_tag r) v # decode_points impl rs (drop (2 * nat (reg_count r)) d)"
    for rs using v by simp
  with assms(3,4) rest show ?thesis
    by (cases "(impl, regs, d, addr, stop, out, new)" rule: write_spec.cases)
      (auto simp: step point_def simp del: decode_points.simps(2) dest: panics)
qed

lemma write_loop_spec:
  assumes "numeric_regs regs"
  shows "stop - addr \<le> int n \<Longrightarrow> off \<le> length (backing data) \<Longrightarrow>
    write_loop impl regs data n addr stop off ts ups = (out, ts', ups') \<Longrightarrow>
    \<exists>new. ts' = apply_points new ts \<and> ups' = ups @ new \<and>
          write_spec impl regs (drop off (backing data)) addr stop out new"
proof (induction n arbitrary: addr off ts ups)
  case 0
  then show ?case by (auto intro!: exI [of _ "[]"])
next
  case (Suc n)
  show ?case
  proof (cases "addr < stop")
    case False
    with Suc.prems(2,3) show ?thesis by (auto intro!: exI [of _ "[]"])
  next
    case lt: True
    show ?thesis
    proof (cases "regs addr")
      case None
      have "\<not> tiles regs addr stop rs" for rs using lt None by (cases rs) auto
      with lt None Suc.prems(3) show ?thesis by (auto intro!: exI [of _ "[]"])
    next
      case (Some r)
      note c = numeric_regs_count [OF assms Some]
      let ?k = "2 * nat (reg_count r)" and ?rest = "drop off (backing data)"
      have k: "nat (reg_count r * 2) = ?k" using c(1) by simp
      show ?thesis
      proof (cases "off + ?k \<le> length (backing data)")
        case False
        then have "slice data off (off + ?k) = None" by (simp add: slice_def)
        with lt Some Suc.prems(3) have "out = Panic" "ts' = ts" "ups' = ups" by (simp_all add: k)
        with False c lt Some Suc.prems(2) show ?thesis by (auto intro!: exI [of _ "[]"] exI [of _ "[r]"])
      next
        case fits: True
        then have sl: "slice data off (off + ?k) = Some (take ?k ?rest)" and len: "?k \<le> length ?rest"
          by (simp_all add: slice_def)
        then obtain v where v: "Register_Value impl r (take ?k ?rest) = Done (Inr v)"
          using Register_Value_total(1) [OF c(3,4), of impl "take ?k ?rest"] by auto
        have rec: "write_loop impl regs data n (addr + reg_count r) stop (off + ?k)
            (ts(reg_tag r \<mapsto> v)) (ups @ [point (reg_tag r) v]) = (out, ts', ups')"
          using Suc.prems(3) lt Some sl v by (simp add: Let_def k)
        have "stop - (addr + reg_count r) \<le> int n" using Suc.prems(1) c(1) by simp
        moreover have "drop (off + ?k) (backing data) = drop ?k ?rest"
          unfolding drop_drop by (simp only: add.commute)
        ultimately obtain new where
          "ts' = apply_points new (ts(reg_tag r \<mapsto> v))" "ups' = (ups @ [point (reg_tag r) v]) @ new"
          "write_spec impl regs (drop ?k ?rest) (addr + reg_count r) stop out new"
          using Suc.IH [OF _ fits rec] by metis
        with write_spec_step [where regs = regs and addr = addr, OF lt Some len c(1) v] show ?thesis
          by (intro exI [of _ "point (reg_tag r) v # new"]) (simp add: point_def)
      qed
    qed
  qed
qed

lemma decoded_value:
  assumes "Register_Value impl r d = Done (Inr v)" "Register_Bytes impl r v = Inr d" "reg_tag r \<notin> pt_tag ` set ps"
  shows "encoding impl (apply_points (point (reg_tag r) v # ps) ts) r = d"
  using assms by (simp add: encoding_def point_def lookup0_def apply_points_other)

text \<open>The pieces of a payload are encodings the registers reproduce.\<close>

fun pieces_exact :: "Register list \<Rightarrow> byte list \<Rightarrow> bool" where
  "pieces_exact [] d \<longleftrightarrow> True"
| "pieces_exact (r # rs) d \<longleftrightarrow>
     reg_scaling r = 0 \<and> wire_exact r (take (2 * nat (reg_count r)) d) \<and>
     pieces_exact rs (drop (2 * nat (reg_count r)) d)"

lemma write_read_encodings:
  assumes "\<And>r. r \<in> set rs \<Longrightarrow> reg_ok r \<and> numeric_reg r \<and> 1 \<le> reg_count r \<and> reg_count r \<le> 4"
    and "distinct (map reg_tag rs)" "pieces_exact rs d" "2 * words rs \<le> int (length d)"
  shows "concat (map (encoding impl (apply_points (decode_points impl rs d) ts)) rs) = take (nat (2 * words rs)) d"
  using assms
proof (induction rs arbitrary: d ts)
  case (Cons r rs)
  let ?k = "2 * nat (reg_count r)"
  have r: "reg_ok r" "numeric_reg r" "1 \<le> reg_count r" using Cons.prems(1) [of r] by simp_all
  have w: "0 \<le> words rs" using Cons.prems(1)
    by (auto simp: words_def intro!: sum_list_nonneg) (meson order_trans zero_le_one)
  have len: "?k \<le> length d" using Cons.prems(4) w r(3) by simp
  then obtain v where v: "Register_Value impl r (take ?k d) = Done (Inr v)" "Register_Bytes impl r v = Inr (take ?k d)"
    using Register_wire_exact [OF r(1,2), of "take ?k d" impl] Cons.prems(3) by auto
  let ?ps = "decode_points impl rs (drop ?k d)"
  have "reg_tag r \<notin> pt_tag ` set ?ps"
    using Cons.prems(2) decode_points_tags [of impl rs "drop ?k d"] by auto
  from decoded_value [OF v this]
  have hd: "encoding impl (apply_points (decode_points impl (r # rs) d) ts) r = take ?k d"
    using v(1) by simp
  have "concat (map (encoding impl (apply_points ?ps (ts(reg_tag r \<mapsto> v)))) rs) = take (nat (2 * words rs)) (drop ?k d)"
  proof (rule Cons.IH)
    show "2 * words rs \<le> int (length (drop ?k d))" using Cons.prems(4) len r(3) by simp
  qed (use Cons.prems in auto)
  moreover have "nat (2 * words (r # rs)) = ?k + nat (2 * words rs)" using w r(3) by simp
  ultimately show ?case using hd v(1) by (simp add: take_add point_def)
qed simp

section \<open>Coils\<close>

lemma coil_loop_spec:
  "coil_loop regs ts addr n =
     (if \<forall>i < n. regs (addr + int i) \<noteq> None
      then Some (map (\<lambda>i. if f64_eq (tag_value ts (reg_tag (the (regs (addr + int i))))) f64_zero then 0 else 1) [0..<n])
      else None)"
proof (induction n arbitrary: addr)
  case (Suc n)
  have all: "(\<forall>i < Suc n. regs (addr + int i) \<noteq> None) \<longleftrightarrow>
      regs addr \<noteq> None \<and> (\<forall>i < n. regs (addr + 1 + int i) \<noteq> None)"
    by (auto simp: less_Suc_eq_0_disj add.assoc)
  show ?case
    unfolding coil_loop.simps Suc.IH all
    by (auto simp: upt_conv_Cons map_Suc_upt [symmetric] add.assoc simp del: upt_Suc split: option.split)
qed simp

lemma discrete_loop_set_bits:
  "discrete_loop regs ts addr n idx d = map_option (\<lambda>bs. set_bits bs idx d) (coil_loop regs ts addr n)"
  by (induction n arbitrary: addr idx d) (simp_all add: option.map_comp comp_def split: option.split)

fun coils_spec ::
  "(int \<rightharpoonup> Register) \<Rightarrow> int list \<Rightarrow> int \<Rightarrow> nat \<Rightarrow> exception option outcome \<Rightarrow> Point list \<Rightarrow> bool" where
  "coils_spec regs bs addr n (Done None) new \<longleftrightarrow>
     n \<le> length bs \<and> (\<forall>i < n. regs (addr + int i) \<noteq> None) \<and>
     new = map (\<lambda>i. point (reg_tag (the (regs (addr + int i)))) (f64_of_int (bs ! i))) [0..<n]"
| "coils_spec regs bs addr n (Done (Some e)) new \<longleftrightarrow>
     e = IllegalDataAddress \<and> (\<exists>i < n. regs (addr + int i) = None)"
| "coils_spec regs bs addr n Panic new \<longleftrightarrow> length bs < n"
| "coils_spec regs bs addr n Diverge new \<longleftrightarrow> False"

lemma coils_spec_step:
  assumes "regs addr = Some r" "coils_spec regs bs (addr + 1) n out new"
  shows "coils_spec regs (b # bs) addr (Suc n) out (point (reg_tag r) (f64_of_int b) # new)"
  using assms
  by (cases "(regs, bs, addr, n, out, new)" rule: coils_spec.cases)
    (auto simp: upt_conv_Cons map_Suc_upt [symmetric] less_Suc_eq_0_disj add.assoc simp del: upt_Suc)

lemma write_coils_loop_spec:
  "addr = start + int k \<Longrightarrow> write_coils_loop regs bs start addr n ts ups = (out, ts', ups') \<Longrightarrow>
    \<exists>new. ts' = apply_points new ts \<and> ups' = ups @ new \<and> coils_spec regs (drop k bs) addr n out new"
proof (induction n arbitrary: addr k ts ups)
  case 0
  then show ?case by (auto intro!: exI [of _ "[]"])
next
  case (Suc n)
  show ?case
  proof (cases "regs addr")
    case None
    with Suc.prems show ?thesis by (auto intro!: exI [of _ "[]"] exI [of _ "0 :: nat"])
  next
    case (Some r)
    have idx: "nat (addr - start) = k" using Suc.prems(1) by simp
    show ?thesis
    proof (cases "length bs \<le> k")
      case True
      with Some Suc.prems(2) show ?thesis by (auto simp: idx Let_def intro!: exI [of _ "[]"])
    next
      case False
      let ?v = "f64_of_int (bs ! k)"
      have rec: "write_coils_loop regs bs start (addr + 1) n (ts(reg_tag r \<mapsto> ?v)) (ups @ [point (reg_tag r) ?v])
          = (out, ts', ups')"
        using Suc.prems(2) Some False by (simp add: idx Let_def)
      have "addr + 1 = start + int (Suc k)" using Suc.prems(1) by simp
      from Suc.IH [OF this rec] obtain new where
        "ts' = apply_points new (ts(reg_tag r \<mapsto> ?v))" "ups' = (ups @ [point (reg_tag r) ?v]) @ new"
        "coils_spec regs (drop (Suc k) bs) (addr + 1) n out new"
        by blast
      moreover from False have "drop k bs = bs ! k # drop (Suc k) bs" by (simp add: Cons_nth_drop_Suc)
      ultimately show ?thesis
        using coils_spec_step [of regs addr r, OF Some]
        by (intro exI [of _ "point (reg_tag r) ?v # new"]) (simp add: point_def)
    qed
  qed
qed

section \<open>What a write announces\<close>

text \<open>The update that announces points to the other modules, none when there are no points.\<close>

definition announces :: "Point list \<Rightarrow> ModbusServer \<Rightarrow> ModbusServer \<Rightarrow> bool" where
  "announces ups s s' \<longleftrightarrow>
     (if ups = [] then sent (srv_pusher s') = sent (srv_pusher s)
      else \<exists>env. NewEnvelope (srv_name s) (C_Update \<lparr>Updates = ups, up_recipient = [], up_confirm = []\<rparr>) = Inr env \<and>
                 sent (srv_pusher s') = sent (srv_pusher s) @ [(''RUNTIME'', P_Envelope env)])"

lemma announces_frame:
  "srv_pusher s1 = srv_pusher s2 \<Longrightarrow> srv_name s1 = srv_name s2 \<Longrightarrow> srv_pusher s1' = srv_pusher s2' \<Longrightarrow>
    announces ups s1 s1' \<longleftrightarrow> announces ups s2 s2'"
  by (simp add: announces_def)

lemma publish_updates_result:
  assumes "publish_updates ups s = (ok, s')" "ups \<noteq> []"
  shows "if ok then announces ups s s' else sent (srv_pusher s') = sent (srv_pusher s)"
  using assms
  by (auto simp: publish_updates_def announces_def Push_def SendMessage_def split: sum.splits prod.splits if_splits)

text \<open>How a write ends: the exception decides whether the points were announced.\<close>

definition write_effect :: "reply \<Rightarrow> Point list \<Rightarrow> ModbusServer \<Rightarrow> ModbusServer \<Rightarrow> bool" where
  "write_effect rep ups s s' \<longleftrightarrow>
     srv_tags s' = apply_points ups (srv_tags s) \<and>
     (if snd rep = Success then announces ups s s' else fst rep = [] \<and> sent (srv_pusher s') = sent (srv_pusher s))"

lemma write_effect_none: "e \<noteq> Success \<Longrightarrow> write_effect ([], e) [] s s"
  by (simp add: write_effect_def)

lemma finish_write_result:
  assumes "finish_write m data c (out, apply_points ups (srv_tags s), ups) s = (Done rep, s')" "out \<noteq> Done (Some Success)"
  shows "write_effect rep ups s s' \<and>
    (out = Done None \<and> (rep = (take 4 (backing data), Success) \<or> rep = ([], SlaveDeviceFailure)) \<or>
     (\<exists>e. out = Done (Some e) \<and> rep = ([], e)))"
proof (cases out)
  case (Done x)
  show ?thesis
  proof (cases x)
    case (Some e)
    with Done assms show ?thesis by (auto simp: finish_write_def write_effect_def)
  next
    case None
    let ?s = "s\<lparr>srv_tags := apply_points ups (srv_tags s)\<rparr>"
    show ?thesis
    proof (cases "ups = []")
      case True
      with Done None assms show ?thesis by (auto simp: finish_write_def write_effect_def announces_def Let_def)
    next
      case False
      obtain ok s2 where pub: "publish_updates ups ?s = (ok, s2)" by fastforce
      note publish_updates_result [OF pub False] publish_updates_frame [OF pub]
      with False Done None assms pub show ?thesis
        by (cases ok) (auto simp: finish_write_def write_effect_def announces_def)
    qed
  qed
qed (use assms in \<open>simp_all add: finish_write_def\<close>)

lemma finish_write_outcome:
  "finish_write m data c (out, ts, ups) s = (Panic, s') \<Longrightarrow> out = Panic"
  "finish_write m data c (out, ts, ups) s = (Diverge, s') \<Longrightarrow> out = Diverge"
  by (auto simp: finish_write_def Let_def split: outcome.splits option.splits prod.splits if_splits bool.splits)

lemma single_write_effect:
  assumes "publish_updates [point t v] (set_tag t v s) = (ok, s2)"
  shows "write_effect (if ok then (d, Success) else ([], SlaveDeviceFailure)) [point t v] s (s2\<lparr>srv_metrics := m\<rparr>)"
    and "\<not> ok \<Longrightarrow> write_effect ([], SlaveDeviceFailure) [point t v] s s2"
  using publish_updates_result [OF assms] publish_updates_frame [OF assms]
  by (auto simp: write_effect_def announces_def set_tag_def point_def)

text \<open>
  The contract of a write handler towards the bus: the tags change by some points, and
  a successful write announces exactly these points.
\<close>

locale announcing_handler = write_handler handler
  for handler :: "gslice \<Rightarrow> ModbusServer \<Rightarrow> reply outcome \<times> ModbusServer" +
  assumes effect: "handler data s = (Done rep, s') \<Longrightarrow> \<exists>ups. write_effect rep ups s s'"
begin

lemma failure_silent:
  "handler data s = (Done (d, e), s') \<Longrightarrow> e \<noteq> Success \<Longrightarrow> d = [] \<and> sent (srv_pusher s') = sent (srv_pusher s)"
  using effect by (fastforce simp: write_effect_def)

lemma success_announced:
  "handler data s = (Done (d, Success), s') \<Longrightarrow>
     \<exists>ups. srv_tags s' = apply_points ups (srv_tags s) \<and> announces ups s s'"
  using effect by (fastforce simp: write_effect_def)

end

interpretation ac: announcing_handler "writeCoilRegister impl" for impl
proof unfold_locales
  fix data s rep s'
  assume "writeCoilRegister impl data s = (Done rep, s')"
  then show "\<exists>ups. write_effect rep ups s s'"
    by (auto simp: writeCoilRegister_def split: option.splits outcome.splits sum.splits prod.splits bool.splits
        intro: single_write_effect(1) [where ok = True, simplified] single_write_effect(2) [where ok = False, simplified]
          write_effect_none)
qed

interpretation ah: announcing_handler "writeHoldingRegister impl" for impl
proof unfold_locales
  fix data s rep s'
  assume "writeHoldingRegister impl data s = (Done rep, s')"
  then show "\<exists>ups. write_effect rep ups s s'"
    by (auto simp: writeHoldingRegister_def split: option.splits outcome.splits sum.splits prod.splits bool.splits
        intro: single_write_effect(1) [where ok = True, simplified] single_write_effect(2) [where ok = False, simplified]
          write_effect_none)
qed

text \<open>Both loops write points one by one, whatever the registers are.\<close>

lemma write_loop_points:
  "\<exists>new out. write_loop impl regs data n addr stop off ts ups = (out, apply_points new ts, ups @ new) \<and>
     out \<noteq> Done (Some Success)"
proof (induction n arbitrary: addr off ts ups)
  case 0
  show ?case by (auto intro!: exI [of _ "[]"])
next
  case (Suc n)
  show ?case
  proof (cases "\<exists>r d v. addr < stop \<and> regs addr = Some r \<and> slice data off (off + nat (reg_count r * 2)) = Some d \<and>
      Register_Value impl r d = Done (Inr v)")
    case True
    then obtain r d v where "addr < stop" "regs addr = Some r" "slice data off (off + nat (reg_count r * 2)) = Some d"
      "Register_Value impl r d = Done (Inr v)" by blast
    moreover obtain new out where "write_loop impl regs data n (addr + reg_count r) stop (off + nat (reg_count r * 2))
        (ts(reg_tag r \<mapsto> v)) (ups @ [point (reg_tag r) v]) =
        (out, apply_points new (ts(reg_tag r \<mapsto> v)), (ups @ [point (reg_tag r) v]) @ new)" "out \<noteq> Done (Some Success)"
      using Suc.IH by blast
    ultimately show ?thesis
      by (intro exI [of _ "point (reg_tag r) v # new"] exI [of _ out]) (simp add: point_def)
  next
    case False
    then show ?thesis
      by (auto simp: Let_def intro!: exI [of _ "[]"] split: option.split outcome.split sum.split)
  qed
qed

lemma write_coils_loop_points:
  "\<exists>new out. write_coils_loop regs bs start addr n ts ups = (out, apply_points new ts, ups @ new) \<and>
     out \<noteq> Done (Some Success)"
proof (induction n arbitrary: addr ts ups)
  case 0
  show ?case by (auto intro!: exI [of _ "[]"])
next
  case (Suc n)
  show ?case
  proof (cases "\<exists>r. regs addr = Some r \<and> nat (addr - start) < length bs")
    case True
    then obtain r where "regs addr = Some r" "nat (addr - start) < length bs" by blast
    moreover define v where "v = f64_of_int (bs ! nat (addr - start))"
    moreover obtain new out where "write_coils_loop regs bs start (addr + 1) n
        (ts(reg_tag r \<mapsto> v)) (ups @ [point (reg_tag r) v]) =
        (out, apply_points new (ts(reg_tag r \<mapsto> v)), (ups @ [point (reg_tag r) v]) @ new)" "out \<noteq> Done (Some Success)"
      using Suc.IH by blast
    ultimately show ?thesis
      by (intro exI [of _ "point (reg_tag r) v # new"] exI [of _ out]) (simp add: point_def Let_def)
  next
    case False
    then show ?thesis by (auto simp: Let_def intro!: exI [of _ "[]"] split: option.split)
  qed
qed

lemma finish_write_effect:
  assumes "\<exists>new out. res = (out, apply_points new (srv_tags s), [] @ new) \<and> out \<noteq> Done (Some Success)"
    and "finish_write m data c res s = (Done rep, s')"
  shows "\<exists>ups. write_effect rep ups s s'"
  using assms finish_write_result by fastforce

interpretation acs: announcing_handler writeCoilRegisters
proof unfold_locales
  fix data s rep s'
  assume w: "writeCoilRegisters data s = (Done rep, s')"
  show "\<exists>ups. write_effect rep ups s s'"
  proof (cases "srv_registers s ''coil''")
    case None
    with w show ?thesis by (auto simp: writeCoilRegisters_def intro: write_effect_none)
  next
    case (Some regs)
    with w obtain start count payload where
      f: "finish_write ''coil_writes_count'' data count
          (write_coils_loop regs (BytesToBits payload) start start (nat count) (srv_tags s) []) s = (Done rep, s')"
      by (auto simp: writeCoilRegisters_def split: option.splits prod.splits)
    show ?thesis by (rule finish_write_effect [OF write_coils_loop_points f])
  qed
qed

interpretation ahs: announcing_handler "writeHoldingRegisters impl" for impl
proof unfold_locales
  fix data s rep s'
  assume w: "writeHoldingRegisters impl data s = (Done rep, s')"
  show "\<exists>ups. write_effect rep ups s s'"
  proof (cases "srv_registers s ''holding''")
    case None
    with w show ?thesis by (auto simp: writeHoldingRegisters_def intro: write_effect_none)
  next
    case (Some regs)
    with w obtain start count where
      f: "finish_write ''holding_writes_count'' data count
          (write_loop impl regs data (nat count) start (start + count) 5 (srv_tags s) []) s = (Done rep, s')"
      by (auto simp: writeHoldingRegisters_def split: option.splits prod.splits)
    show ?thesis by (rule finish_write_effect [OF write_loop_points f])
  qed
qed

section \<open>Every request is answered\<close>

lemma req_word_some: "i + 2 \<le> length (backing data) \<Longrightarrow> \<exists>w. req_word data i = Some w"
  using u16.dec_iff_long_enough [of "take 2 (drop i (backing data))"]
  by (auto simp: req_word_def slice_def)

lemma req_range_some: "4 \<le> length (backing data) \<Longrightarrow> \<exists>start count. req_range data = Some (start, count)"
  using req_word_some [of 0 data] req_word_some [of 2 data] by (auto simp: req_range_def)

lemma req_word_bounds: "req_word data i = Some w \<Longrightarrow> 0 \<le> w \<and> w < 65536"
  using uint_lt2p [where 'a = 16] by (auto simp: req_word_def split: option.splits)

lemma req_range_bounds:
  "req_range data = Some (start, count) \<Longrightarrow> 0 \<le> start \<and> start < 65536 \<and> 0 \<le> count \<and> count < 65536"
  by (auto simp: req_range_def dest: req_word_bounds split: option.splits)

text \<open>
  A frame that is complete by the protocol: the address and the count or value, and for a multiple write
  one byte with the length of the payload and a payload of a bit for each coil or two bytes for each register.
\<close>

definition complete_frame :: "nat \<Rightarrow> gslice \<Rightarrow> bool" where
  "complete_frame code data \<longleftrightarrow>
     4 \<le> length (visible data) \<and>
     (code \<in> {1, 2, 3, 4, 5, 6} \<or>
      (case req_range data of
         None \<Rightarrow> False
       | Some (start, count) \<Rightarrow>
           code = 15 \<and> 5 + (count + 7) div 8 \<le> int (length (visible data)) \<or>
           code = 16 \<and> 5 + 2 * count \<le> int (length (visible data))))"

text \<open>A write of multiple registers that ends inside of a register, when the frame, with the capacity of its slice,
  ends before this register.\<close>

definition overreaches :: "gslice \<Rightarrow> ModbusServer \<Rightarrow> bool" where
  "overreaches data s \<longleftrightarrow>
     (\<exists>regs start count rs. srv_registers s ''holding'' = Some regs \<and> req_range data = Some (start, count) \<and>
        tiles regs start (start + count) rs \<and> int (length (backing data)) < 5 + 2 * words rs)"

lemma single_value_done:
  assumes "reg_ok r" "length d = 2"
  shows "\<exists>x. Register_Value impl r d = Done x"
proof (cases "numeric_reg r")
  case True
  with assms(1) show ?thesis by (rule Register_Value_total(2))
next
  case False
  have "length (BytesToBits d) = 16" using assms(2) by (simp add: BytesToBits_length)
  then obtain b bs where "BytesToBits d = b # bs" by (cases "BytesToBits d") auto
  with False show ?thesis by (auto simp: Register_Value_def numeric_reg_def)
qed

lemma single_write_done:
  assumes "server_ok s" "4 \<le> length (backing data)"
  shows "\<exists>r s'. writeCoilRegister impl data s = (Done r, s')"
    and "\<exists>r s'. writeHoldingRegister impl data s = (Done r, s')"
proof -
  obtain a where a: "req_word data 0 = Some a" using req_word_some [of 0 data] assms(2) by auto
  obtain d where d: "slice data 2 4 = Some d" "length d = 2" using assms(2) by (auto simp: slice_def)
  have v: "Register_Value impl r d \<noteq> Panic \<and> Register_Value impl r d \<noteq> Diverge"
    if "srv_registers s t = Some regs" "regs a = Some r" for t regs r
    using that assms(1) d(2) single_value_done [of r d impl] by (auto simp: server_ok_def regs_ok_def)
  show "\<exists>r s'. writeCoilRegister impl data s = (Done r, s')"
    using a d(1) by (auto simp: writeCoilRegister_def dest!: v
        split: option.split sum.split outcome.split prod.split bool.split)
  show "\<exists>r s'. writeHoldingRegister impl data s = (Done r, s')"
    using a d(1) by (auto simp: writeHoldingRegister_def dest!: v
        split: option.split sum.split outcome.split prod.split bool.split)
qed

lemma multi_coils_done:
  assumes "server_ok s" "complete_frame 15 data"
  shows "\<exists>r s'. writeCoilRegisters data s = (Done r, s')"
proof -
  obtain start count where r: "req_range data = Some (start, count)" "5 + (count + 7) div 8 \<le> int (length (visible data))"
    using assms(2) by (auto simp: complete_frame_def split: option.splits)
  have "0 \<le> count" using req_range_bounds [OF r(1)] by simp
  with r(2) have p: "slice_from data 5 = Some (drop 5 (visible data))"
    "nat count \<le> length (BytesToBits (drop 5 (visible data)))"
    by (simp_all add: slice_from_def BytesToBits_length)
  show ?thesis
  proof (cases "srv_registers s ''coil''")
    case (Some regs)
    obtain out ts ups where l: "write_coils_loop regs (BytesToBits (drop 5 (visible data))) start start (nat count) (srv_tags s) [] = (out, ts, ups)"
      by (cases "write_coils_loop regs (BytesToBits (drop 5 (visible data))) start start (nat count) (srv_tags s) []") auto
    obtain o' s' where fw: "finish_write ''coil_writes_count'' data count (out, ts, ups) s = (o', s')" by fastforce
    have "out \<noteq> Panic" "out \<noteq> Diverge" using write_coils_loop_spec [OF _ l, of 0] p(2) by auto
    then have "\<exists>r. o' = Done r" using fw finish_write_outcome by (cases o') blast+
    with Some r p(1) l fw show ?thesis by (auto simp: writeCoilRegisters_def)
  qed (simp add: writeCoilRegisters_def)
qed

lemma write_spec_panics:
  assumes "write_spec impl regs d a stop out new" "2 * (stop - a) \<le> int (length d)"
  shows "out \<noteq> Diverge" "out = Panic \<longleftrightarrow> (\<exists>rs. tiles regs a stop rs \<and> int (length d) < 2 * words rs)"
proof -
  show "out \<noteq> Diverge" using assms(1) by auto
  have "\<exists>rs. tiles regs a stop rs \<and> int (length d) < 2 * words rs" if "out = Panic"
  proof -
    from that assms(1) obtain rs where rs: "visits regs a stop rs" "int (length d) < 2 * words rs" by auto
    with assms(2) have "tiles regs a stop rs" by (intro visits_tiles) auto
    with rs(2) show ?thesis by blast
  qed
  moreover have False if "tiles regs a stop rs" "int (length d) < 2 * words rs" "out = Done x" for rs x
  proof (cases x)
    case None
    with assms(1) that(3) obtain rs' where "tiles regs a stop rs'" "2 * words rs' \<le> int (length d)" by auto
    with tiles_unique [OF that(1)] that(2) show False by simp
  qed (use assms(1) that in auto)
  ultimately show "out = Panic \<longleftrightarrow> (\<exists>rs. tiles regs a stop rs \<and> int (length d) < 2 * words rs)"
    using \<open>out \<noteq> Diverge\<close> by (cases out) blast+
qed

lemma multi_write_outcome:
  assumes ok: "server_ok s" and f: "complete_frame 16 data"
  shows "\<exists>r s'. writeHoldingRegisters impl data s = (if overreaches data s then Panic else Done r, s')"
proof -
  obtain start count where r: "req_range data = Some (start, count)" "5 + 2 * count \<le> int (length (backing data))"
    using f by (auto simp: complete_frame_def split: option.splits)
  show ?thesis
  proof (cases "srv_registers s ''holding''")
    case (Some regs)
    then have num: "numeric_regs regs" using ok server_ok_numeric by blast
    obtain out ts ups where l: "write_loop impl regs data (nat count) start (start + count) 5 (srv_tags s) [] = (out, ts, ups)"
      by (cases "write_loop impl regs data (nat count) start (start + count) 5 (srv_tags s) []") auto
    obtain o' s' where fw: "finish_write ''holding_writes_count'' data count (out, ts, ups) s = (o', s')" by fastforce
    have w: "writeHoldingRegisters impl data s = (o', s')" using Some r l fw by (simp add: writeHoldingRegisters_def)
    obtain new where spec: "write_spec impl regs (drop 5 (backing data)) start (start + count) out new"
      using write_loop_spec [OF num _ _ l] req_range_bounds [OF r(1)] r(2) by auto
    have long: "int (length (drop 5 (backing data))) = int (length (backing data)) - 5"
      using r(2) req_range_bounds [OF r(1)] by (simp only: length_drop) linarith
    have "2 * (start + count - start) \<le> int (length (drop 5 (backing data)))" unfolding long using r(2) by simp
    note p = write_spec_panics [OF spec this, unfolded long]
    have "overreaches data s \<longleftrightarrow> out = Panic"
      unfolding p(2) overreaches_def using Some r(1) by (auto simp: algebra_simps)
    moreover have "if out = Panic then o' = Panic else \<exists>r. o' = Done r"
      using p(1) fw finish_write_outcome [of _ data count out ts ups s s'] by (cases o') (auto simp: finish_write_def)
    ultimately show ?thesis using w by auto
  qed (auto simp: writeHoldingRegisters_def overreaches_def)
qed

lemma read_done:
  assumes "server_ok s" "4 \<le> length (backing data)"
  shows "\<exists>r. readCoilRegisters data s = Done r" "\<exists>r. readDiscreteRegisters data s = Done r"
    "\<exists>r. readHoldingRegisters impl data s = Done r" "\<exists>r. readInputRegisters impl data s = Done r"
proof -
  obtain start count where r: "req_range data = Some (start, count)" using req_range_some [OF assms(2)] by blast
  show "\<exists>r. readCoilRegisters data s = Done r" "\<exists>r. readDiscreteRegisters data s = Done r"
    using r by (auto simp: readCoilRegisters_def readDiscreteRegisters_def Let_def split: option.split)
  have "\<exists>x. read_registers impl t data s = Done x" if "t = ''holding'' \<or> t = ''input''" for t
    using read_registers_spec [OF assms(1) _ that r, of _ impl]
    by (cases "srv_registers s t") (auto simp: read_registers_def)
  then show "\<exists>r. readHoldingRegisters impl data s = Done r" "\<exists>r. readInputRegisters impl data s = Done r"
    by (simp_all add: readHoldingRegisters_def readInputRegisters_def)
qed

lemma handler_outcome:
  assumes "server_ok s" "complete_frame code data"
  shows "\<exists>r s'. function_handler impl code data s = Some (if code = 16 \<and> overreaches data s then Panic else Done r, s')"
proof -
  have "4 \<le> length (backing data)" using assms(2) by (simp add: complete_frame_def)
  note done_rules = read_done [OF assms(1) this] single_write_done [OF assms(1) this] multi_coils_done [OF assms(1)]
    multi_write_outcome [OF assms(1)]
  from assms(2) consider "code = 1" | "code = 2" | "code = 3" | "code = 4" | "code = 5" | "code = 6"
    | "code = 15" | "code = 16" unfolding complete_frame_def by (auto split: option.splits)
  then show ?thesis
    using assms(2) done_rules by cases (simp_all add: function_handler_def)
qed

text \<open>No write overreaches when every holding register is a single word.\<close>

lemma no_overreach:
  assumes "complete_frame 16 data" "srv_registers s ''holding'' = Some regs" "\<forall>a r. regs a = Some r \<longrightarrow> reg_count r = 1"
  shows "\<not> overreaches data s"
proof
  assume "overreaches data s"
  then obtain start count rs where r: "req_range data = Some (start, count)" "tiles regs start (start + count) rs"
    "int (length (backing data)) < 5 + 2 * words rs" using assms(2) by (auto simp: overreaches_def)
  have "words rs \<le> stop - a" if "tiles regs a stop rs" "a \<le> stop" for a stop
    using that
  proof (induction rs arbitrary: a)
    case (Cons x xs)
    then have "reg_count x = 1" "a < stop" "tiles regs (a + 1) stop xs" using assms(3) by auto
    with Cons.IH [of "a + 1"] show ?case by simp
  qed simp
  from this [OF r(2)] r(1,3) assms(1) req_range_bounds [OF r(1)] show False by (auto simp: complete_frame_def)
qed

text \<open>A server with two holding registers, and one configured from XML, to evaluate instances on.\<close>

definition demo_pusher :: Pusher where
  "demo_pusher = \<lparr>sock = (\<lambda>_. True), attempts = 0, sent = []\<rparr>"

definition demo_xml :: "element list" where
  "demo_xml =
     [node ''endpoint'' [] ''127.0.0.1:502'' [],
      node ''register'' [(''type'', ''holding'')] []
        [node ''address'' [] ''7'' [], node ''tag'' [] ''bus.voltage'' []]]"

definition demo_configured :: ModbusServer where
  "demo_configured =
     (case Server_Configure demo_impl demo_xml (NewServer ''mb'' demo_pusher) of
        Inr s \<Rightarrow> s | Inl _ \<Rightarrow> NewServer ''mb'' demo_pusher)"

lemma demo_sock: "sock demo_pusher n" "sent demo_pusher = []"
  by (simp_all add: demo_pusher_def)

lemma demo_configured_ok:
  "Server_Configure demo_impl demo_xml (NewServer ''mb'' demo_pusher) = Inr demo_configured"
  "srv_registers demo_configured ''holding'' = Some [7 \<mapsto> demo_reg ''holding'' ''uint16'' 7 1 0 ''bus.voltage'']"
proof -
  have at: "Atoi ''7'' = (7, True)" by (simp add: Atoi_def digits_val_def digit_val_def is_digit_def)
  have sc: "f64_to_int demo_impl True 64 (f64_abs (f64_of_int 0)) = 0"
    by (simp add: fp_eval cong: let_weak_cong)
  have "Server_Configure demo_impl demo_xml (NewServer ''mb'' demo_pusher) =
    Inr (add_register (demo_reg ''holding'' ''uint16'' 7 1 0 ''bus.voltage'')
          ((NewServer ''mb'' demo_pusher)\<lparr>srv_endpoint := ''127.0.0.1:502''\<rparr>))"
    by (simp add: demo_xml_def configure_child_def parse_register_def Register_Init_def validRegisterTypes_def
        validDataTypes_def at sc demo_reg_def)
  then show "Server_Configure demo_impl demo_xml (NewServer ''mb'' demo_pusher) = Inr demo_configured"
    "srv_registers demo_configured ''holding'' = Some [7 \<mapsto> demo_reg ''holding'' ''uint16'' 7 1 0 ''bus.voltage'']"
    by (simp_all add: demo_configured_def add_register_def NewServer_def demo_reg_def)
qed

lemma demo_run: "server_run demo_impl (Server_start demo_pusher demo_configured)"
  using demo_configured_ok(1) by (rule server_run.started)

text \<open>A complete frame can crash the server: a write of one word at the address of a register of two words takes two
  bytes from after the end of the frame, which is a panic unless the slice has room for them.\<close>

lemma complete_write_panics:
  assumes "server_ok s" "srv_registers s ''holding'' = Some regs" "regs 7 = Some r" "reg_count r = 2"
  shows "\<exists>s'. function_handler impl 16 \<lparr>visible = [0, 7, 0, 1, 2, x, y], spare = []\<rparr> s = Some (Panic, s')"
proof -
  let ?d = "\<lparr>visible = [0, 7, 0, 1, 2, x, y], spare = []\<rparr>"
  have rr: "req_range ?d = Some (7, 1)" by (simp add: req_range_def req_word_def slice_def get16_def be_decode_def)
  then have "complete_frame 16 ?d" by (simp add: complete_frame_def)
  moreover have "overreaches ?d s"
    unfolding overreaches_def using rr assms(2-4) by (auto intro!: exI [of _ "[r]"])
  ultimately show ?thesis using handler_outcome [OF assms(1), of 16 ?d impl] by auto
qed

section \<open>Reads and writes of registers\<close>

lemma read_registers_reply:
  assumes "server_ok s" "srv_registers s t = Some regs" "t = ''holding'' \<or> t = ''input''"
    and "req_range data = Some (start, count)"
  shows "(\<exists>rs d. tiles regs start (start + count) rs \<and> d = concat (map (encoding impl (srv_tags s)) rs) \<and>
            read_registers impl t data s = Done (of_int (2 * words rs) # d, Success) \<and>
            int (length d) = 2 * words rs \<and> 2 * count \<le> 2 * words rs \<and> 2 * words rs \<le> 2 * count + 6) \<or>
         (\<nexists>rs. tiles regs start (start + count) rs) \<and>
            read_registers impl t data s = Done ([], IllegalDataAddress)"
proof -
  have num: "numeric_regs regs" using assms(1-3) by (rule server_ok_numeric)
  have "int (length (concat (map (encoding impl (srv_tags s)) rs))) = 2 * words rs \<and>
      2 * count \<le> 2 * words rs \<and> 2 * words rs \<le> 2 * count + 6" if "tiles regs start (start + count) rs" for rs
    using tiles_words [OF num that] req_range_bounds [OF assms(4)] encoding_length [OF tiles_mem [OF num that]]
    by auto
  with read_registers_spec [OF assms, of impl] show ?thesis by metis
qed

text \<open>C3: what a register read returns. If registers tile the requested range, each starting where
  the one before ends, the reply is a byte count and the encodings of their values in address
  order; its data is at least two bytes per requested word and at most six bytes longer, when the
  last register reaches past the range. Otherwise the reply is IllegalDataAddress.\<close>

theorem read_reply:
  assumes "server_run impl s" "(read, t) \<in> {(readHoldingRegisters, ''holding''), (readInputRegisters, ''input'')}"
    and "srv_registers s t = Some regs" "req_range data = Some (start, count)"
  shows "(\<exists>rs d. tiles regs start (start + count) rs \<and> d = concat (map (encoding impl (srv_tags s)) rs) \<and>
            read impl data s = Done (of_int (2 * words rs) # d, Success) \<and>
            int (length d) = 2 * words rs \<and> 2 * count \<le> 2 * words rs \<and> 2 * words rs \<le> 2 * count + 6) \<or>
         (\<nexists>rs. tiles regs start (start + count) rs) \<and> read impl data s = Done ([], IllegalDataAddress)"
proof -
  have "read impl data s = read_registers impl t data s" "t = ''holding'' \<or> t = ''input''"
    using assms(2) by (auto simp: readHoldingRegisters_def readInputRegisters_def)
  with read_registers_reply [OF server_run_ok [OF assms(1)] assms(3) _ assms(4)] show ?thesis by simp
qed

lemma demo_start_fields:
  "srv_registers (Server_start demo_pusher demo_configured) ''holding'' =
     Some [7 \<mapsto> demo_reg ''holding'' ''uint16'' 7 1 0 ''bus.voltage'']"
  "srv_pusher (Server_start demo_pusher demo_configured) = demo_pusher"
  by (simp_all add: Server_start_def demo_configured_ok)

lemma demo_frame_range:
  "req_range \<lparr>visible = [0, 7, 0, 1], spare = []\<rparr> = Some (7, 1)"
  "req_range \<lparr>visible = [0, 7, 0, 1, 2, 0xAB, 0xCD], spare = []\<rparr> = Some (7, 1)"
  by (simp_all add: req_range_def req_word_def slice_def get16_def be_decode_def)

theorem read_reply_witness:
  "let s = Server_start demo_pusher demo_configured; regs = [7 \<mapsto> demo_reg ''holding'' ''uint16'' 7 1 0 ''bus.voltage'']
   in (\<exists>rs d. tiles regs 7 (7 + 1) rs \<and> d = concat (map (encoding demo_impl (srv_tags s)) rs) \<and>
         readHoldingRegisters demo_impl \<lparr>visible = [0, 7, 0, 1], spare = []\<rparr> s = Done (of_int (2 * words rs) # d, Success) \<and>
         int (length d) = 2 * words rs \<and> 2 * 1 \<le> 2 * words rs \<and> 2 * words rs \<le> 2 * 1 + 6) \<or>
      (\<nexists>rs. tiles regs 7 (7 + 1) rs) \<and>
         readHoldingRegisters demo_impl \<lparr>visible = [0, 7, 0, 1], spare = []\<rparr> s = Done ([], IllegalDataAddress)"
  unfolding Let_def
  by (rule read_reply [OF demo_run _ demo_start_fields(1) demo_frame_range(1)]) simp

lemma write_registers_effect:
  assumes ok: "server_ok s" and regs: "srv_registers s ''holding'' = Some regs"
    and range: "req_range data = Some (start, count)" and frame: "5 \<le> length (backing data)"
    and w: "writeHoldingRegisters impl data s = (Done (rep, Success), s')"
  shows "\<exists>rs. tiles regs start (start + count) rs \<and> 5 + 2 * words rs \<le> int (length (backing data)) \<and>
    srv_tags s' = apply_points (decode_points impl rs (drop 5 (backing data))) (srv_tags s) \<and>
    rep = take 4 (backing data)"
proof -
  have num: "numeric_regs regs" using ok regs by (auto intro: server_ok_numeric)
  obtain out ts ups where l: "write_loop impl regs data (nat count) start (start + count) 5 (srv_tags s) [] = (out, ts, ups)"
    by (cases "write_loop impl regs data (nat count) start (start + count) 5 (srv_tags s) []") auto
  with write_loop_spec [OF num _ frame l] obtain new where
    new: "ts = apply_points new (srv_tags s)" "ups = new"
      "write_spec impl regs (drop 5 (backing data)) start (start + count) out new" by auto
  have f: "finish_write ''holding_writes_count'' data count (out, apply_points new (srv_tags s), new) s = (Done (rep, Success), s')"
    using w regs range l new by (simp add: writeHoldingRegisters_def)
  have "out \<noteq> Done (Some Success)" using new(3) by auto
  with finish_write_result [OF f] have "out = Done None" "rep = take 4 (backing data)" by auto
  with new finish_write_frame [OF f] frame show ?thesis by auto
qed

lemma write_read_back:
  assumes ok: "server_ok s" and regs: "srv_registers s ''holding'' = Some regs"
    and range: "req_range data = Some (start, count)" and frame: "5 \<le> length (backing data)"
    and w: "writeHoldingRegisters impl data s = (Done (rep, Success), s')"
    and tiled: "tiles regs start (start + count) rs" and tags: "distinct (map reg_tag rs)"
    and exact: "pieces_exact rs (drop 5 (backing data))" and same: "req_range data' = req_range data"
  shows "readHoldingRegisters impl data' s' =
    Done (of_int (2 * words rs) # take (nat (2 * words rs)) (drop 5 (backing data)), Success)"
proof -
  have num: "numeric_regs regs" using ok regs by (auto intro: server_ok_numeric)
  have t: "srv_tags s' = apply_points (decode_points impl rs (drop 5 (backing data))) (srv_tags s)"
    and len: "5 + 2 * words rs \<le> int (length (backing data))"
    using write_registers_effect [OF ok regs range frame w] tiles_unique [OF tiled] by auto
  have "concat (map (encoding impl (srv_tags s')) rs) = take (nat (2 * words rs)) (drop 5 (backing data))"
    unfolding t by (rule write_read_encodings [OF tiles_mem [OF num tiled] tags exact]) (use len in simp_all)
  moreover have "server_ok s'" "srv_registers s' ''holding'' = Some regs"
    using whs.keeps_ok [OF ok w] whs.frame [OF w] regs by simp_all
  then have "readHoldingRegisters impl data' s' =
      Done (of_int (2 * words rs) # concat (map (encoding impl (srv_tags s')) rs), Success)"
    using read_registers_spec [of s' "''holding''" regs data' start count impl] range same tiled
      tiles_unique [OF tiled] unfolding readHoldingRegisters_def by metis
  ultimately show ?thesis by simp
qed

text \<open>C2: what was written is read. After a successful write of multiple holding registers, a
  read of the same range returns the bytes written, provided the registers of the range are
  unscaled, their tags distinct, and the bytes are values the registers represent exactly.\<close>

theorem write_then_read:
  assumes "server_run impl s" "srv_registers s ''holding'' = Some regs" "req_range data = Some (start, count)"
    and "5 \<le> length (backing data)" "writeHoldingRegisters impl data s = (Done (rep, Success), s')"
    and "tiles regs start (start + count) rs" "distinct (map reg_tag rs)"
    and "pieces_exact rs (drop 5 (backing data))" "req_range data' = req_range data"
  shows "readHoldingRegisters impl data' s' =
    Done (of_int (2 * words rs) # take (nat (2 * words rs)) (drop 5 (backing data)), Success)"
  using write_read_back [OF server_run_ok [OF assms(1)] assms(2-9)] .

lemma demo_write:
  "\<exists>s'. writeHoldingRegisters demo_impl \<lparr>visible = [0, 7, 0, 1, 2, 0xAB, 0xCD], spare = []\<rparr>
     (Server_start demo_pusher demo_configured) = (Done ([0, 7, 0, 1], Success), s')"
proof -
  let ?r = "demo_reg ''holding'' ''uint16'' 7 1 0 ''bus.voltage''"
  have r: "numeric_reg ?r" "reg_datatype ?r = ''uint16''" "reg_scaling ?r = 0"
    by (simp_all add: demo_reg_ok, simp_all add: demo_reg_def)
  have g: "get16 [0xAB, 0xCD] = Some 0xABCD" by (simp add: get16_def be_decode_def)
  have v: "Register_Value demo_impl ?r [0xAB, 0xCD] = Done (Inr (f64_of_int 43981))"
    unfolding Register_Value_numeric(2) [OF r(1,2)] read_as_def g
    using scale_none_int(2) [OF r(3), of 43981 demo_impl] by simp
  have fin: "f64_finite (f64_of_int 43981)" using f64_of_int_exact(2) [of 43981] by simp
  have c: "reg_count ?r = 1" by (simp add: demo_reg_def)
  show ?thesis
    by (simp add: writeHoldingRegisters_def demo_start_fields demo_frame_range finish_write_def slice_def c v fin
        publish_updates_def NewEnvelope_def points_finite_def point_def Push_def SendMessage_def demo_sock Let_def)
qed

theorem write_then_read_witness:
  "\<exists>s'. writeHoldingRegisters demo_impl \<lparr>visible = [0, 7, 0, 1, 2, 0xAB, 0xCD], spare = []\<rparr>
          (Server_start demo_pusher demo_configured) = (Done ([0, 7, 0, 1], Success), s') \<and>
        readHoldingRegisters demo_impl \<lparr>visible = [0, 7, 0, 1], spare = []\<rparr> s' = Done ([2, 0xAB, 0xCD], Success)"
proof -
  let ?r = "demo_reg ''holding'' ''uint16'' 7 1 0 ''bus.voltage''"
  let ?data = "\<lparr>visible = [0, 7, 0, 1, 2, 0xAB, 0xCD], spare = []\<rparr> :: gslice"
  obtain s' where w: "writeHoldingRegisters demo_impl ?data (Server_start demo_pusher demo_configured) =
    (Done ([0, 7, 0, 1], Success), s')" using demo_write by blast
  have "readHoldingRegisters demo_impl \<lparr>visible = [0, 7, 0, 1], spare = []\<rparr> s' =
      Done (of_int (2 * words [?r]) # take (nat (2 * words [?r])) (drop 5 (backing ?data)), Success)"
    by (rule write_then_read [OF demo_run demo_start_fields(1) demo_frame_range(2) _ w])
      (simp_all add: demo_reg_def wire_exact_def demo_frame_range)
  with w show ?thesis by (simp add: demo_reg_def)
qed

text \<open>A write that fails half way is not undone. When the first register of a multiple write
  exists and the address after it does not, the request is refused with IllegalDataAddress, yet the
  first register holds the new value, and no update tells the other modules.\<close>

lemma failed_write_not_atomic:
  assumes "server_run impl s" "srv_registers s ''holding'' = Some regs" "req_range data = Some (start, count)"
    and "regs start = Some r" "regs (start + reg_count r) = None" "reg_count r < count"
    and "5 + 2 * reg_count r \<le> int (length (backing data))"
  shows "\<exists>v s'. writeHoldingRegisters impl data s = (Done ([], IllegalDataAddress), s') \<and>
    Register_Value impl r (take (2 * nat (reg_count r)) (drop 5 (backing data))) = Done (Inr v) \<and>
    srv_tags s' = (srv_tags s)(reg_tag r \<mapsto> v) \<and> sent (srv_pusher s') = sent (srv_pusher s)"
proof -
  let ?d = "take (2 * nat (reg_count r)) (drop 5 (backing data))"
  have "numeric_regs regs" using assms(1,2) by (auto intro: server_ok_numeric dest: server_run_ok)
  note c = numeric_regs_count [OF this assms(4)]
  have k: "nat (reg_count r * 2) = 2 * nat (reg_count r)" using c(1) by simp
  have sl: "slice data 5 (5 + 2 * nat (reg_count r)) = Some ?d" and "length ?d = 2 * nat (reg_count r)"
    using assms(7) c(1) by (auto simp: slice_def)
  then obtain v where v: "Register_Value impl r ?d = Done (Inr v)"
    using Register_Value_total(1) [OF c(3,4), of impl ?d] by auto
  have "2 \<le> nat count" using assms(6) c(1) by simp
  then obtain n where n: "nat count = Suc (Suc n)" by (metis add_2_eq_Suc le_Suc_ex)
  have l: "write_loop impl regs data (nat count) start (start + count) 5 (srv_tags s) [] =
      (Done (Some IllegalDataAddress), (srv_tags s)(reg_tag r \<mapsto> v), [point (reg_tag r) v])"
    using assms(4,5,6) c(1) sl v by (simp add: n k)
  have "writeHoldingRegisters impl data s =
      (Done ([], IllegalDataAddress), s\<lparr>srv_tags := (srv_tags s)(reg_tag r \<mapsto> v)\<rparr>)"
    using assms(2,3) l by (simp add: writeHoldingRegisters_def finish_write_def)
  with v show ?thesis by simp
qed

lemma failed_write_not_atomic_witness:
  "\<exists>v s'. writeHoldingRegisters demo_impl \<lparr>visible = [0, 7, 0, 2, 4, 0, 1, 0, 2], spare = []\<rparr>
       (Server_start demo_pusher demo_configured) = (Done ([], IllegalDataAddress), s') \<and>
     Register_Value demo_impl (demo_reg ''holding'' ''uint16'' 7 1 0 ''bus.voltage'') [0, 1] = Done (Inr v) \<and>
     srv_tags s' = (srv_tags (Server_start demo_pusher demo_configured))(''bus.voltage'' \<mapsto> v) \<and>
     sent (srv_pusher s') = []"
  using failed_write_not_atomic [OF demo_run demo_start_fields(1), of "\<lparr>visible = [0, 7, 0, 2, 4, 0, 1, 0, 2], spare = []\<rparr>" 7 2
      "demo_reg ''holding'' ''uint16'' 7 1 0 ''bus.voltage''"]
  by (simp add: demo_reg_def demo_start_fields demo_sock req_range_def req_word_def slice_def get16_def be_decode_def)

text \<open>A value that JSON cannot carry is stored and never announced. Writing a NaN or an infinity
  to a double register is answered with SlaveDeviceFailure, but the register keeps the value and the
  other modules hear nothing.\<close>

lemma unpublishable_write_kept:
  assumes "server_ok s" "srv_registers s ''holding'' = Some regs" "req_range data = Some (start, 4)"
    and "regs start = Some r" "reg_datatype r = ''double''"
    and "get64 (take 8 (drop 5 (backing data))) = Some v" "\<not> f64_finite v" "13 \<le> length (backing data)"
  shows "\<exists>s'. writeHoldingRegisters impl data s = (Done ([], SlaveDeviceFailure), s') \<and>
    srv_tags s' = (srv_tags s)(reg_tag r \<mapsto> v) \<and> srv_pusher s' = srv_pusher s"
proof -
  have "numeric_regs regs" using assms(1,2) by (auto intro: server_ok_numeric)
  note c = numeric_regs_count [OF this assms(4)]
  have four: "reg_count r = 4" using reg_ok_numeric_count(1) [OF c(3,4)] assms(5) by simp
  have sl: "slice data 5 13 = Some (take 8 (drop 5 (backing data)))"
    using assms(8) by (simp add: slice_def)
  have v: "Register_Value impl r (take 8 (drop 5 (backing data))) = Done (Inr v)"
    unfolding Register_Value_numeric(8) [OF c(4) assms(5)] assms(6) by (simp add: read_as_def)
  have l: "write_loop impl regs data (nat 4) start (start + 4) 5 (srv_tags s) [] =
      (Done None, (srv_tags s)(reg_tag r \<mapsto> v), [point (reg_tag r) v])"
    using assms(4) sl v by (simp add: four numeral_eq_Suc)
  show ?thesis
    using assms(2,3,7) l
    by (simp add: writeHoldingRegisters_def finish_write_def publish_updates_def NewEnvelope_def points_finite_def point_def)
qed

definition demo_server :: "string \<Rightarrow> Register \<Rightarrow> ModbusServer" where
  "demo_server t r = (NewServer ''mb'' demo_pusher)\<lparr>srv_registers := [t \<mapsto> [reg_addr r \<mapsto> r]]\<rparr>"

lemma demo_server_simps:
  "srv_registers (demo_server t r) = [t \<mapsto> [reg_addr r \<mapsto> r]]" "srv_pusher (demo_server t r) = demo_pusher"
  "srv_tags (demo_server t r) = Map.empty" "srv_name (demo_server t r) = ''mb''"
  "reg_ok r \<Longrightarrow> reg_type r = t \<Longrightarrow> server_ok (demo_server t r)"
  by (simp_all add: demo_server_def NewServer_def server_ok_def regs_ok_def)

lemma unpublishable_write_kept_witness:
  "\<exists>s'. writeHoldingRegisters demo_impl
       \<lparr>visible = [0, 3, 0, 4, 8, 0x7F, 0xF0, 0, 0, 0, 0, 0, 0], spare = []\<rparr>
       (demo_server ''holding'' (demo_reg ''holding'' ''double'' 3 4 0 ''x'')) = (Done ([], SlaveDeviceFailure), s') \<and>
     srv_tags s' = [''x'' \<mapsto> 0x7FF0000000000000] \<and> srv_pusher s' = demo_pusher"
proof -
  let ?r = "demo_reg ''holding'' ''double'' 3 4 0 ''x''"
  let ?data = "\<lparr>visible = [0, 3, 0, 4, 8, 0x7F, 0xF0, 0, 0, 0, 0, 0, 0], spare = []\<rparr> :: gslice"
  have ok: "server_ok (demo_server ''holding'' ?r)"
    by (rule demo_server_simps) (simp_all add: demo_reg_ok validDataTypes_def, simp add: demo_reg_def)
  have g: "get64 [0x7F, 0xF0, 0, 0, 0, 0, 0, 0] = Some 0x7FF0000000000000"
    by (simp add: get64_def be_decode_def)
  have fin: "\<not> f64_finite 0x7FF0000000000000" by (simp add: f64_finite_def f64_mag_def f64_inf_mag_def)
  have "req_range ?data = Some (3, 4)" by (simp add: req_range_def req_word_def slice_def get16_def be_decode_def)
  from unpublishable_write_kept [OF ok _ this _ _ _ fin, of "[3 \<mapsto> ?r]" ?r demo_impl] g show ?thesis
    by (simp add: demo_server_simps) (simp add: demo_reg_def)
qed

text \<open>C22: a single register write agrees with a multiple write of that register: for a one-word
  holding register both leave the same tags and send the same messages, and succeed or fail alike; a
  register of several words refuses every single write with IllegalDataValue and is left alone.\<close>

theorem single_write_equivalent:
  assumes "server_run impl s" "srv_registers s ''holding'' = Some regs" "regs a = Some r"
    and "0 \<le> a" "a < 65536"
  defines "one \<equiv> \<lambda>d. \<lparr>visible = put16 (of_int a) @ d, spare = []\<rparr>"
    and "many \<equiv> \<lambda>d. \<lparr>visible = put16 (of_int a) @ put16 1 @ [2] @ d, spare = []\<rparr>"
  shows "if reg_count r = 1 then
      \<exists>e1 e2 rep1 rep2 s1 s2.
        writeHoldingRegister impl (one [x, y]) s = (Done (rep1, e1), s1) \<and>
        writeHoldingRegisters impl (many [x, y]) s = (Done (rep2, e2), s2) \<and>
        e1 = e2 \<and> srv_tags s1 = srv_tags s2 \<and> srv_pusher s1 = srv_pusher s2 \<and> srv_metrics s1 = srv_metrics s2
    else writeHoldingRegister impl (one [x, y]) s = (Done ([], IllegalDataValue), s)"
proof -
  have num: "numeric_regs regs" using assms(1,2) by (auto intro: server_ok_numeric dest: server_run_ok)
  note c = numeric_regs_count [OF num assms(3)]
  have w: "uint (of_int a :: uint16) = a" using assms(4,5) by (simp add: unsigned_of_int take_bit_int_eq_self)
  have l2: "length (put16 w) = 2" for w by (rule u16.enc_length)
  have one: "req_word (one [x, y]) 0 = Some a" "slice (one [x, y]) 2 4 = Some [x, y]"
    by (simp_all add: one_def req_word_def slice_def l2 u16.dec_enc_exact w)
  have many: "req_range (many [x, y]) = Some (a, 1)" "slice (many [x, y]) 5 7 = Some [x, y]"
    by (simp_all add: many_def req_range_def req_word_def slice_def l2 u16.dec_enc_exact w)
  show ?thesis
  proof (cases "reg_count r = 1")
    case True
    obtain v where v: "Register_Value impl r [x, y] = Done (Inr v)"
      using Register_Value_total(1) [OF c(3,4), of impl "[x, y]"] True by auto
    show ?thesis
      using True assms(2,3) one many v
      by (auto simp: writeHoldingRegister_def writeHoldingRegisters_def finish_write_def IncrMetricBy_1
          set_tag_def Let_def split: prod.split bool.split)
  next
    case False
    then have "\<not> (\<exists>v. Register_Value impl r [x, y] = Done (Inr v))"
      using Register_Value_total(1) [OF c(3,4), of impl "[x, y]"] c(1) by auto
    then obtain e where "Register_Value impl r [x, y] = Done (Inl e)"
      using Register_Value_total(2) [OF c(3,4), of impl "[x, y]"] by (metis sum.exhaust)
    with False assms(2,3) one show ?thesis by (simp add: writeHoldingRegister_def)
  qed
qed

theorem single_write_equivalent_witness:
  "\<exists>e1 e2 rep1 rep2 s1 s2.
     writeHoldingRegister demo_impl \<lparr>visible = put16 (of_int 7) @ [1, 2], spare = []\<rparr>
       (Server_start demo_pusher demo_configured) = (Done (rep1, e1), s1) \<and>
     writeHoldingRegisters demo_impl \<lparr>visible = put16 (of_int 7) @ put16 1 @ [2] @ [1, 2], spare = []\<rparr>
       (Server_start demo_pusher demo_configured) = (Done (rep2, e2), s2) \<and>
     e1 = e2 \<and> srv_tags s1 = srv_tags s2 \<and> srv_pusher s1 = srv_pusher s2 \<and> srv_metrics s1 = srv_metrics s2"
proof -
  have "reg_count (demo_reg ''holding'' ''uint16'' 7 1 0 ''bus.voltage'') = 1" by (simp add: demo_reg_def)
  with single_write_equivalent [OF demo_run demo_start_fields(1),
      of 7 "demo_reg ''holding'' ''uint16'' 7 1 0 ''bus.voltage''" 1 2]
  show ?thesis by (simp only: if_True fun_upd_same)
qed

section \<open>Reads and writes of coils\<close>

text \<open>The two implementations of reading single-bit registers agree: reading discrete inputs,
  which sets bits in a byte array, returns what reading coils, which packs a list of bits, would return
  on the same registers.\<close>

lemma discrete_read_equivalent:
  assumes "srv_registers s ''discrete'' = Some regs"
  shows "readDiscreteRegisters data s =
     readCoilRegisters data (s\<lparr>srv_registers := [''coil'' \<mapsto> regs]\<rparr>)"
proof -
  have "length bs = n" if "coil_loop regs ts a n = Some bs" for ts a n bs
    using that by (auto simp: coil_loop_spec split: if_splits)
  then show ?thesis
    using assms
    by (auto simp: readDiscreteRegisters_def readCoilRegisters_def discrete_loop_set_bits BitsToBytes_def Let_def
        split: option.split)
qed

lemma discrete_read_equivalent_witness:
  "readDiscreteRegisters \<lparr>visible = [0, 7, 0, 1], spare = []\<rparr> (demo_server ''discrete'' (demo_reg ''discrete'' [] 7 0 0 ''d'')) =
   readCoilRegisters \<lparr>visible = [0, 7, 0, 1], spare = []\<rparr>
     ((demo_server ''discrete'' (demo_reg ''discrete'' [] 7 0 0 ''d''))
       \<lparr>srv_registers := [''coil'' \<mapsto> [7 \<mapsto> demo_reg ''discrete'' [] 7 0 0 ''d'']]\<rparr>)"
  by (rule discrete_read_equivalent) (simp add: demo_server_simps, simp add: demo_reg_def)

lemma apply_points_map:
  "distinct (map f xs) \<Longrightarrow> x \<in> set xs \<Longrightarrow> apply_points (map (\<lambda>i. point (f i) (g i)) xs) ts (f x) = Some (g x)"
proof (induction xs arbitrary: ts)
  case (Cons y ys)
  show ?case
  proof (cases "x = y")
    case True
    with Cons.prems(1) have "f x \<notin> pt_tag ` set (map (\<lambda>i. point (f i) (g i)) ys)" by (auto simp: point_def)
    from apply_points_other [OF this] True show ?thesis by (simp add: point_def)
  next
    case False
    with Cons show ?thesis by simp
  qed
qed simp

lemma bit_values: "b \<in> set (BytesToBits data) \<Longrightarrow> b = 0 \<or> b = 1"
  by (induction data) (auto simp: BytesToBits_Cons)

lemma coil_value: "f64_eq (f64_of_int 0) f64_zero" "\<not> f64_eq (f64_of_int 1) f64_zero"
  by (simp_all add: fp_eval cong: let_weak_cong)

text \<open>The tag of the coil at an offset of the range.\<close>

definition coil_tag :: "(int \<rightharpoonup> Register) \<Rightarrow> int \<Rightarrow> nat \<Rightarrow> string" where
  "coil_tag regs start i = reg_tag (the (regs (start + int i)))"

lemma coils_read_back:
  assumes "\<forall>i < n. regs (start + int i) \<noteq> None" "distinct (map (coil_tag regs start) [0..<n])"
    and "n \<le> length (BytesToBits d)"
  shows "coil_loop regs (apply_points (map (\<lambda>i. point (coil_tag regs start i) (f64_of_int (BytesToBits d ! i))) [0..<n]) ts)
      start n = Some (take n (BytesToBits d))"
proof -
  let ?bs = "BytesToBits d"
  let ?ts = "apply_points (map (\<lambda>i. point (coil_tag regs start i) (f64_of_int (?bs ! i))) [0..<n]) ts"
  have "(if f64_eq (tag_value ?ts (coil_tag regs start i)) f64_zero then 0 else 1) = ?bs ! i" if "i < n" for i
  proof -
    have "tag_value ?ts (coil_tag regs start i) = f64_of_int (?bs ! i)"
      using apply_points_map [OF assms(2), of i "\<lambda>i. f64_of_int (?bs ! i)" ts] that by (simp add: lookup0_def)
    moreover have "?bs ! i = 0 \<or> ?bs ! i = 1" using that assms(3) by (intro bit_values [of _ d] nth_mem) simp
    ultimately show ?thesis using coil_value by auto
  qed
  then have "map (\<lambda>i. if f64_eq (tag_value ?ts (coil_tag regs start i)) f64_zero then 0 else 1) [0..<n] = take n ?bs"
    using assms(3) by (intro nth_equalityI) simp_all
  then show ?thesis using assms(1) by (simp add: coil_loop_spec coil_tag_def)
qed

lemma write_coils_effect:
  assumes regs: "srv_registers s ''coil'' = Some regs" and range: "req_range data = Some (start, count)"
    and w: "writeCoilRegisters data s = (Done (rep, Success), s')"
  shows "\<exists>d. slice_from data 5 = Some d \<and> nat count \<le> length (BytesToBits d) \<and>
    (\<forall>i < nat count. regs (start + int i) \<noteq> None) \<and>
    srv_tags s' = apply_points (map (\<lambda>i. point (coil_tag regs start i) (f64_of_int (BytesToBits d ! i))) [0..<nat count]) (srv_tags s)"
proof -
  obtain d where d: "slice_from data 5 = Some d"
    using w regs range by (auto simp: writeCoilRegisters_def split: option.splits)
  obtain out ts ups where l: "write_coils_loop regs (BytesToBits d) start start (nat count) (srv_tags s) [] = (out, ts, ups)"
    by (cases "write_coils_loop regs (BytesToBits d) start start (nat count) (srv_tags s) []") auto
  from write_coils_loop_spec [OF _ l, of 0] obtain new where
    new: "ts = apply_points new (srv_tags s)" "ups = new" "coils_spec regs (BytesToBits d) start (nat count) out new" by auto
  have f: "finish_write ''coil_writes_count'' data count (out, apply_points new (srv_tags s), new) s = (Done (rep, Success), s')"
    using w regs range d l new by (simp add: writeCoilRegisters_def)
  have "out \<noteq> Done (Some Success)" using new(3) by auto
  with finish_write_result [OF f] have "out = Done None" by auto
  with new finish_write_frame [OF f] d show ?thesis by (auto simp: coil_tag_def)
qed

text \<open>Coils written are read back. After a successful write of multiple coils with distinct tags,
  a read of the same range returns the same bits, packed with zeros up to a full byte.\<close>

lemma write_coils_then_read:
  assumes "srv_registers s ''coil'' = Some regs" "req_range data = Some (start, count)"
    and "writeCoilRegisters data s = (Done (rep, Success), s')" "slice_from data 5 = Some d"
    and "distinct (map (coil_tag regs start) [0..<nat count])" "req_range data' = req_range data"
  shows "readCoilRegisters data' s' =
    (let bs = BitsToBytes (take (nat count) (BytesToBits d)) in Done (of_nat (length bs) # bs, Success))"
proof -
  have e: "nat count \<le> length (BytesToBits d)" "\<forall>i < nat count. regs (start + int i) \<noteq> None"
    "srv_tags s' = apply_points (map (\<lambda>i. point (coil_tag regs start i) (f64_of_int (BytesToBits d ! i))) [0..<nat count]) (srv_tags s)"
    using write_coils_effect [OF assms(1-3)] assms(4) by auto
  have "coil_loop regs (srv_tags s') start (nat count) = Some (take (nat count) (BytesToBits d))"
    unfolding e(3) by (rule coils_read_back [OF e(2) assms(5) e(1)])
  moreover have "srv_registers s' ''coil'' = Some regs" using wcs.frame [OF assms(3)] assms(1) by simp
  ultimately show ?thesis using assms(2,6) by (simp add: readCoilRegisters_def)
qed

lemma write_coils_then_read_witness:
  "let s = demo_server ''coil'' (demo_reg ''coil'' [] 7 0 0 ''breaker'');
       (out, s') = writeCoilRegisters \<lparr>visible = [0, 7, 0, 1, 1, 1], spare = []\<rparr> s
   in out = Done ([0, 7, 0, 1], Success) \<and>
      readCoilRegisters \<lparr>visible = [0, 7, 0, 1], spare = []\<rparr> s' = Done ([1, 1], Success)"
proof -
  let ?r = "demo_reg ''coil'' [] 7 0 0 ''breaker''"
  let ?s = "demo_server ''coil'' ?r" and ?data = "\<lparr>visible = [0, 7, 0, 1, 1, 1], spare = []\<rparr> :: gslice"
  have regs: "srv_registers ?s ''coil'' = Some [7 \<mapsto> ?r]" by (simp add: demo_server_simps) (simp add: demo_reg_def)
  have s: "srv_tags ?s = Map.empty" "srv_pusher ?s = demo_pusher" by (simp_all add: demo_server_simps)
  have range: "req_range ?data = Some (7, 1)" and d: "slice_from ?data 5 = Some [1]"
    by (simp_all add: req_range_def req_word_def slice_def get16_def be_decode_def slice_from_def)
  have bs: "BytesToBits [1] = [1, 0, 0, 0, 0, 0, 0, 0]"
    by (simp add: BytesToBits_Cons upt_conv_Cons)
  have fin: "f64_finite (f64_of_int 1)" using f64_of_int_exact(2) [of 1] by simp
  obtain s' where w: "writeCoilRegisters ?data ?s = (Done ([0, 7, 0, 1], Success), s')"
    using fin by (simp add: writeCoilRegisters_def regs range d bs finish_write_def publish_updates_def NewEnvelope_def
        points_finite_def point_def Push_def SendMessage_def s demo_sock Let_def)
  have "readCoilRegisters \<lparr>visible = [0, 7, 0, 1], spare = []\<rparr> s' =
      (let bs = BitsToBytes (take (nat 1) (BytesToBits [1])) in Done (of_nat (length bs) # bs, Success))"
    by (rule write_coils_then_read [OF regs range w d]) (simp_all add: range demo_frame_range)
  also have "\<dots> = Done ([1, 1], Success)" by (simp add: bs BitsToBytes_def bits_size_def)
  finally show ?thesis using w by simp
qed

section \<open>The server and the bus\<close>

text \<open>The points that messages of the bus announce, to a module that applies every update.\<close>

fun message_points :: "string \<times> payload \<Rightarrow> Point list" where
  "message_points (topic, P_Envelope env) = Updates (fst (env_Update env))"
| "message_points (topic, P_Text t) = []"

definition announced_points :: "(string \<times> payload) list \<Rightarrow> Point list" where
  "announced_points ms = concat (map message_points ms)"

lemma announces_points:
  assumes "announces ups s s'"
  shows "\<exists>ms. sent (srv_pusher s') = sent (srv_pusher s) @ ms \<and> announced_points ms = ups"
proof (cases "ups = []")
  case True
  with assms show ?thesis by (auto simp: announces_def announced_points_def)
next
  case False
  with assms obtain env where
    env: "NewEnvelope (srv_name s) (C_Update \<lparr>Updates = ups, up_recipient = [], up_confirm = []\<rparr>) = Inr env"
      "sent (srv_pusher s') = sent (srv_pusher s) @ [(''RUNTIME'', P_Envelope env)]"
    by (auto simp: announces_def)
  from env_Update_NewEnvelope [OF env(1)] have "announced_points [(''RUNTIME'', P_Envelope env)] = ups"
    by (simp add: announced_points_def)
  with env(2) show ?thesis by blast
qed

lemma handler_effect:
  assumes "function_handler impl code data s = Some (Done rep, s')"
  shows "s' = s \<or> (\<exists>ups. write_effect rep ups s s')"
proof -
  from assms consider "s' = s" | "writeCoilRegister impl data s = (Done rep, s')"
    | "writeHoldingRegister impl data s = (Done rep, s')"
    | "writeCoilRegisters data s = (Done rep, s')" | "writeHoldingRegisters impl data s = (Done rep, s')"
    unfolding function_handler_def by (simp split: if_splits)
  then show ?thesis
    by cases (simp, (drule ac.effect ah.effect acs.effect ahs.effect, simp)+)
qed

text \<open>C4: the bus mirrors the server. Whatever request a handler serves successfully, the messages it
  pushes carry exactly the changes of the tags: applying the announced points to the old tags gives the
  new ones. A request that ends in an exception pushes nothing.\<close>

theorem writes_mirrored:
  assumes "function_handler impl code data s = Some (Done (d, e), s')"
  shows "\<exists>ms. sent (srv_pusher s') = sent (srv_pusher s) @ ms \<and>
    (e = Success \<longrightarrow> srv_tags s' = apply_points (announced_points ms) (srv_tags s)) \<and>
    (e \<noteq> Success \<longrightarrow> ms = [])"
  using handler_effect [OF assms]
proof
  assume "s' = s"
  then show ?thesis by (simp add: announced_points_def)
next
  assume "\<exists>ups. write_effect (d, e) ups s s'"
  then show ?thesis by (auto simp: write_effect_def dest: announces_points split: if_splits)
qed

theorem writes_mirrored_witness:
  "\<exists>s' ms. function_handler demo_impl 16 \<lparr>visible = [0, 7, 0, 1, 2, 0xAB, 0xCD], spare = []\<rparr>
       (Server_start demo_pusher demo_configured) = Some (Done ([0, 7, 0, 1], Success), s') \<and>
     sent (srv_pusher s') = ms \<and>
     srv_tags s' = apply_points (announced_points ms) (srv_tags (Server_start demo_pusher demo_configured))"
proof -
  obtain s' where "function_handler demo_impl 16 \<lparr>visible = [0, 7, 0, 1, 2, 0xAB, 0xCD], spare = []\<rparr>
      (Server_start demo_pusher demo_configured) = Some (Done ([0, 7, 0, 1], Success), s')"
    using demo_write by (auto simp: function_handler_def)
  with writes_mirrored [OF this] show ?thesis by (auto simp: demo_start_fields demo_sock)
qed

lemma apply_points_last:
  "apply_points ps ts t = (case find (\<lambda>p. pt_tag p = t) (rev ps) of Some p \<Rightarrow> Some (pt_value p) | None \<Rightarrow> ts t)"
proof (induction ps rule: rev_induct)
  case (snoc p ps)
  then show ?case by (auto simp: apply_points_append)
qed simp

lemma status_from_other:
  assumes "NewEnvelope n (C_Status st) = Inr env" "n \<noteq> srv_name s"
  shows "srv_tags (handleMsgBusStatus env s) = apply_points (Measurements st) (srv_tags s)"
  using Sender_NewEnvelope [OF assms(1)] env_Status_NewEnvelope [OF assms(1)] assms(2)
  by (simp add: handleMsgBusStatus_def Let_def)

text \<open>The value of a tag after a list of measurements: the last one for the tag, or the old value.\<close>

definition measured :: "Point list \<Rightarrow> tags \<Rightarrow> tags" where
  "measured ms ts t = (case find (\<lambda>p. pt_tag p = t) (rev ms) of Some p \<Rightarrow> Some (pt_value p) | None \<Rightarrow> ts t)"

text \<open>A status reaches the Modbus client. After a status of another module, a read of input
  registers that tile its range returns, for each register, the encoding of the last measurement of
  its tag, or of the value it had when the status does not mention it.\<close>

lemma status_then_read:
  assumes "server_ok s" "NewEnvelope n (C_Status \<lparr>Measurements = ms\<rparr>) = Inr env" "n \<noteq> srv_name s"
    and "srv_registers s ''input'' = Some regs" "req_range data = Some (start, count)"
    and "tiles regs start (start + count) rs"
  shows "readInputRegisters impl data (handleMsgBusStatus env s) =
    Done (of_int (2 * words rs) # concat (map (encoding impl (measured ms (srv_tags s))) rs), Success)"
proof -
  let ?s = "handleMsgBusStatus env s"
  have "server_ok ?s" using assms(1) by (simp add: server_ok_def handleMsgBusStatus_frame)
  moreover have "srv_registers ?s ''input'' = Some regs" using assms(4) by (simp add: handleMsgBusStatus_frame)
  moreover have "srv_tags ?s = measured ms (srv_tags s)"
    by (rule ext) (simp add: status_from_other [OF assms(2,3)] apply_points_last measured_def)
  ultimately show ?thesis
    using read_registers_spec [of ?s "''input''" regs data start count impl] assms(5,6) tiles_unique [OF assms(6)]
    unfolding readInputRegisters_def by metis
qed

lemma status_then_read_witness:
  "\<exists>env. NewEnvelope ''rtu'' (C_Status \<lparr>Measurements = [point ''v'' (f64_of_int 5), point ''v'' (f64_of_int 6)]\<rparr>) = Inr env \<and>
     readInputRegisters demo_impl \<lparr>visible = [0, 7, 0, 1], spare = []\<rparr>
       (handleMsgBusStatus env (demo_server ''input'' (demo_reg ''input'' ''uint16'' 7 1 0 ''v''))) = Done ([2, 0, 6], Success)"
proof -
  let ?r = "demo_reg ''input'' ''uint16'' 7 1 0 ''v''"
  let ?s = "demo_server ''input'' ?r" and ?ms = "[point ''v'' (f64_of_int 5), point ''v'' (f64_of_int 6)]"
  have num: "numeric_reg ?r" "reg_datatype ?r = ''uint16''" "reg_scaling ?r = 0" "reg_tag ?r = ''v''"
    by (simp_all add: demo_reg_def numeric_reg_def)
  have ok: "server_ok ?s"
    by (rule demo_server_simps)
      (simp_all add: demo_reg_def reg_ok_def numeric_reg_def validRegisterTypes_def validDataTypes_def)
  have regs: "srv_registers ?s ''input'' = Some [7 \<mapsto> ?r]" by (simp add: demo_server_simps) (simp add: demo_reg_def)
  have "points_finite ?ms" using f64_of_int_exact(2) [of 5] f64_of_int_exact(2) [of 6]
    by (simp add: points_finite_def point_def)
  then obtain env where env: "NewEnvelope ''rtu'' (C_Status \<lparr>Measurements = ?ms\<rparr>) = Inr env"
    using NewEnvelope_fails_iff(1) [of "''rtu''" "\<lparr>Measurements = ?ms\<rparr>"] by auto
  have "readInputRegisters demo_impl \<lparr>visible = [0, 7, 0, 1], spare = []\<rparr> (handleMsgBusStatus env ?s) =
      Done (of_int (2 * words [?r]) # concat (map (encoding demo_impl (measured ?ms (srv_tags ?s))) [?r]), Success)"
    by (rule status_then_read [OF ok env _ regs demo_frame_range(1)])
      (simp_all add: demo_server_simps, simp_all add: demo_reg_def)
  moreover have "encoding demo_impl (measured ?ms (srv_tags ?s)) ?r = [0, 6]"
    using scale_none_int(1) [OF num(3), of 6 demo_impl] f64_to_int_of_int [of 6 False 16 demo_impl]
    by (simp add: encoding_def num(4) measured_def point_def lookup0_def Register_Bytes_numeric(2) [OF num(1,2)]
        int_fits_def put16_def be_encode_def upt_conv_Cons)
  ultimately show ?thesis using env by (simp add: demo_reg_def)
qed

text \<open>A status whose value cannot be decoded still overwrites its tag. The server logs the error
  and applies what was decoded, which is zero.\<close>

lemma malformed_status_zeroes_tag:
  assumes "Sender env \<noteq> srv_name s" "env_kind env = ENVELOPE_STATUS"
    and "env_contents env = Some (JObject [(''measurements'', JArray [JObject [(''tag'', JString t), (''value'', JString x)]])])"
  shows "snd (env_Status env) = Some ErrUnmarshal \<and>
    srv_tags (handleMsgBusStatus env s) = (srv_tags s)(t \<mapsto> f64_zero)"
proof -
  have "env_Status env = (\<lparr>Measurements = [\<lparr>pt_tag = t, pt_value = 0, pt_ts = 0\<rparr>]\<rparr>, Some ErrUnmarshal)"
    using assms(2,3) by (simp add: env_Status_def access_def dec_status_def dec_point_def dec_simps zero_point_def)
  with assms(1) show ?thesis by (simp add: handleMsgBusStatus_def Let_def f64_zero_def)
qed

lemma malformed_status_zeroes_tag_witness:
  "srv_tags (handleMsgBusStatus
      \<lparr>env_version = ''v1'', env_kind = ENVELOPE_STATUS, env_metadata = [(''sender'', ''dnp3'')],
       env_contents = Some (JObject [(''measurements'', JArray [JObject [(''tag'', JString ''v''), (''value'', JString ''x'')]])])\<rparr>
      (demo_server ''coil'' (demo_reg ''coil'' [] 7 0 0 ''v''))) = [''v'' \<mapsto> f64_zero]"
  using malformed_status_zeroes_tag [of "\<lparr>env_version = ''v1'', env_kind = ENVELOPE_STATUS, env_metadata = [(''sender'', ''dnp3'')],
       env_contents = Some (JObject [(''measurements'', JArray [JObject [(''tag'', JString ''v''), (''value'', JString ''x'')]])])\<rparr>"
       "demo_server ''coil'' (demo_reg ''coil'' [] 7 0 0 ''v'')" "''v''" "''x''"]
  by (simp add: Sender_def demo_server_simps)

section \<open>Configuration\<close>

text \<open>The register elements of a configuration, parsed in document order.\<close>

definition declared :: "go_impl \<Rightarrow> element list \<Rightarrow> Register list" where
  "declared impl es =
     List.map_filter (\<lambda>e. if Tag e = ''register''
                          then (case parse_register impl e of Inl _ \<Rightarrow> None | Inr r \<Rightarrow> Some r) else None) es"

definition register_at :: "ModbusServer \<Rightarrow> string \<Rightarrow> int \<Rightarrow> Register option" where
  "register_at s t a = (case srv_registers s t of None \<Rightarrow> None | Some regs \<Rightarrow> regs a)"

lemma declared_Cons:
  "declared impl (e # es) = declared impl [e] @ declared impl es"
  by (simp add: declared_def map_filter_simps split: option.split)

lemma register_at_add:
  "register_at (add_register r s) t a = (if reg_type r = t \<and> reg_addr r = a then Some r else register_at s t a)"
  by (auto simp: register_at_def add_register_def Let_def split: option.split)

lemma configure_child_registers:
  assumes "configure_child impl e s = Inr s'"
  shows "(Tag e \<noteq> ''register'' \<and> declared impl [e] = [] \<and> srv_registers s' = srv_registers s \<and> srv_tags s' = srv_tags s) \<or>
    (\<exists>r. declared impl [e] = [r] \<and> s' = add_register r s)"
proof (cases "Tag e = ''register''")
  case True
  with assms show ?thesis by (auto simp: configure_child_def declared_def map_filter_simps split: sum.splits)
next
  case False
  with assms have "srv_registers s' = srv_registers s \<and> srv_tags s' = srv_tags s"
    unfolding configure_child_def set_int_def by (auto split: if_splits prod.splits sum.splits)
  with False show ?thesis by (simp add: declared_def map_filter_simps)
qed

lemma Server_Configure_registers:
  "Server_Configure impl es s = Inr s' \<Longrightarrow>
    (\<forall>t a. register_at s' t a =
       (case find (\<lambda>r. reg_type r = t \<and> reg_addr r = a) (rev (declared impl es)) of
          Some r \<Rightarrow> Some r | None \<Rightarrow> register_at s t a)) \<and>
    (\<forall>t. srv_tags s' t = (if t \<in> reg_tag ` set (declared impl es) then Some f64_zero else srv_tags s t))"
proof (induction es arbitrary: s)
  case Nil
  then show ?case by (simp add: declared_def map_filter_simps)
next
  case (Cons e es)
  then obtain s1 where s1: "configure_child impl e s = Inr s1" "Server_Configure impl es s1 = Inr s'"
    by (auto split: sum.splits)
  note IH = Cons.IH [OF s1(2)]
  from configure_child_registers [OF s1(1)] show ?case
  proof (elim disjE exE conjE)
    assume "declared impl [e] = []" "srv_registers s1 = srv_registers s" "srv_tags s1 = srv_tags s"
    moreover from this have "register_at s1 = register_at s" by (intro ext) (simp add: register_at_def)
    ultimately show ?thesis using IH by (subst (1 2) declared_Cons) (simp split: option.split)
  next
    fix r
    assume r: "declared impl [e] = [r]" "s1 = add_register r s"
    have "srv_tags s1 t = (if t = reg_tag r then Some f64_zero else srv_tags s t)" for t
      using r(2) by (simp add: add_register_def Let_def)
    with IH r show ?thesis
      by (subst (1 2) declared_Cons) (auto simp: register_at_add find_append split: option.split)
  qed
qed

text \<open>C15: a configuration that is accepted declares the registers. Under each type and address the
  server keeps the last register element declared there and nothing else, every register is
  well-formed, and the tags are exactly those of the declared registers, all zero.\<close>

theorem configured_registers:
  assumes "Server_Configure impl es (NewServer n p) = Inr s"
  shows "register_at s t a = find (\<lambda>r. reg_type r = t \<and> reg_addr r = a) (rev (declared impl es)) \<and>
    srv_tags s = (\<lambda>t. if t \<in> reg_tag ` set (declared impl es) then Some f64_zero else None) \<and> server_ok s"
  using Server_Configure_registers [OF assms] Server_Configure_ok [OF NewServer_ok assms]
  by (auto simp: NewServer_def register_at_def split: option.splits)

theorem configured_registers_witness:
  "register_at demo_configured ''holding'' 7 =
     find (\<lambda>r. reg_type r = ''holding'' \<and> reg_addr r = 7) (rev (declared demo_impl demo_xml)) \<and>
   srv_tags demo_configured =
     (\<lambda>t. if t \<in> reg_tag ` set (declared demo_impl demo_xml) then Some f64_zero else None) \<and> server_ok demo_configured"
  by (rule configured_registers [OF demo_configured_ok(1)])

end
