(* ===== verification/ModbusClient.thy ===== *)
theory ModbusClient
  imports ModbusServer "HOL-Library.Sublist"
begin

text \<open>
  The package modbus/client: the client's configuration, the polling of the remote
  registers and the writes that updates on the bus cause; and the factory of
  modbus.go. The Modbus library is a parameter: a record of its operations on a
  state of the remote device.
\<close>

record 'd modbus_api =
  ReadCoils :: "uint16 \<Rightarrow> uint16 \<Rightarrow> 'd \<Rightarrow> byte list result \<times> 'd"
  ReadDiscreteInputs :: "uint16 \<Rightarrow> uint16 \<Rightarrow> 'd \<Rightarrow> byte list result \<times> 'd"
  ReadInputRegisters :: "uint16 \<Rightarrow> uint16 \<Rightarrow> 'd \<Rightarrow> byte list result \<times> 'd"
  ReadHoldingRegisters :: "uint16 \<Rightarrow> uint16 \<Rightarrow> 'd \<Rightarrow> byte list result \<times> 'd"
  WriteSingleCoil :: "uint16 \<Rightarrow> uint16 \<Rightarrow> 'd \<Rightarrow> byte list result \<times> 'd"
  WriteMultipleRegisters :: "uint16 \<Rightarrow> uint16 \<Rightarrow> byte list \<Rightarrow> 'd \<Rightarrow> byte list result \<times> 'd"

section \<open>State and configuration\<close>

record ModbusClient =
  cl_pull_endpoint :: string
  cl_pub_endpoint :: string
  cl_pusher :: Pusher
  cl_name :: string
  cl_id :: int
  cl_endpoint :: string
  cl_serial :: "SerialConfig option"
  cl_period :: int
  cl_registers :: "string \<rightharpoonup> Register"

definition NewClient :: "string \<Rightarrow> Pusher \<Rightarrow> ModbusClient" where
  "NewClient name p =
     \<lparr>cl_pull_endpoint = [], cl_pub_endpoint = [], cl_pusher = p, cl_name = name, cl_id = 1,
      cl_endpoint = [], cl_serial = None, cl_period = 5 * 10 ^ 9, cl_registers = Map.empty\<rparr>"

definition client_child :: "go_impl \<Rightarrow> element \<Rightarrow> ModbusClient \<Rightarrow> ModbusClient result" where
  "client_child impl child c =
     (if Tag child = ''pull-endpoint'' then Inr (c\<lparr>cl_pull_endpoint := Text child\<rparr>)
      else if Tag child = ''pub-endpoint'' then Inr (c\<lparr>cl_pub_endpoint := Text child\<rparr>)
      else if Tag child = ''unit-id'' then
        set_int ''invalid unit ID'' (Text child) (\<lambda>v. c\<lparr>cl_id := v\<rparr>)
      else if Tag child = ''endpoint'' then Inr (c\<lparr>cl_endpoint := Text child\<rparr>)
      else if Tag child = ''serial'' then
        (case serial_options impl (ChildElements child) (default_serial (5 * 10 ^ 9)) of
           Inl err \<Rightarrow> Inl err
         | Inr sc \<Rightarrow> Inr (c\<lparr>cl_serial := Some sc\<rparr>))
      else if Tag child = ''period'' then
        (case ParseDuration impl (Text child) of
           None \<Rightarrow> Inl ''invalid period''
         | Some d \<Rightarrow> Inr (c\<lparr>cl_period := d\<rparr>))
      else if Tag child = ''register'' then
        (case parse_register impl child of
           Inl err \<Rightarrow> Inl err
         | Inr r \<Rightarrow> Inr (c\<lparr>cl_registers := (cl_registers c)(reg_tag r \<mapsto> r)\<rparr>))
      else Inr c)"

fun Client_Configure :: "go_impl \<Rightarrow> element list \<Rightarrow> ModbusClient \<Rightarrow> ModbusClient result" where
  "Client_Configure impl [] c = Inr c"
| "Client_Configure impl (e # es) c =
     (case client_child impl e c of Inl err \<Rightarrow> Inl err | Inr c' \<Rightarrow> Client_Configure impl es c')"

definition getEndpoint :: "ModbusClient \<Rightarrow> string result" where
  "getEndpoint c =
     (if cl_endpoint c \<noteq> [] \<and> cl_serial c \<noteq> None then
        Inl ''cannot provide both endpoint and serial configuration options''
      else if cl_endpoint c \<noteq> [] then Inr (cl_endpoint c)
      else case cl_serial c of
             Some sc \<Rightarrow> Inr (ser_address sc)
           | None \<Rightarrow> Inl ''must provide either endpoint or serial configuration option'')"

text \<open>
  The set-up part of Run: the endpoints of the bus that are used, and the handler for
  the remote device with the unit identifier cut to a byte.
\<close>

datatype client_handler = TCPClientHandler string byte | RTUClientHandler SerialConfig byte

definition Client_start ::
  "string \<Rightarrow> string \<Rightarrow> (string \<Rightarrow> Pusher) \<Rightarrow> ModbusClient
     \<Rightarrow> (string \<times> client_handler \<times> ModbusClient) result outcome" where
  "Client_start pubEndpoint pullEndpoint new_pusher c =
     (case getEndpoint c of
        Inl err \<Rightarrow> Done (Inl err)
      | Inr _ \<Rightarrow>
          let pubE = (if cl_pub_endpoint c \<noteq> [] then cl_pub_endpoint c else pubEndpoint);
              pullE = (if cl_pull_endpoint c \<noteq> [] then cl_pull_endpoint c else pullEndpoint);
              c' = c\<lparr>cl_pusher := new_pusher pullE\<rparr>
          in if cl_endpoint c \<noteq> [] then Done (Inr (pubE, TCPClientHandler (cl_endpoint c) (of_int (cl_id c)), c'))
             else case cl_serial c of
                    Some sc \<Rightarrow> Done (Inr (pubE, RTUClientHandler sc (of_int (cl_id c)), c'))
                  | None \<Rightarrow> Panic)"

section \<open>Polling\<close>

text \<open>The bytes of one register; none when reading them failed. A type the switch does not name
  leaves the bytes empty.\<close>

definition read_remote :: "'d modbus_api \<Rightarrow> Register \<Rightarrow> 'd \<Rightarrow> byte list result \<times> 'd" where
  "read_remote api r d =
     (let addr = of_int (reg_addr r); count = of_int (reg_count r)
      in if reg_type r = ''coil'' then ReadCoils api addr 1 d
         else if reg_type r = ''discrete'' then ReadDiscreteInputs api addr 1 d
         else if reg_type r = ''input'' then ReadInputRegisters api addr count d
         else if reg_type r = ''holding'' then ReadHoldingRegisters api addr count d
         else (Inr [], d))"

text \<open>The loop over the registers. Go visits the map in any order: tags is the order of this
  visit.\<close>

fun poll_loop ::
  "go_impl \<Rightarrow> 'd modbus_api \<Rightarrow> (string \<rightharpoonup> Register) \<Rightarrow> string list \<Rightarrow> 'd \<Rightarrow> Point list \<Rightarrow> Point list outcome \<times> 'd" where
  "poll_loop impl api regs [] d points = (Done points, d)"
| "poll_loop impl api regs (tag # ks) d points =
     (case regs tag of
        None \<Rightarrow> poll_loop impl api regs ks d points
      | Some r \<Rightarrow>
          (case read_remote api r d of
             (Inl err, d') \<Rightarrow> poll_loop impl api regs ks d' points
           | (Inr data, d') \<Rightarrow>
               (case Register_Value impl r data of
                  Done (Inr v) \<Rightarrow> poll_loop impl api regs ks d' (points @ [point tag v])
                | Done (Inl err) \<Rightarrow> poll_loop impl api regs ks d' points
                | Panic \<Rightarrow> (Panic, d')
                | Diverge \<Rightarrow> (Diverge, d'))))"

definition connected_point :: "string \<Rightarrow> bool \<Rightarrow> Point" where
  "connected_point name up = point (name @ ''.connected'') (if up then f64_one else f64_zero)"

definition poll_tick ::
  "go_impl \<Rightarrow> 'd modbus_api \<Rightarrow> string list \<Rightarrow> ModbusClient \<times> 'd \<Rightarrow> (ModbusClient \<times> 'd) outcome" where
  "poll_tick impl api tags st =
     (case st of (c, d) \<Rightarrow>
        (case poll_loop impl api (cl_registers c) tags d [] of
           (Done points, d') \<Rightarrow>
             let points' = points @ [connected_point (cl_name c) (points \<noteq> [])]
             in (case NewEnvelope (cl_name c) (C_Status \<lparr>Measurements = points'\<rparr>) of
                   Inl err \<Rightarrow> Done (c, d')
                 | Inr env \<Rightarrow> Done (c\<lparr>cl_pusher := snd (Push ''RUNTIME'' env (cl_pusher c))\<rparr>, d'))
         | (Panic, d') \<Rightarrow> Panic
         | (Diverge, d') \<Rightarrow> Diverge))"

section \<open>Updates\<close>

definition write_remote :: "go_impl \<Rightarrow> 'd modbus_api \<Rightarrow> Register \<Rightarrow> float64 \<Rightarrow> 'd \<Rightarrow> 'd" where
  "write_remote impl api r value d =
     (if reg_type r = ''coil'' then
        (let v = (if \<not> f64_eq value f64_zero then f64_of_int 65280 else value)
         in snd (WriteSingleCoil api (of_int (reg_addr r)) (of_int (f64_to_int impl False 16 v)) d))
      else if reg_type r = ''holding'' then
        (case Register_Bytes impl r value of
           Inl err \<Rightarrow> d
         | Inr data \<Rightarrow> snd (WriteMultipleRegisters api (of_int (reg_addr r)) (of_int (reg_count r)) data d))
      else d)"

fun apply_updates :: "go_impl \<Rightarrow> 'd modbus_api \<Rightarrow> (string \<rightharpoonup> Register) \<Rightarrow> Point list \<Rightarrow> 'd \<Rightarrow> 'd" where
  "apply_updates impl api regs [] d = d"
| "apply_updates impl api regs (p # ps) d =
     apply_updates impl api regs ps
       (case regs (pt_tag p) of None \<Rightarrow> d | Some r \<Rightarrow> write_remote impl api r (pt_value p) d)"

definition handleMsgBusUpdate ::
  "go_impl \<Rightarrow> 'd modbus_api \<Rightarrow> Envelope \<Rightarrow> ModbusClient \<times> 'd \<Rightarrow> ModbusClient \<times> 'd" where
  "handleMsgBusUpdate impl api env st =
     (case st of (c, d) \<Rightarrow>
        if Sender env = cl_name c then st
        else (case env_Update env of
                (update, Some err) \<Rightarrow> st
              | (update, None) \<Rightarrow> (c, apply_updates impl api (cl_registers c) (Updates update) d)))"

section \<open>modbus.go\<close>

datatype modbus_module = MServer ModbusServer | MClient ModbusClient

definition NewModule :: "Pusher \<Rightarrow> element \<Rightarrow> modbus_module result" where
  "NewModule p e =
     (let mode = map to_lower_char (SelectAttrValue e ''mode'' ''server'')
      in if mode = ''server'' then Inr (MServer (NewServer (SelectAttrValue e ''name'' ''modbus-server'') p))
         else if mode = ''client'' then Inr (MClient (NewClient (SelectAttrValue e ''name'' ''modbus-client'') p))
         else Inl ''unknown mode provided for Modbus module'')"

section \<open>Invariant\<close>

text \<open>Every register of a client is initialised and filed under its own tag.\<close>

definition client_ok :: "ModbusClient \<Rightarrow> bool" where
  "client_ok c \<longleftrightarrow> (\<forall>t r. cl_registers c t = Some r \<longrightarrow> reg_ok r \<and> reg_tag r = t)"

lemma client_child_ok: "client_ok c \<Longrightarrow> client_child impl e c = Inr c' \<Longrightarrow> client_ok c'"
  unfolding client_child_def set_int_def
  by (auto simp: client_ok_def split: if_splits sum.splits option.splits prod.splits dest: parse_register_ok)

lemma Client_Configure_ok: "client_ok c \<Longrightarrow> Client_Configure impl es c = Inr c' \<Longrightarrow> client_ok c'"
  by (induction impl es c rule: Client_Configure.induct) (auto split: sum.splits dest: client_child_ok)

lemma NewClient_ok: "client_ok (NewClient n p)"
  by (simp add: client_ok_def NewClient_def)

interpretation cl: bus_handler "\<lambda>st. cl_name (fst st)" "handleMsgBusUpdate impl api" for impl api
  by unfold_locales (auto simp: handleMsgBusUpdate_def split: prod.splits option.splits)

section \<open>Starting\<close>

text \<open>The client starts exactly when it has one way to reach its device. With an endpoint or a
  serial port, and not both, Run sets up the matching handler; otherwise it returns an error. The
  panic in Run is never reached.\<close>

lemma client_start_total:
  "if (cl_endpoint c \<noteq> []) = (cl_serial c \<noteq> None)
   then \<exists>err. Client_start pub pull np c = Done (Inl err)
   else \<exists>pubE c'. Client_start pub pull np c =
          Done (Inr (pubE, (case cl_serial c of
                              None \<Rightarrow> TCPClientHandler (cl_endpoint c) (of_int (cl_id c))
                            | Some sc \<Rightarrow> RTUClientHandler sc (of_int (cl_id c))), c')) \<and>
        cl_registers c' = cl_registers c \<and> cl_name c' = cl_name c"
  by (auto simp: Client_start_def getEndpoint_def Let_def split: option.splits)

section \<open>What a poll reports\<close>

text \<open>What the client relies on: a successful read of a coil or a discrete input has a byte.\<close>

definition api_bits :: "'d modbus_api \<Rightarrow> bool" where
  "api_bits api \<longleftrightarrow>
     (\<forall>a d. fst (ReadCoils api a 1 d) \<noteq> Inr [] \<and> fst (ReadDiscreteInputs api a 1 d) \<noteq> Inr [])"

lemma remote_value_done:
  assumes "api_bits api" "reg_ok r" "read_remote api r d = (Inr data, d')"
  shows "\<exists>x. Register_Value impl r data = Done x"
proof (cases "numeric_reg r")
  case True
  with assms(2) show ?thesis by (rule Register_Value_total(2))
next
  case False
  with assms(2) have t: "reg_type r = ''coil'' \<or> reg_type r = ''discrete''"
    by (auto simp: reg_ok_def numeric_reg_def validRegisterTypes_def)
  with assms(1,3) have "data \<noteq> []"
    unfolding api_bits_def read_remote_def
    by (auto simp: Let_def dest: spec [of _ "of_int (reg_addr r)"]) (metis fst_conv)+
  then have "0 < length (BytesToBits data)" by (simp add: BytesToBits_length)
  with t show ?thesis by (cases "BytesToBits data") (auto simp: Register_Value_def)
qed

text \<open>The value of a register that the device gives, if the request succeeds and the data can be decoded. A round over the tags
  in an order takes the device through a list of states, one request after the other, and its points are the values
  that the device gave, in this order.\<close>

definition remote_value :: "go_impl \<Rightarrow> 'd modbus_api \<Rightarrow> Register \<Rightarrow> 'd \<Rightarrow> float64 option" where
  "remote_value impl api r d =
     (case fst (read_remote api r d) of
        Inl err \<Rightarrow> None
      | Inr data \<Rightarrow> (case Register_Value impl r data of Done (Inr v) \<Rightarrow> Some v | _ \<Rightarrow> None))"

definition request_state :: "'d modbus_api \<Rightarrow> (string \<rightharpoonup> Register) \<Rightarrow> string \<Rightarrow> 'd \<Rightarrow> 'd" where
  "request_state api regs tag d = (case regs tag of None \<Rightarrow> d | Some r \<Rightarrow> snd (read_remote api r d))"

definition request_points :: "go_impl \<Rightarrow> 'd modbus_api \<Rightarrow> (string \<rightharpoonup> Register) \<Rightarrow> string \<Rightarrow> 'd \<Rightarrow> Point list" where
  "request_points impl api regs tag d =
     (case regs tag of
        None \<Rightarrow> []
      | Some r \<Rightarrow> (case remote_value impl api r d of None \<Rightarrow> [] | Some v \<Rightarrow> [point tag v]))"

definition reads_device ::
  "go_impl \<Rightarrow> 'd modbus_api \<Rightarrow> (string \<rightharpoonup> Register) \<Rightarrow> string list \<Rightarrow> 'd list \<Rightarrow> Point list \<Rightarrow> bool" where
  "reads_device impl api regs tags ds points \<longleftrightarrow>
     length ds = length tags + 1 \<and> (\<forall>i < length tags. ds ! (i + 1) = request_state api regs (tags ! i) (ds ! i)) \<and>
     points = concat (map (\<lambda>i. request_points impl api regs (tags ! i) (ds ! i)) [0..<length tags])"

lemma reads_device_Cons:
  assumes "reads_device impl api regs ks ds points" "ds \<noteq> []" "hd ds = request_state api regs tag d"
  shows "reads_device impl api regs (tag # ks) (d # ds) (request_points impl api regs tag d @ points)"
proof -
  have up: "[0..<Suc n] = 0 # map Suc [0..<n]" for n by (simp add: upt_conv_Cons map_Suc_upt del: upt_Suc)
  have "(d # ds) ! Suc i = request_state api regs ((tag # ks) ! i) ((d # ds) ! i)" if "i < Suc (length ks)" for i
    using that assms by (cases i) (simp_all add: reads_device_def hd_conv_nth)
  with assms(1) show ?thesis by (simp add: reads_device_def up comp_def del: upt_Suc)
qed

lemma poll_loop_done:
  assumes "api_bits api" "\<forall>r \<in> ran regs. reg_ok r"
  shows "\<exists>new ds. poll_loop impl api regs tags d points = (Done (points @ new), last ds) \<and>
    ds \<noteq> [] \<and> hd ds = d \<and> reads_device impl api regs tags ds new"
proof (induction tags arbitrary: d points)
  case Nil
  show ?case by (auto simp: reads_device_def intro!: exI [of _ "[d]"])
next
  case (Cons tag ks)
  let ?d = "request_state api regs tag d" and ?new = "request_points impl api regs tag d"
  have not_stuck: "Register_Value impl r data \<noteq> Panic \<and> Register_Value impl r data \<noteq> Diverge"
    if "regs tag = Some r" "read_remote api r d = (Inr data, d')" for r data d'
    using remote_value_done [OF assms(1) _ that(2), of impl] assms(2) that(1) by (auto simp: ran_def)
  have "poll_loop impl api regs (tag # ks) d points = poll_loop impl api regs ks ?d (points @ ?new)"
    by (auto simp: request_state_def request_points_def remote_value_def dest: not_stuck split: option.split prod.split sum.split outcome.split)
  moreover obtain new ds where r: "poll_loop impl api regs ks ?d (points @ ?new) = (Done ((points @ ?new) @ new), last ds)"
    "ds \<noteq> []" "hd ds = ?d" "reads_device impl api regs ks ds new" using Cons.IH by blast
  ultimately show ?case
    using reads_device_Cons [OF r(4,2,3)] by (intro exI [of _ "?new @ new"] exI [of _ "d # ds"]) simp
qed

lemma subseq_distinct: "subseq xs ys \<Longrightarrow> distinct ys \<Longrightarrow> set xs \<subseteq> set ys \<and> distinct xs"
  by (induction rule: list_emb.induct) auto

lemma reads_device_tags:
  assumes "reads_device impl api regs tags ds points" "distinct tags"
  shows "distinct (map pt_tag points)" "pt_tag ` set points \<subseteq> dom regs"
proof -
  let ?f = "\<lambda>i. request_points impl api regs (tags ! i) (ds ! i)"
  have p: "points = concat (map ?f [0..<length tags])" using assms(1) by (simp add: reads_device_def)
  have f: "subseq (map pt_tag (?f i)) [tags ! i] \<and> pt_tag ` set (?f i) \<subseteq> dom regs" for i
    by (cases "regs (tags ! i)") (simp_all add: request_points_def point_def domIff split: option.split)
  have "subseq (map pt_tag (concat (map ?f is))) (map ((!) tags) is)" for "is"
  proof (induction "is")
    case (Cons i "is")
    from list_emb_append_mono [OF conjunct1 [OF f [of i]] Cons] show ?case by simp
  qed simp
  from this [of "[0..<length tags]"] have "subseq (map pt_tag points) tags" by (simp add: p map_nth)
  then show "distinct (map pt_tag points)" using subseq_distinct assms(2) by blast
  show "pt_tag ` set points \<subseteq> dom regs" unfolding p set_concat set_map using f by blast
qed

text \<open>A poll never crashes the client and reports the state of the connection. Each period it
  pushes at most one status; the status has the values that the device gave for its registers, in the order they were
  visited and without repeating one, and then the point that says the device is connected, which is 1
  exactly when a register was read. Nothing is pushed only if a value has no JSON form or the bus refuses.\<close>

lemma poll_reports:
  assumes "client_ok c" "api_bits api" "distinct tags"
  shows "\<exists>c' ds points. poll_tick impl api tags (c, d) = Done (c', last ds) \<and> ds \<noteq> [] \<and> hd ds = d \<and>
    reads_device impl api (cl_registers c) tags ds points \<and>
    cl_registers c' = cl_registers c \<and> distinct (map pt_tag points) \<and> pt_tag ` set points \<subseteq> dom (cl_registers c) \<and>
    (let status = \<lparr>Measurements = points @ [connected_point (cl_name c) (points \<noteq> [])]\<rparr>
     in if points_finite points \<and> sock (cl_pusher c) (attempts (cl_pusher c))
        then \<exists>env. sent (cl_pusher c') = sent (cl_pusher c) @ [(''RUNTIME'', P_Envelope env)] \<and>
                   Sender env = cl_name c \<and> env_Status env = (status, None)
        else sent (cl_pusher c') = sent (cl_pusher c))"
proof -
  have regs: "\<forall>r \<in> ran (cl_registers c). reg_ok r" using assms(1) by (auto simp: client_ok_def ran_def)
  from poll_loop_done [OF assms(2) regs, where impl = impl and tags = tags and d = d and points = "[]"] obtain points ds where
    p: "poll_loop impl api (cl_registers c) tags d [] = (Done points, last ds)"
      "ds \<noteq> []" "hd ds = d" "reads_device impl api (cl_registers c) tags ds points" by auto
  note dist = reads_device_tags [OF p(4) assms(3)]
  let ?st = "\<lparr>Measurements = points @ [connected_point (cl_name c) (points \<noteq> [])]\<rparr>"
  have fin: "points_finite (Measurements ?st) \<longleftrightarrow> points_finite points"
    by (simp add: points_finite_def connected_point_def point_def f64_finite_def f64_mag_def f64_inf_mag_def
        f64_one_def f64_zero_def)
  show ?thesis
  proof (cases "NewEnvelope (cl_name c) (C_Status ?st)")
    case (Inl err)
    then have "\<not> points_finite points"
      using fin NewEnvelope_fails_iff(1) [of "cl_name c" ?st] by auto
    with Inl p dist show ?thesis
      by (intro exI [of _ c] exI [of _ ds] exI [of _ points]) (simp add: poll_tick_def)
  next
    case (Inr env)
    then have "points_finite points"
      using fin NewEnvelope_fails_iff(1) [of "cl_name c" ?st] by auto
    with Inr p dist show ?thesis
      using Sender_NewEnvelope [OF Inr] env_Status_NewEnvelope [OF Inr]
      by (intro exI [of _ "c\<lparr>cl_pusher := snd (Push ''RUNTIME'' env (cl_pusher c))\<rparr>"] exI [of _ ds] exI [of _ points])
        (simp add: poll_tick_def Push_def SendMessage_def)
  qed
qed

text \<open>A device that refuses every request, to evaluate instances on.\<close>

definition dead_device :: "unit modbus_api" where
  "dead_device =
     \<lparr>ReadCoils = (\<lambda>_ _ d. (Inl ''timeout'', d)), ReadDiscreteInputs = (\<lambda>_ _ d. (Inl ''timeout'', d)),
      ReadInputRegisters = (\<lambda>_ _ d. (Inl ''timeout'', d)), ReadHoldingRegisters = (\<lambda>_ _ d. (Inl ''timeout'', d)),
      WriteSingleCoil = (\<lambda>_ _ d. (Inl ''timeout'', d)), WriteMultipleRegisters = (\<lambda>_ _ _ d. (Inl ''timeout'', d))\<rparr>"

definition demo_client :: ModbusClient where
  "demo_client = (NewClient ''mc'' \<lparr>sock = (\<lambda>_. True), attempts = 0, sent = []\<rparr>)
     \<lparr>cl_registers := [''v'' \<mapsto> demo_reg ''holding'' ''uint16'' 7 1 0 ''v'']\<rparr>"

lemma demo_client_ok: "client_ok demo_client"
  by (simp add: client_ok_def demo_client_def demo_reg_def reg_ok_def numeric_reg_def validRegisterTypes_def validDataTypes_def)

section \<open>What an update writes\<close>

definition writable :: "(string \<rightharpoonup> Register) \<Rightarrow> string \<Rightarrow> bool" where
  "writable regs t = (case regs t of None \<Rightarrow> False | Some r \<Rightarrow> reg_type r = ''coil'' \<or> reg_type r = ''holding'')"

lemma apply_updates_writable:
  "apply_updates impl api regs ps d = apply_updates impl api regs (filter (\<lambda>p. writable regs (pt_tag p)) ps) d"
  by (induction ps arbitrary: d) (auto simp: writable_def write_remote_def split: option.splits)

text \<open>C25: an update touches the device only through writable registers. Points for unknown tags, inputs
  and discrete inputs, updates the client sent itself, malformed updates and other messages
  leave the device alone, and no update changes the client.\<close>

theorem updates_only_writable:
  "fst (handleMsgBusUpdate impl api env (c, d)) = c \<and>
   snd (handleMsgBusUpdate impl api env (c, d)) =
     (if Sender env \<noteq> cl_name c \<and> snd (env_Update env) = None
      then apply_updates impl api (cl_registers c)
             (filter (\<lambda>p. writable (cl_registers c) (pt_tag p)) (Updates (fst (env_Update env)))) d
      else d)"
  by (simp add: handleMsgBusUpdate_def apply_updates_writable [symmetric] split: prod.splits option.splits)

end
