(* ===== verification/ModbusLink.thy ===== *)
theory ModbusLink
  imports ModbusServerCorrect ModbusClient
begin

text \<open>
  A client of this program talking to a server of this program. The Modbus library
  carries the requests: what is assumed of it is the frame format of the protocol and
  that it hands the server's answer back.
\<close>

definition read_frame :: "uint16 \<Rightarrow> uint16 \<Rightarrow> gslice" where
  "read_frame a n = \<lparr>visible = put16 a @ put16 n, spare = []\<rparr>"

definition write_frame :: "uint16 \<Rightarrow> uint16 \<Rightarrow> byte list \<Rightarrow> gslice" where
  "write_frame a n data = \<lparr>visible = put16 a @ put16 n @ [of_nat (length data)] @ data, spare = []\<rparr>"

text \<open>
  The library sends a multiple write of at most 123 words as address, quantity, byte count
  and data, and a read of at most 125 words as address and quantity, the bounds of the
  protocol, and it returns the data of a successful reply whose length is the one it asked for.
\<close>

definition carries :: "go_impl \<Rightarrow> ModbusServer modbus_api \<Rightarrow> bool" where
  "carries impl api \<longleftrightarrow>
     (\<forall>a n data s rep s'. 1 \<le> unat n \<and> unat n \<le> 123 \<longrightarrow>
        writeHoldingRegisters impl (write_frame a n data) s = (Done (rep, Success), s') \<longrightarrow>
        snd (WriteMultipleRegisters api a n data s) = s') \<and>
     (\<forall>a n s d. 1 \<le> unat n \<and> unat n \<le> 125 \<longrightarrow>
        readHoldingRegisters impl (read_frame a n) s = Done (of_nat (length d) # d, Success) \<longrightarrow>
        length d = 2 * unat n \<longrightarrow> ReadHoldingRegisters api a n s = (Inr d, s))"

lemma put16_length [simp]: "length (put16 w) = 2"
  by (rule u16.enc_length)

lemma frame_ranges:
  "req_range (read_frame a n) = Some (uint a, uint n)"
  "req_range (write_frame a n data) = Some (uint a, uint n)"
  "drop 5 (backing (write_frame a n data)) = data"
  "5 \<le> length (backing (write_frame a n data))"
  by (simp_all add: read_frame_def write_frame_def req_range_def req_word_def slice_def u16.dec_enc_exact)

lemma write_one_register:
  assumes "server_ok s" "srv_registers s ''holding'' = Some regs" "regs (uint a) = Some r" "uint n = reg_count r"
    and "length data = 2 * nat (reg_count r)" "Register_Value impl r data = Done (Inr v)" "f64_finite v"
    and "sock (srv_pusher s) (attempts (srv_pusher s))"
  shows "\<exists>rep s'. writeHoldingRegisters impl (write_frame a n data) s = (Done (rep, Success), s') \<and>
    srv_tags s' = (srv_tags s)(reg_tag r \<mapsto> v) \<and> srv_registers s' = srv_registers s"
proof -
  have num: "numeric_regs regs" using assms(1,2) by (auto intro: server_ok_numeric)
  note c = numeric_regs_count [OF num assms(3)]
  obtain m where m: "nat (reg_count r) = Suc m" using c(1) by (cases "nat (reg_count r)") auto
  have k: "nat (reg_count r * 2) = 2 * nat (reg_count r)" using c(1) by simp
  have sl: "slice (write_frame a n data) 5 (5 + 2 * nat (reg_count r)) = Some data"
    using assms(5) by (simp add: slice_def write_frame_def)
  have rest: "write_loop impl regs d m (uint a + reg_count r) (uint a + reg_count r) off ts ups = (Done None, ts, ups)" for d off ts ups
    by (cases m) simp_all
  have l: "write_loop impl regs (write_frame a n data) (nat (uint n)) (uint a) (uint a + uint n) 5 (srv_tags s) [] =
      (Done None, (srv_tags s)(reg_tag r \<mapsto> v), [point (reg_tag r) v])"
    unfolding assms(4) m using assms(3,6) sl c(1) by (simp add: k rest)
  show ?thesis
    using assms(2,7,8) l
    by (simp add: writeHoldingRegisters_def frame_ranges finish_write_def publish_updates_def NewEnvelope_def
        points_finite_def point_def Push_def SendMessage_def Let_def)
qed

lemma read_one_register:
  assumes "server_ok s" "srv_registers s ''holding'' = Some regs" "regs (uint a) = Some r" "uint n = reg_count r"
    and "Register_Bytes impl r (tag_value (srv_tags s) (reg_tag r)) = Inr data" "length data = 2 * unat n"
  shows "readHoldingRegisters impl (read_frame a n) s = Done (of_nat (length data) # data, Success)"
proof -
  have num: "numeric_regs regs" using assms(1,2) by (auto intro: server_ok_numeric)
  note c = numeric_regs_count [OF num assms(3)]
  have t: "tiles regs (uint a) (uint a + uint n) [r]" using assms(3,4) c(1) by simp
  have "encoding impl (srv_tags s) r = data" using assms(5) by (simp add: encoding_def)
  moreover have "(of_int (2 * words [r]) :: byte) = of_nat (length data)"
  proof -
    have "int (length data) = 2 * words [r]" using assms(4,6) by simp
    then show ?thesis by (metis of_int_of_nat_eq)
  qed
  moreover obtain rs where rs: "tiles regs (uint a) (uint a + uint n) rs"
    "read_registers impl ''holding'' (read_frame a n) s =
       Done (of_int (2 * words rs) # concat (map (encoding impl (srv_tags s)) rs), Success)"
    using read_registers_spec [OF assms(1,2) _ frame_ranges(1) [of a n], of impl] t by blast
  moreover have "rs = [r]" using tiles_unique [OF t rs(1)] .
  ultimately show ?thesis by (simp only: readHoldingRegisters_def list.map concat.simps append_Nil2)
qed

lemma same_encoding:
  assumes "reg_type r = reg_type r'" "reg_datatype r = reg_datatype r'" "reg_scaling r = reg_scaling r'"
  shows "Register_Bytes impl r x = Register_Bytes impl r' x" "Register_Value impl r d = Register_Value impl r' d"
  by (simp_all only: Register_Bytes_def Register_Value_def scale_up_def scale_down_def assms)

text \<open>C7: an update on the client's bus arrives at the server. When a client has a holding register for a tag,
  and the server it talks to has a register of the same data type and scaling at the same address, an update of another module with one
  point for the tag sets the server's tag to the value that the client's bytes stand for, if that is finite, and a later poll of
  the client reads the bytes of this value. For an unscaled integer register and an integer that fits its type and is less than 2
  to the power 53 in magnitude, the value at the server and the value read back are the value of the update.\<close>

theorem update_reaches_server:
  assumes "client_ok c" "server_ok s" "carries impl api"
    and "cl_registers c t = Some rc" "reg_type rc = ''holding''" "0 \<le> reg_addr rc" "reg_addr rc < 65536"
    and "srv_registers s ''holding'' = Some regs" "regs (reg_addr rc) = Some rs"
    and "reg_datatype rs = reg_datatype rc" "reg_scaling rs = reg_scaling rc"
    and "NewEnvelope n (C_Update \<lparr>Updates = [point t x], up_recipient = [], up_confirm = []\<rparr>) = Inr env" "n \<noteq> cl_name c"
    and "Register_Bytes impl rc x = Inr data" "Register_Value impl rc data = Done (Inr v)" "f64_finite v"
    and "sock (srv_pusher s) (attempts (srv_pusher s))"
  shows "\<exists>s' data'. handleMsgBusUpdate impl api env (c, s) = (c, s') \<and>
    srv_tags s' = (srv_tags s)(reg_tag rs \<mapsto> v) \<and>
    Register_Bytes impl rs v = Inr data' \<and> read_remote api rc s' = (Inr data', s') \<and>
    (\<forall>i sgnd w. x = f64_of_int i \<longrightarrow> reg_scaling rc = 0 \<longrightarrow> int_kind (reg_datatype rc) = Some (sgnd, w) \<longrightarrow>
      int_fits sgnd w i \<longrightarrow> \<bar>i\<bar> < 2 ^ 53 \<longrightarrow> v = x \<and> Register_Value impl rc data' = Done (Inr x))"
proof -
  let ?a = "of_int (reg_addr rc) :: uint16" and ?n = "of_int (reg_count rc) :: uint16"
  have rc: "reg_ok rc" "numeric_reg rc" using assms(1,4,5) by (auto simp: client_ok_def numeric_reg_def)
  have "numeric_regs regs" using assms(2,8) by (auto intro: server_ok_numeric)
  note rs = numeric_regs_count [OF this assms(9)]
  have count: "reg_count rs = reg_count rc"
    using reg_ok_numeric_count(1) [OF rc] reg_ok_numeric_count(1) [OF rs(3,4)] assms(10) by simp
  have a: "uint ?a = reg_addr rc" and n: "uint ?n = reg_count rs" "unat ?n = nat (reg_count rs)"
    using assms(6,7) rs(1,2) count by (simp_all add: unsigned_of_int take_bit_int_eq_self unat_eq_nat_uint)
  have type: "reg_type rs = ''holding''" using assms(2,8,9) by (auto simp: server_ok_def regs_ok_def)
  have same: "Register_Bytes impl rs y = Register_Bytes impl rc y" "Register_Value impl rs d = Register_Value impl rc d" for y d
    using same_encoding [of rs rc] type assms(5,10,11) by simp_all
  have len: "length data = 2 * nat (reg_count rs)"
    using Register_Bytes_width [OF rc, of impl x] assms(14) count by simp
  obtain rep s' where s': "writeHoldingRegisters impl (write_frame ?a ?n data) s = (Done (rep, Success), s')"
    "srv_tags s' = (srv_tags s)(reg_tag rs \<mapsto> v)" "srv_registers s' = srv_registers s"
    using write_one_register [OF assms(2,8) _ n(1) len, of ?a impl v] a assms(9,15,16,17) same by auto
  have small: "1 \<le> unat ?n \<and> unat ?n \<le> 123" using n(2) rs(1,2) by linarith
  have h: "handleMsgBusUpdate impl api env (c, s) = (c, s')"
    using Sender_NewEnvelope [OF assms(12)] env_Update_NewEnvelope [OF assms(12)] assms(3,4,5,13,14) s'(1) small
    by (simp add: handleMsgBusUpdate_def point_def write_remote_def carries_def)
  obtain data' where data': "Register_Bytes impl rs v = Inr data'" "length data' = 2 * unat ?n"
    using Register_Bytes_width [OF rs(3,4), of impl v] n(2) by auto
  have "server_ok s'" using whs.keeps_ok [OF assms(2) s'(1)] .
  then have "readHoldingRegisters impl (read_frame ?a ?n) s' = Done (of_nat (length data') # data', Success)"
    using a n data' s'(2,3) assms(8,9)
    by (intro read_one_register [where regs = regs and r = rs]) (simp_all add: lookup0_def)
  then have r: "read_remote api rc s' = (Inr data', s')"
    using assms(3,5) data'(2) small by (simp add: read_remote_def carries_def)
  have "v = x \<and> Register_Value impl rc data' = Done (Inr x)"
    if "x = f64_of_int i" "reg_scaling rc = 0" "int_kind (reg_datatype rc) = Some (sgnd, w)" "int_fits sgnd w i" "\<bar>i\<bar> < 2 ^ 53" for i sgnd w
    using Register_value_exact [OF rc(2) that(3,2,4,5), of impl] that(1) assms(14,15) data'(1) same(1) by auto
  with h s'(2) data'(1) r show ?thesis by blast
qed

text \<open>A library that carries: it calls the server's handlers directly.\<close>

definition direct_api :: "go_impl \<Rightarrow> ModbusServer modbus_api" where
  "direct_api impl =
     \<lparr>ReadCoils = (\<lambda>_ _ s. (Inl ''not connected'', s)), ReadDiscreteInputs = (\<lambda>_ _ s. (Inl ''not connected'', s)),
      ReadInputRegisters = (\<lambda>_ _ s. (Inl ''not connected'', s)),
      ReadHoldingRegisters = (\<lambda>a n s.
        (case readHoldingRegisters impl (read_frame a n) s of
           Done (b # d, Success) \<Rightarrow> if b = of_nat (length d) \<and> length d = 2 * unat n then Inr d else Inl ''bad reply''
         | _ \<Rightarrow> Inl ''exception'', s)),
      WriteSingleCoil = (\<lambda>_ _ s. (Inl ''not connected'', s)),
      WriteMultipleRegisters = (\<lambda>a n d s. (Inr [], snd (writeHoldingRegisters impl (write_frame a n d) s)))\<rparr>"

lemma direct_api_carries: "carries impl (direct_api impl)"
  by (simp add: carries_def direct_api_def)

theorem update_reaches_server_witness:
  "\<exists>env s' data. NewEnvelope ''hmi'' (C_Update \<lparr>Updates = [point ''v'' (f64_of_int 42)], up_recipient = [], up_confirm = []\<rparr>) = Inr env \<and>
    handleMsgBusUpdate demo_impl (direct_api demo_impl) env
      (demo_client, demo_server ''holding'' (demo_reg ''holding'' ''uint16'' 7 1 0 ''bus.voltage'')) = (demo_client, s') \<and>
    srv_tags s' = [''bus.voltage'' \<mapsto> f64_of_int 42] \<and>
    read_remote (direct_api demo_impl) (demo_reg ''holding'' ''uint16'' 7 1 0 ''v'') s' = (Inr data, s') \<and>
    Register_Value demo_impl (demo_reg ''holding'' ''uint16'' 7 1 0 ''v'') data = Done (Inr (f64_of_int 42))"
proof -
  let ?rs = "demo_reg ''holding'' ''uint16'' 7 1 0 ''bus.voltage''" and ?rc = "demo_reg ''holding'' ''uint16'' 7 1 0 ''v''"
  let ?s = "demo_server ''holding'' ?rs"
  let ?u = "\<lparr>Updates = [point ''v'' (f64_of_int 42)], up_recipient = [], up_confirm = []\<rparr>"
  have ok: "server_ok ?s"
    by (rule demo_server_simps) (simp_all add: demo_reg_ok validDataTypes_def, simp add: demo_reg_def)
  have regs: "srv_registers ?s ''holding'' = Some [7 \<mapsto> ?rs]" "srv_tags ?s = Map.empty"
    "sock (srv_pusher ?s) (attempts (srv_pusher ?s))"
    by (simp_all add: demo_server_simps demo_sock) (simp add: demo_reg_def)
  have c: "cl_registers demo_client ''v'' = Some ?rc" "cl_name demo_client = ''mc''"
    by (simp_all add: demo_client_def NewClient_def)
  have "points_finite (Updates ?u)" using f64_of_int_exact(2) [of 42] by (simp add: points_finite_def point_def)
  then obtain env where env: "NewEnvelope ''hmi'' (C_Update ?u) = Inr env"
    using NewEnvelope_fails_iff(2) [of "''hmi''" ?u] by blast
  have r: "reg_type ?rc = ''holding''" "reg_scaling ?rc = 0" "reg_scaling ?rs = reg_scaling ?rc" "reg_datatype ?rs = reg_datatype ?rc"
    "reg_addr ?rc = 7" "int_kind (reg_datatype ?rc) = Some (False, 16)" "reg_tag ?rs = ''bus.voltage''"
    by (simp_all add: demo_reg_def int_kind_def)
  have fits: "int_fits False 16 42" by (simp add: int_fits_def)
  obtain data where data: "Register_Bytes demo_impl ?rc (f64_of_int 42) = Inr data" "Register_Value demo_impl ?rc data = Done (Inr (f64_of_int 42))"
    using Register_value_exact [OF demo_reg_ok(3) r(6,2) fits, of demo_impl] by auto
  have at: "0 \<le> reg_addr ?rc" "reg_addr ?rc < 65536" "[7 \<mapsto> ?rs] (reg_addr ?rc) = Some ?rs" by (simp_all add: r(5))
  obtain s' data' where "handleMsgBusUpdate demo_impl (direct_api demo_impl) env (demo_client, ?s) = (demo_client, s')"
      "srv_tags s' = (srv_tags ?s)(reg_tag ?rs \<mapsto> f64_of_int 42)"
      "read_remote (direct_api demo_impl) ?rc s' = (Inr data', s')"
      "\<forall>i sgnd w. f64_of_int 42 = f64_of_int i \<longrightarrow> reg_scaling ?rc = 0 \<longrightarrow> int_kind (reg_datatype ?rc) = Some (sgnd, w) \<longrightarrow>
        int_fits sgnd w i \<longrightarrow> \<bar>i\<bar> < 2 ^ 53 \<longrightarrow> f64_of_int 42 = f64_of_int 42 \<and> Register_Value demo_impl ?rc data' = Done (Inr (f64_of_int 42))"
    using update_reaches_server [OF demo_client_ok ok direct_api_carries c(1) r(1) at(1,2) regs(1) at(3) r(4,3) env _ data _ regs(3)]
      f64_of_int_exact(2) [of 42] by (auto simp: c(2))
  moreover from this(4) fits r(2,6) have "Register_Value demo_impl ?rc data' = Done (Inr (f64_of_int 42))" by auto
  ultimately show ?thesis using env regs(2) r(7) by auto
qed

end
