(* ===== verification/Logic.thy ===== *)
theory Logic
  imports Msgbus Etree GoText "HOL-Library.AList" "HOL-Library.Multiset"
begin

text \<open>
  The package logic: a program of assignments that runs every period over an
  environment of variables, which status and update messages set, and which the
  module publishes. The expression library is a parameter: it compiles a text and
  runs a program on the environment. The mutex that guards the environment is part
  of the state, because the publishing loop has paths that never release it.
\<close>

section \<open>Values\<close>

text \<open>
  The dynamic values of the environment: those the module makes itself, and any other
  comparable value an expression may have, as a type and a content.
\<close>

datatype val =
    VNil
  | VBool bool
  | VInt int
  | VFloat float64
  | VString string
  | VList "val list"
  | VFloats "float64 list"
  | VStrings "string list"
  | VMap "(string \<times> val) list"
  | VFunc string
  | VOther string nat

type_synonym vars = "string \<rightharpoonup> val"

text \<open>The functions of the environment by name; sum and avg have the same Go type.\<close>

definition func_type :: "string \<Rightarrow> string" where
  "func_type f = (if f = ''avg'' then ''sum'' else f)"

text \<open>Go's comparison of two interface values: different types are unequal, and comparing two values
  of one type without equality panics.\<close>

definition go_eq :: "val \<Rightarrow> val \<Rightarrow> bool outcome" where
  "go_eq a b =
     (case a of
        VNil \<Rightarrow> Done (b = VNil)
      | VBool x \<Rightarrow> (case b of VBool y \<Rightarrow> Done (x = y) | _ \<Rightarrow> Done False)
      | VInt x \<Rightarrow> (case b of VInt y \<Rightarrow> Done (x = y) | _ \<Rightarrow> Done False)
      | VFloat x \<Rightarrow> (case b of VFloat y \<Rightarrow> Done (f64_eq x y) | _ \<Rightarrow> Done False)
      | VString x \<Rightarrow> (case b of VString y \<Rightarrow> Done (x = y) | _ \<Rightarrow> Done False)
      | VList x \<Rightarrow> (case b of VList y \<Rightarrow> Panic | _ \<Rightarrow> Done False)
      | VFloats x \<Rightarrow> (case b of VFloats y \<Rightarrow> Panic | _ \<Rightarrow> Done False)
      | VStrings x \<Rightarrow> (case b of VStrings y \<Rightarrow> Panic | _ \<Rightarrow> Done False)
      | VMap x \<Rightarrow> (case b of VMap y \<Rightarrow> Panic | _ \<Rightarrow> Done False)
      | VFunc x \<Rightarrow> (case b of VFunc y \<Rightarrow> if func_type x = func_type y then Panic else Done False | _ \<Rightarrow> Done False)
      | VOther t x \<Rightarrow> (case b of VOther u y \<Rightarrow> Done (t = u \<and> x = y) | _ \<Rightarrow> Done False))"

text \<open>The float a point carries for a value; other types leave the zero value.\<close>

fun num_value :: "val \<Rightarrow> float64" where
  "num_value (VBool b) = (if b then f64_one else f64_zero)"
| "num_value (VInt i) = f64_of_int i"
| "num_value (VFloat x) = x"
| "num_value _ = f64_zero"

section \<open>State\<close>

record ('p, 'r) expr_api =
  Compile :: "string \<Rightarrow> 'p option"
  RunExpr :: "'p option \<Rightarrow> vars \<Rightarrow> 'r \<Rightarrow> val result \<times> 'r"

record 'p Logic =
  lg_pull_endpoint :: string
  lg_pub_endpoint :: string
  lg_name :: string
  lg_period :: int
  lg_program :: "nat \<rightharpoonup> 'p"
  lg_order :: "string list"
  lg_env :: vars
  lg_variables :: "string list"
  lg_tagToVar :: "string \<rightharpoonup> string"
  lg_varToTag :: "string \<rightharpoonup> string"
  lg_processUpdates :: bool
  lg_locked :: bool
  lg_pusher :: Pusher

definition NewLogic :: "string \<Rightarrow> Pusher \<Rightarrow> 'p Logic" where
  "NewLogic name p =
     \<lparr>lg_pull_endpoint = [], lg_pub_endpoint = [], lg_name = name, lg_period = 10 ^ 9,
      lg_program = Map.empty, lg_order = [], lg_env = Map.empty, lg_variables = [],
      lg_tagToVar = Map.empty, lg_varToTag = Map.empty, lg_processUpdates = False,
      lg_locked = False, lg_pusher = p\<rparr>"

definition NewLogicModule :: "Pusher \<Rightarrow> element \<Rightarrow> 'p Logic" where
  "NewLogicModule p e = NewLogic (SelectAttrValue e ''name'' ''logic'') p"

section \<open>Configuration\<close>

definition program_line :: "('p, 'r) expr_api \<Rightarrow> nat \<Rightarrow> string \<Rightarrow> 'p Logic \<Rightarrow> 'p Logic result" where
  "program_line api i line l =
     (if HasPrefix line ''#'' then Inr l
      else case split2 (CHR ''='') line of
        (s, None) \<Rightarrow>
          let right = TrimSpace s
          in if HasPrefix right ''sprintf'' then
               (case Compile api right of
                  None \<Rightarrow> Inl ''compiling program code''
                | Some p \<Rightarrow> Inr (l\<lparr>lg_program := (lg_program l)(i \<mapsto> p),
                                   lg_order := (lg_order l)[i := ''sprintf'' @ show_nat i]\<rparr>))
             else Inr l
      | (a, Some b) \<Rightarrow>
          let left = TrimSpace a; right = TrimSpace b
          in (case Compile api right of
                None \<Rightarrow> Inl ''compiling program code''
              | Some p \<Rightarrow>
                  let l1 = l\<lparr>lg_program := (lg_program l)(i \<mapsto> p), lg_order := (lg_order l)[i := left]\<rparr>
                  in Inr (case lg_env l1 left of
                            None \<Rightarrow> l1\<lparr>lg_env := (lg_env l1)(left \<mapsto> VFloat f64_zero)\<rparr>
                          | Some _ \<Rightarrow> l1)))"

fun program_lines :: "('p, 'r) expr_api \<Rightarrow> nat \<Rightarrow> string list \<Rightarrow> 'p Logic \<Rightarrow> 'p Logic result" where
  "program_lines api i [] l = Inr l"
| "program_lines api i (s # ss) l =
     (case program_line api i s l of Inl err \<Rightarrow> Inl err | Inr l' \<Rightarrow> program_lines api (Suc i) ss l')"

fun variable_elements :: "element list \<Rightarrow> 'p Logic \<Rightarrow> 'p Logic result" where
  "variable_elements [] l = Inr l"
| "variable_elements (v # vs) l =
     (let tag = SelectAttrValue v ''tag'' (Tag v);
          l1 = l\<lparr>lg_varToTag := (lg_varToTag l)(Tag v \<mapsto> tag), lg_tagToVar := (lg_tagToVar l)(tag \<mapsto> Tag v),
                 lg_variables := lg_variables l @ [Tag v]\<rparr>
      in (case ParseFloat (Text v) of
            Some x \<Rightarrow> variable_elements vs (l1\<lparr>lg_env := (lg_env l1)(Tag v \<mapsto> VFloat x)\<rparr>)
          | None \<Rightarrow>
              (case ParseBool (Text v) of
                 None \<Rightarrow> Inl ''unable to convert value to bool or double''
               | Some b \<Rightarrow> variable_elements vs (l1\<lparr>lg_env := (lg_env l1)(Tag v \<mapsto> VBool b)\<rparr>))))"

definition logic_child :: "go_impl \<Rightarrow> ('p, 'r) expr_api \<Rightarrow> element \<Rightarrow> 'p Logic \<Rightarrow> 'p Logic result" where
  "logic_child impl api child l =
     (if Tag child = ''pull-endpoint'' then Inr (l\<lparr>lg_pull_endpoint := Text child\<rparr>)
      else if Tag child = ''pub-endpoint'' then Inr (l\<lparr>lg_pub_endpoint := Text child\<rparr>)
      else if Tag child = ''period'' then
        (case ParseDuration impl (Text child) of
           None \<Rightarrow> Inl ''invalid period duration''
         | Some d \<Rightarrow> Inr (l\<lparr>lg_period := d\<rparr>))
      else if Tag child = ''program'' then
        (let ls = split_char (CHR 0x0A) (Text child)
         in program_lines api 0 ls (l\<lparr>lg_order := replicate (length ls) []\<rparr>))
      else if Tag child = ''variables'' then variable_elements (ChildElements child) l
      else if Tag child = ''process-updates'' then
        (case ParseBool (Text child) of
           None \<Rightarrow> Inl ''unable to convert value to bool''
         | Some b \<Rightarrow> Inr (l\<lparr>lg_processUpdates := b\<rparr>))
      else Inr l)"

fun Logic_Configure :: "go_impl \<Rightarrow> ('p, 'r) expr_api \<Rightarrow> element list \<Rightarrow> 'p Logic \<Rightarrow> 'p Logic result" where
  "Logic_Configure impl api [] l = Inr l"
| "Logic_Configure impl api (e # es) l =
     (case logic_child impl api e l of Inl err \<Rightarrow> Inl err | Inr l' \<Rightarrow> Logic_Configure impl api es l')"

section \<open>The functions of the environment\<close>

text \<open>A number given directly or by the name of a variable that holds one.\<close>

definition arg_value :: "vars \<Rightarrow> val \<Rightarrow> float64 option" where
  "arg_value env e =
     (case e of
        VString v \<Rightarrow>
          (case lookup0 VNil env v of VInt i \<Rightarrow> Some (f64_of_int i) | VFloat x \<Rightarrow> Some x | _ \<Rightarrow> None)
      | VInt i \<Rightarrow> Some (f64_of_int i)
      | VFloat x \<Rightarrow> Some x
      | _ \<Rightarrow> None)"

fun env_values :: "vars \<Rightarrow> val list \<Rightarrow> float64 list" where
  "env_values env [] = []"
| "env_values env (e # es) = (case arg_value env e of None \<Rightarrow> env_values env es | Some x \<Rightarrow> x # env_values env es)"

fun sum_loop :: "vars \<Rightarrow> val list \<Rightarrow> float64 \<Rightarrow> float64" where
  "sum_loop env [] s = s"
| "sum_loop env (e # es) s = sum_loop env es (case arg_value env e of None \<Rightarrow> s | Some x \<Rightarrow> f64_add s x)"

definition env_sum :: "vars \<Rightarrow> val list \<Rightarrow> float64" where
  "env_sum env es = sum_loop env es f64_zero"

fun avg_loop :: "vars \<Rightarrow> val list \<Rightarrow> float64 \<Rightarrow> int \<Rightarrow> float64 \<times> int" where
  "avg_loop env [] s n = (s, n)"
| "avg_loop env (e # es) s n =
     (case arg_value env e of None \<Rightarrow> avg_loop env es s n | Some x \<Rightarrow> avg_loop env es (f64_add s x) (n + 1))"

definition env_avg :: "vars \<Rightarrow> val list \<Rightarrow> float64" where
  "env_avg env es = (case avg_loop env es f64_zero 0 of (s, n) \<Rightarrow> f64_div s (f64_of_int n))"

definition initEnv :: "'p Logic \<Rightarrow> 'p Logic" where
  "initEnv l =
     l\<lparr>lg_env := (lg_env l)(''randInt'' \<mapsto> VFunc ''randInt'', ''randFloat'' \<mapsto> VFunc ''randFloat'',
         ''randBool'' \<mapsto> VFunc ''randBool'', ''values'' \<mapsto> VFunc ''values'', ''sum'' \<mapsto> VFunc ''sum'',
         ''avg'' \<mapsto> VFunc ''avg'', ''sprintf'' \<mapsto> VFunc ''sprintf'', ''variables'' \<mapsto> VStrings (lg_variables l))\<rparr>"

section \<open>Execution\<close>

text \<open>The loop of execute: the variables updated, the new environment and what is left of the
  source of randomness. Output lines have no effect on the environment.\<close>

fun execute_loop ::
  "('p, 'r) expr_api \<Rightarrow> (nat \<rightharpoonup> 'p) \<Rightarrow> (string \<rightharpoonup> string) \<Rightarrow> nat \<Rightarrow> string list \<Rightarrow> vars \<Rightarrow> 'r \<Rightarrow> string list
     \<Rightarrow> string list outcome \<times> vars \<times> 'r" where
  "execute_loop api prog v2t i [] env r updated = (Done updated, env, r)"
| "execute_loop api prog v2t i (x # xs) env r updated =
     (if x = [] then execute_loop api prog v2t (Suc i) xs env r updated
      else case RunExpr api (prog i) env r of
        (Inl err, r') \<Rightarrow> execute_loop api prog v2t (Suc i) xs env r' updated
      | (Inr result, r') \<Rightarrow>
          if HasPrefix x ''sprintf'' then execute_loop api prog v2t (Suc i) xs env r' updated
          else case v2t x of
            None \<Rightarrow> execute_loop api prog v2t (Suc i) xs (env(x \<mapsto> result)) r' updated
          | Some _ \<Rightarrow>
              (case go_eq result (lookup0 VNil env x) of
                 Done eq \<Rightarrow> execute_loop api prog v2t (Suc i) xs (env(x \<mapsto> result)) r'
                              (if eq then updated else updated @ [x])
               | Panic \<Rightarrow> (Panic, env, r')
               | Diverge \<Rightarrow> (Diverge, env, r')))"

definition execute :: "('p, 'r) expr_api \<Rightarrow> 'p Logic \<Rightarrow> 'r \<Rightarrow> string list outcome \<times> 'p Logic \<times> 'r" where
  "execute api l r =
     (case execute_loop api (lg_program l) (lg_varToTag l) 0 (lg_order l) (lg_env l) r [] of
        (out, env, r') \<Rightarrow> (out, l\<lparr>lg_env := env\<rparr>, r'))"

section \<open>The publishing loop\<close>

text \<open>The point of each tag, by the last of its variables.\<close>

fun collect :: "'p Logic \<Rightarrow> string list \<Rightarrow> (string \<times> Point) list \<Rightarrow> (string \<times> Point) list" where
  "collect l [] tags = tags"
| "collect l (x # xs) tags =
     (case lg_varToTag l x of
        None \<Rightarrow> collect l xs tags
      | Some tag \<Rightarrow>
          collect l xs (AList.update tag
            \<lparr>pt_tag = tag, pt_value = num_value (lookup0 VNil (lg_env l) x), pt_ts = 0\<rparr> tags))"

text \<open>Pushing a message; None when it cannot be encoded, which ends the round.\<close>

definition push_contents :: "contents \<Rightarrow> 'p Logic \<Rightarrow> 'p Logic option" where
  "push_contents c l =
     (case NewEnvelope (lg_name l) c of
        Inl err \<Rightarrow> None
      | Inr env \<Rightarrow> Some (l\<lparr>lg_pusher := snd (Push ''RUNTIME'' env (lg_pusher l))\<rparr>))"

text \<open>The status with the variables the program assigns, and the update with those that changed. The
  order in which Go visits the map of points is the argument visit.\<close>

definition publish_status :: "((string \<times> Point) list \<Rightarrow> (string \<times> Point) list) \<Rightarrow> 'p Logic \<Rightarrow> 'p Logic option" where
  "publish_status visit l =
     (let tags = collect l (filter (\<lambda>x. x \<noteq> []) (lg_order l)) []
      in if tags = [] then Some l else push_contents (C_Status \<lparr>Measurements = map snd (visit tags)\<rparr>) l)"

definition publish_changes ::
  "((string \<times> Point) list \<Rightarrow> (string \<times> Point) list) \<Rightarrow> string list \<Rightarrow> 'p Logic \<Rightarrow> 'p Logic option" where
  "publish_changes visit updated l =
     (if updated = [] then Some l
      else let tags = collect l updated []
           in if tags = [] then Some l
              else push_contents (C_Update \<lparr>Updates = map snd (visit tags), up_recipient = [], up_confirm = []\<rparr>) l)"

text \<open>One tick. The two paths on which a message cannot be encoded leave the mutex locked.\<close>

definition logic_tick ::
  "('p, 'r) expr_api \<Rightarrow> ((string \<times> Point) list \<Rightarrow> (string \<times> Point) list) \<Rightarrow> 'p Logic \<times> 'r
     \<Rightarrow> ('p Logic \<times> 'r) outcome" where
  "logic_tick api visit st =
     (case st of (l, r) \<Rightarrow>
        if lg_locked l then Diverge
        else case execute api (l\<lparr>lg_locked := True\<rparr>) r of
          (Panic, _) \<Rightarrow> Panic
        | (Diverge, _) \<Rightarrow> Diverge
        | (Done updated, l1, r1) \<Rightarrow>
            (case publish_status visit l1 of
               None \<Rightarrow> Done (l1, r1)
             | Some l2 \<Rightarrow>
                 (case publish_changes visit updated l2 of
                    None \<Rightarrow> Done (l2, r1)
                  | Some l3 \<Rightarrow> Done (l3\<lparr>lg_locked := False\<rparr>, r1))))"

text \<open>The set-up part of Run.\<close>

definition Logic_start :: "string \<Rightarrow> (string \<Rightarrow> Pusher) \<Rightarrow> 'p Logic \<Rightarrow> 'p Logic result" where
  "Logic_start pullEndpoint new_pusher l =
     (if lg_program l = Map.empty then Inl ''no logic program to execute''
      else let pullE = (if lg_pull_endpoint l \<noteq> [] then lg_pull_endpoint l else pullEndpoint)
           in Inr (initEnv (l\<lparr>lg_pusher := new_pusher pullE\<rparr>)))"

section \<open>Messages\<close>

fun set_vars :: "(string \<rightharpoonup> string) \<Rightarrow> Point list \<Rightarrow> vars \<Rightarrow> vars" where
  "set_vars t2v [] env = env"
| "set_vars t2v (p # ps) env =
     set_vars t2v ps (case t2v (pt_tag p) of None \<Rightarrow> env | Some v \<Rightarrow> env(v \<mapsto> VFloat (pt_value p)))"

text \<open>A handler that finds the mutex locked waits for ever if no one releases it.\<close>

definition with_lock :: "('p Logic \<Rightarrow> 'p Logic) \<Rightarrow> 'p Logic \<Rightarrow> 'p Logic outcome" where
  "with_lock f l = (if lg_locked l then Diverge else Done (f l))"

definition Logic_handleMsgBusStatus :: "Envelope \<Rightarrow> 'p Logic \<Rightarrow> 'p Logic outcome" where
  "Logic_handleMsgBusStatus env l =
     (if Sender env = lg_name l then Done l
      else case env_Status env of
             (status, Some err) \<Rightarrow> Done l
           | (status, None) \<Rightarrow>
               with_lock (\<lambda>l. l\<lparr>lg_env := set_vars (lg_tagToVar l) (Measurements status) (lg_env l)\<rparr>) l)"

definition Logic_handleMsgBusUpdate :: "Envelope \<Rightarrow> 'p Logic \<Rightarrow> 'p Logic outcome" where
  "Logic_handleMsgBusUpdate env l =
     (if Sender env = lg_name l then Done l
      else case env_Update env of
             (update, Some err) \<Rightarrow> Done l
           | (update, None) \<Rightarrow>
               with_lock (\<lambda>l. l\<lparr>lg_env := set_vars (lg_tagToVar l) (Updates update) (lg_env l)\<rparr>) l)"

end
