(* ===== verification/LogicCorrect.thy ===== *)
theory LogicCorrect
  imports Logic
begin

text \<open>
  What the logic module promises: a configured program is well-formed, a round
  assigns the variables in program order and publishes what they hold, messages set
  the variables they name; and where it fails: a value without a JSON form stops the
  module for good, and a list-valued variable crashes it.
\<close>

section \<open>Configuration\<close>

text \<open>Every line that is not skipped has a compiled program, every variable with a tag is
  declared, and what a tag sets is declared too.\<close>

definition logic_ok :: "'p Logic \<Rightarrow> bool" where
  "logic_ok l \<longleftrightarrow>
     (\<forall>i < length (lg_order l). lg_order l ! i \<noteq> [] \<longrightarrow> lg_program l i \<noteq> None) \<and>
     dom (lg_varToTag l) = set (lg_variables l) \<and> ran (lg_tagToVar l) \<subseteq> set (lg_variables l) \<and>
     set (lg_variables l) \<subseteq> dom (lg_env l)"

lemma program_line_frame:
  assumes "program_line api i s l = Inr l'"
  shows "lg_varToTag l' = lg_varToTag l" "lg_tagToVar l' = lg_tagToVar l" "lg_variables l' = lg_variables l"
    "dom (lg_env l) \<subseteq> dom (lg_env l')"
    "l' = l \<or> (\<exists>p x. lg_program l' = (lg_program l)(i \<mapsto> p) \<and> lg_order l' = (lg_order l)[i := x])
      \<or> lg_program l' = lg_program l \<and> lg_order l' = lg_order l"
  using assms unfolding program_line_def
  by (auto simp: Let_def split: if_splits option.splits prod.splits)

lemma program_line_ok:
  assumes "logic_ok l" "program_line api i s l = Inr l'"
  shows "logic_ok l'"
proof -
  have "\<forall>j < length (lg_order l'). lg_order l' ! j \<noteq> [] \<longrightarrow> lg_program l' j \<noteq> None"
    using program_line_frame(5) [OF assms(2)] assms(1) by (auto simp: logic_ok_def nth_list_update)
  moreover have "set (lg_variables l) \<subseteq> dom (lg_env l')"
    using program_line_frame(4) [OF assms(2)] assms(1) unfolding logic_ok_def by (blast intro: order_trans)
  ultimately show ?thesis
    using assms(1) unfolding logic_ok_def program_line_frame(1-3) [OF assms(2)] by blast
qed

lemma program_lines_ok: "logic_ok l \<Longrightarrow> program_lines api i ss l = Inr l' \<Longrightarrow> logic_ok l'"
  by (induction ss arbitrary: i l) (auto split: sum.splits dest: program_line_ok)

lemma variable_elements_ok: "logic_ok l \<Longrightarrow> variable_elements vs l = Inr l' \<Longrightarrow> logic_ok l'"
proof (induction vs arbitrary: l)
  case (Cons v vs)
  have step: "logic_ok (l\<lparr>lg_varToTag := (lg_varToTag l)(Tag v \<mapsto> t), lg_tagToVar := (lg_tagToVar l)(t \<mapsto> Tag v),
      lg_variables := lg_variables l @ [Tag v], lg_env := (lg_env l)(Tag v \<mapsto> x)\<rparr>)" for t x
    using Cons.prems(1) by (auto simp: logic_ok_def ran_def)
  from Cons.prems(2) show ?case
    by (auto simp: Let_def split: option.splits intro: Cons.IH [OF step])
qed simp

lemma logic_child_ok:
  assumes "logic_ok l" "logic_child impl api e l = Inr l'"
  shows "logic_ok l'"
proof (cases "Tag e = ''program''")
  case True
  let ?ls = "split_char (CHR 0x0A) (Text e)"
  have "logic_ok (l\<lparr>lg_order := replicate (length ?ls) []\<rparr>)" using assms(1) by (simp add: logic_ok_def)
  moreover have "program_lines api 0 ?ls (l\<lparr>lg_order := replicate (length ?ls) []\<rparr>) = Inr l'"
    using assms(2) True by (simp add: logic_child_def Let_def)
  ultimately show ?thesis by (rule program_lines_ok)
next
  case not_program: False
  show ?thesis
  proof (cases "Tag e = ''variables''")
    case True
    with assms(2) have "variable_elements (ChildElements e) l = Inr l'" by (simp add: logic_child_def)
    with assms(1) show ?thesis by (rule variable_elements_ok)
  next
    case False
    with assms(2) not_program have "lg_order l' = lg_order l" "lg_program l' = lg_program l" "lg_env l' = lg_env l"
      "lg_varToTag l' = lg_varToTag l" "lg_tagToVar l' = lg_tagToVar l" "lg_variables l' = lg_variables l"
      unfolding logic_child_def by (auto split: if_splits option.splits)
    with assms(1) show ?thesis by (simp add: logic_ok_def)
  qed
qed

lemma Logic_Configure_ok: "logic_ok l \<Longrightarrow> Logic_Configure impl api es l = Inr l' \<Longrightarrow> logic_ok l'"
  by (induction impl api es l rule: Logic_Configure.induct) (auto split: sum.splits dest: logic_child_ok)

lemma NewLogic_ok: "logic_ok (NewLogic n p)"
  by (simp add: logic_ok_def NewLogic_def)

lemma initEnv_ok: "logic_ok l \<Longrightarrow> logic_ok (initEnv l)"
  by (auto simp: logic_ok_def initEnv_def)

section \<open>Execution\<close>

lemma go_eq_trans:
  assumes "go_eq a b = Done True" "go_eq b c = Done True"
  shows "go_eq a c = Done True"
  using assms
  by (cases b) (auto simp: go_eq_def f64_eq_def split: val.splits if_splits)

lemma go_eq_done_sym: "go_eq a b = Done True \<Longrightarrow> go_eq b a = Done True"
  by (auto simp: go_eq_def f64_eq_def split: val.splits if_splits)

text \<open>Two contents of a variable that an update need not tell apart.\<close>

definition same_value :: "val \<Rightarrow> val \<Rightarrow> bool" where
  "same_value a b \<longleftrightarrow> a = b \<or> go_eq a b = Done True"

lemma same_value_trans: "same_value a b \<Longrightarrow> same_value b c \<Longrightarrow> same_value a c"
  by (auto simp: same_value_def dest: go_eq_trans)

lemma same_value_through:
  assumes "same_value w (lookup0 VNil (env(y \<mapsto> v)) x)" "x = y \<Longrightarrow> same_value v (lookup0 VNil env y)"
  shows "same_value w (lookup0 VNil env x)"
  using assms same_value_trans by (cases "x = y") auto

lemma execute_loop_spec:
  "execute_loop api prog v2t i xs env r updated = (Done updated', env', r') \<Longrightarrow>
    (\<exists>new. updated' = updated @ new \<and> set new \<subseteq> set xs \<inter> dom v2t) \<and>
    (\<forall>x. x \<notin> set xs \<or> x = [] \<or> HasPrefix x ''sprintf'' \<longrightarrow> env' x = env x) \<and>
    (\<forall>x \<in> dom v2t. x \<notin> set updated' \<longrightarrow> same_value (lookup0 VNil env' x) (lookup0 VNil env x))"
proof (induction xs arbitrary: i env r updated)
  case Nil
  then show ?case by (auto simp: same_value_def)
next
  case (Cons y ys)
  have skip: ?case if "execute_loop api prog v2t (Suc i) ys env r1 updated = (Done updated', env', r')" for r1
    using Cons.IH [OF that] by auto
  have assign: ?case
    if rec: "execute_loop api prog v2t (Suc i) ys (env(y \<mapsto> v)) r1 (updated @ u) = (Done updated', env', r')"
      and y: "y \<noteq> []" "\<not> HasPrefix y ''sprintf''"
      and u: "set u \<subseteq> {y} \<inter> dom v2t"
      and same: "y \<in> dom v2t \<Longrightarrow> y \<notin> set u \<Longrightarrow> same_value v (lookup0 VNil env y)" for v r1 u
  proof -
    note IH = Cons.IH [OF rec]
    have "same_value (lookup0 VNil env' x) (lookup0 VNil env x)" if "x \<in> dom v2t" "x \<notin> set updated'" for x
    proof (rule same_value_through [of _ env y v])
      show "same_value (lookup0 VNil env' x) (lookup0 VNil (env(y \<mapsto> v)) x)" using IH that by blast
      show "x = y \<Longrightarrow> same_value v (lookup0 VNil env y)" using IH that same by auto
    qed
    with IH y u show ?thesis by fastforce
  qed
  show ?case
  proof (cases "y = []")
    case True
    with Cons.prems show ?thesis by (intro skip) simp
  next
    case ne: False
    obtain res r1 where run: "RunExpr api (prog i) env r = (res, r1)" by fastforce
    show ?thesis
    proof (cases "isl res \<or> HasPrefix y ''sprintf''")
      case True
      with Cons.prems ne run show ?thesis by (intro skip [of r1]) (auto split: sum.splits)
    next
      case False
      then obtain v where v: "res = Inr v" by (auto simp: isl_def split: sum.splits) (metis sum.exhaust)
      show ?thesis
      proof (cases "y \<in> dom v2t")
        case out: False
        with False v Cons.prems ne run show ?thesis
          by (intro assign [of v r1 "[]"]) (auto simp: domIff)
      next
        case in_dom: True
        then obtain t where t: "v2t y = Some t" by blast
        obtain b where b: "go_eq v (lookup0 VNil env y) = Done b"
          using Cons.prems ne run False v t by (auto split: outcome.splits)
        with in_dom t False v Cons.prems ne run show ?thesis
          by (intro assign [of v r1 "if b then [] else [y]"]) (auto simp: same_value_def)
      qed
    qed
  qed
qed

lemma execute_spec:
  assumes "execute api l r = (Done updated, l1, r1)"
  shows "l1 = l\<lparr>lg_env := lg_env l1\<rparr>" "set updated \<subseteq> set (lg_order l) \<inter> dom (lg_varToTag l)"
    "x \<notin> set (lg_order l) \<or> x = [] \<or> HasPrefix x ''sprintf'' \<Longrightarrow> lg_env l1 x = lg_env l x"
    "x \<in> dom (lg_varToTag l) \<Longrightarrow> x \<notin> set updated \<Longrightarrow>
       same_value (lookup0 VNil (lg_env l1) x) (lookup0 VNil (lg_env l) x)"
proof -
  obtain env where e: "execute_loop api (lg_program l) (lg_varToTag l) 0 (lg_order l) (lg_env l) r [] = (Done updated, env, r1)"
    "l1 = l\<lparr>lg_env := env\<rparr>"
    using assms by (auto simp: execute_def split: prod.splits)
  note s = execute_loop_spec [OF e(1)]
  show "l1 = l\<lparr>lg_env := lg_env l1\<rparr>" using e(2) by simp
  show "set updated \<subseteq> set (lg_order l) \<inter> dom (lg_varToTag l)" using s by auto
  show "x \<notin> set (lg_order l) \<or> x = [] \<or> HasPrefix x ''sprintf'' \<Longrightarrow> lg_env l1 x = lg_env l x"
    using s e(2) by simp
  show "x \<in> dom (lg_varToTag l) \<Longrightarrow> x \<notin> set updated \<Longrightarrow>
       same_value (lookup0 VNil (lg_env l1) x) (lookup0 VNil (lg_env l) x)"
    using s e(2) by simp
qed

lemma execute_loop_nonblank:
  "execute_loop api prog v2t i xs env r updated = (Done updated', env', r') \<Longrightarrow>
    x \<in> set updated' \<Longrightarrow> x \<in> set updated \<or> x \<noteq> []"
  by (induction xs arbitrary: i env r updated)
    (fastforce split: if_splits prod.splits sum.splits option.splits outcome.splits)+

lemma execute_updated_nonblank:
  "execute api l r = (Done updated, l1, r1) \<Longrightarrow> x \<in> set updated \<Longrightarrow> x \<noteq> []"
  by (auto simp: execute_def split: prod.splits dest!: execute_loop_nonblank)

text \<open>A round of the program changes only the variables it assigns, and no change goes unnoticed.
  Variables that no line assigns and output lines keep their contents; every variable reported as
  updated is assigned by a line and has a tag; a tagged variable that is not reported holds a value
  equal to the one it had.\<close>

lemma execute_reports_changes:
  assumes "execute api l r = (Done updated, l1, r1)"
  shows "set updated \<subseteq> set (lg_order l) \<inter> dom (lg_varToTag l) \<and>
    (\<forall>x. x \<notin> set (lg_order l) \<or> HasPrefix x ''sprintf'' \<longrightarrow> lg_env l1 x = lg_env l x) \<and>
    (\<forall>x \<in> dom (lg_varToTag l) - set updated.
       same_value (lookup0 VNil (lg_env l1) x) (lookup0 VNil (lg_env l) x))"
  using execute_spec [OF assms] by blast

section \<open>Publishing\<close>

abbreviation value_of :: "'p Logic \<Rightarrow> string \<Rightarrow> float64" where
  "value_of l x \<equiv> num_value (lookup0 VNil (lg_env l) x)"

definition tagged_point :: "'p Logic \<Rightarrow> string \<Rightarrow> string \<Rightarrow> Point" where
  "tagged_point l t x = \<lparr>pt_tag = t, pt_value = value_of l x, pt_ts = 0\<rparr>"

lemma collect_map_of:
  "map_of (collect l xs tags) t =
     (case find (\<lambda>x. lg_varToTag l x = Some t) (rev xs) of
        None \<Rightarrow> map_of tags t | Some x \<Rightarrow> Some (tagged_point l t x))"
  by (induction xs arbitrary: tags)
    (auto simp: find_append update_conv' tagged_point_def split: option.split)

lemma collect_distinct: "distinct (map fst tags) \<Longrightarrow> distinct (map fst (collect l xs tags))"
  by (induction xs arbitrary: tags) (auto split: option.split simp: distinct_update)

lemma collect_values:
  "p \<in> snd ` set (collect l xs tags) \<Longrightarrow>
     p \<in> snd ` set tags \<or> (\<exists>x \<in> set xs. \<exists>t. lg_varToTag l x = Some t \<and> p = tagged_point l t x)"
proof (induction xs arbitrary: tags)
  case (Cons x xs)
  show ?case
  proof (cases "lg_varToTag l x")
    case None
    with Cons show ?thesis by auto
  next
    case (Some t)
    have upd: "snd ` set (AList.update t q ts) \<subseteq> insert q (snd ` set ts)" for q and ts :: "(string \<times> Point) list"
      by (induction ts) auto
    have "p \<in> snd ` set (collect l xs (AList.update t (tagged_point l t x) tags))"
      using Cons.prems Some by (simp add: tagged_point_def)
    from Cons.IH [OF this] upd [of "tagged_point l t x" tags] Some show ?thesis by auto
  qed
qed simp

definition program_vars :: "'p Logic \<Rightarrow> string list" where
  "program_vars l = filter (\<lambda>x. x \<noteq> []) (lg_order l)"

text \<open>Every tagged variable that the program assigns holds a value JSON can carry.\<close>

definition publishable :: "'p Logic \<Rightarrow> bool" where
  "publishable l \<longleftrightarrow> (\<forall>x \<in> set (program_vars l). lg_varToTag l x \<noteq> None \<longrightarrow> f64_finite (value_of l x))"

definition permutes_map :: "((string \<times> Point) list \<Rightarrow> (string \<times> Point) list) \<Rightarrow> bool" where
  "permutes_map visit \<longleftrightarrow> (\<forall>tags. mset (visit tags) = mset tags)"

lemma permutes_set: "permutes_map visit \<Longrightarrow> set (visit tags) = set tags"
  by (metis permutes_map_def set_mset_mset)

lemma collect_finite:
  assumes "permutes_map visit" "publishable l" "set xs \<subseteq> set (program_vars l)"
  shows "points_finite (map snd (visit (collect l xs [])))"
proof -
  have "f64_finite (pt_value p)" if "p \<in> snd ` set (collect l xs [])" for p
    using collect_values [OF that] assms(2,3) by (auto simp: publishable_def tagged_point_def)
  then show ?thesis
    by (auto simp: points_finite_def list_all_iff permutes_set [OF assms(1)])
qed

lemma push_contents_finite:
  assumes "points_finite ps"
  shows "\<exists>env. push_contents (C_Status \<lparr>Measurements = ps\<rparr>) l = Some (l\<lparr>lg_pusher := snd (Push ''RUNTIME'' env (lg_pusher l))\<rparr>) \<and>
      Sender env = lg_name l \<and> env_Status env = (\<lparr>Measurements = ps\<rparr>, None)"
    and "\<exists>env. push_contents (C_Update \<lparr>Updates = ps, up_recipient = [], up_confirm = []\<rparr>) l =
      Some (l\<lparr>lg_pusher := snd (Push ''RUNTIME'' env (lg_pusher l))\<rparr>)"
proof -
  obtain env where "NewEnvelope (lg_name l) (C_Status \<lparr>Measurements = ps\<rparr>) = Inr env"
    using assms NewEnvelope_fails_iff(1) [of "lg_name l" "\<lparr>Measurements = ps\<rparr>"] by auto
  then show "\<exists>env. push_contents (C_Status \<lparr>Measurements = ps\<rparr>) l = Some (l\<lparr>lg_pusher := snd (Push ''RUNTIME'' env (lg_pusher l))\<rparr>) \<and>
      Sender env = lg_name l \<and> env_Status env = (\<lparr>Measurements = ps\<rparr>, None)"
    using Sender_NewEnvelope env_Status_NewEnvelope by (auto simp: push_contents_def)
  obtain env' where "NewEnvelope (lg_name l) (C_Update \<lparr>Updates = ps, up_recipient = [], up_confirm = []\<rparr>) = Inr env'"
    using assms NewEnvelope_fails_iff(2) [of "lg_name l" "\<lparr>Updates = ps, up_recipient = [], up_confirm = []\<rparr>"] by auto
  then show "\<exists>env. push_contents (C_Update \<lparr>Updates = ps, up_recipient = [], up_confirm = []\<rparr>) l =
      Some (l\<lparr>lg_pusher := snd (Push ''RUNTIME'' env (lg_pusher l))\<rparr>)"
    by (auto simp: push_contents_def)
qed

lemma tick_rounds:
  assumes "\<not> lg_locked l" "execute api (l\<lparr>lg_locked := True\<rparr>) r = (Done updated, l1, r1)"
  shows "publish_status visit l1 = None \<Longrightarrow> logic_tick api visit (l, r) = Done (l1, r1)"
    and "publish_status visit l1 = Some l2 \<Longrightarrow> publish_changes visit updated l2 = Some l3 \<Longrightarrow>
      logic_tick api visit (l, r) = Done (l3\<lparr>lg_locked := False\<rparr>, r1)"
  using assms by (simp_all add: logic_tick_def)

lemma publish_status_finite:
  assumes "permutes_map visit" "publishable l"
  shows "\<exists>l'. publish_status visit l = Some l' \<and> l' = l\<lparr>lg_pusher := lg_pusher l'\<rparr> \<and>
    (collect l (program_vars l) [] = [] \<longrightarrow> l' = l) \<and>
    (collect l (program_vars l) [] \<noteq> [] \<longrightarrow>
      (\<exists>env. env_Status env = (\<lparr>Measurements = map snd (visit (collect l (program_vars l) []))\<rparr>, None) \<and>
             Sender env = lg_name l \<and> lg_pusher l' = snd (Push ''RUNTIME'' env (lg_pusher l))))"
proof -
  have "points_finite (map snd (visit (collect l (program_vars l) [])))" by (rule collect_finite [OF assms]) simp
  from push_contents_finite(1) [OF this, of l] show ?thesis
    by (cases "collect l (program_vars l) [] = []")
      (auto simp: publish_status_def program_vars_def [symmetric] Let_def)
qed

lemma publish_changes_finite:
  assumes "permutes_map visit" "publishable l" "set updated \<subseteq> set (program_vars l)"
  shows "\<exists>l' ms. publish_changes visit updated l = Some l' \<and> l' = l\<lparr>lg_pusher := lg_pusher l'\<rparr> \<and>
    sent (lg_pusher l') = sent (lg_pusher l) @ ms"
proof -
  obtain env where env: "push_contents (C_Update \<lparr>Updates = map snd (visit (collect l updated [])), up_recipient = [], up_confirm = []\<rparr>) l =
      Some (l\<lparr>lg_pusher := snd (Push ''RUNTIME'' env (lg_pusher l))\<rparr>)"
    using push_contents_finite(2) [OF collect_finite [OF assms]] by blast
  have "\<exists>ms. sent (snd (Push t e p)) = sent p @ ms" for t e p by (auto simp: Push_def SendMessage_def)
  with env show ?thesis
    by (cases "updated = [] \<or> collect l updated [] = []") (auto simp: publish_changes_def Let_def)
qed

lemma collect_nonempty:
  "\<exists>x \<in> set xs. lg_varToTag l x \<noteq> None \<Longrightarrow> collect l xs [] \<noteq> []"
proof
  assume "\<exists>x \<in> set xs. lg_varToTag l x \<noteq> None" "collect l xs [] = []"
  then obtain x t where x: "x \<in> set (rev xs)" "lg_varToTag l x = Some t" by auto
  then have "find (\<lambda>x. lg_varToTag l x = Some t) (rev xs) \<noteq> None" by (auto simp: find_None_iff)
  with collect_map_of [of l xs "[]" t] \<open>collect l xs [] = []\<close> show False by auto
qed

lemma collect_keys: "(k, p) \<in> set (collect l xs []) \<Longrightarrow> pt_tag p = k"
proof -
  assume "(k, p) \<in> set (collect l xs [])"
  then have "map_of (collect l xs []) k = Some p" using collect_distinct [of "[]" l xs] by simp
  then show ?thesis by (auto simp: collect_map_of tagged_point_def split: option.splits)
qed

lemma status_points:
  fixes l :: "'p Logic" and xs :: "string list"
  assumes "permutes_map visit"
  defines "ps \<equiv> map snd (visit (collect l xs []))"
  shows "distinct (map pt_tag ps)"
    and "map_of (map (\<lambda>p. (pt_tag p, pt_value p)) ps) t =
      map_option (value_of l) (find (\<lambda>x. lg_varToTag l x = Some t) (rev xs))"
proof -
  let ?c = "collect l xs []"
  have m: "mset (visit ?c) = mset ?c" using assms(1) by (simp add: permutes_map_def)
  have keys: "map pt_tag ps = map fst (visit ?c)"
    using collect_keys [of _ _ l xs] permutes_set [OF assms(1), of ?c] by (auto simp: ps_def)
  have "mset (map fst (visit ?c)) = mset (map fst ?c)" using m by simp
  then have d: "distinct (map fst (visit ?c))"
    using collect_distinct [of "[]" l xs] mset_eq_imp_distinct_iff by (metis distinct.simps(1) list.simps(8))
  with keys show "distinct (map pt_tag ps)" by simp
  have "map_of (visit ?c) = map_of ?c"
    using d collect_distinct [of "[]" l xs] permutes_set [OF assms(1), of ?c] by (simp add: map_of_inject_set)
  moreover have "map (\<lambda>p. (pt_tag p, pt_value p)) ps = map (\<lambda>(k, p). (k, pt_value p)) (visit ?c)"
    using collect_keys [of _ _ l xs] permutes_set [OF assms(1), of ?c] by (auto simp: ps_def)
  ultimately show "map_of (map (\<lambda>p. (pt_tag p, pt_value p)) ps) t =
      map_option (value_of l) (find (\<lambda>x. lg_varToTag l x = Some t) (rev xs))"
    by (auto simp: map_of_map collect_map_of tagged_point_def split: option.splits)
qed

text \<open>C13: a round with publishable values completes. When the program ran and every tagged variable it
  assigns is finite, the tick releases the mutex and keeps the new values; if any tag is to be
  reported, the first message it pushes is a status whose points give each tag the value of the last
  variable of the program that has this tag, in whatever order Go visits its maps.\<close>

theorem logic_round_completes:
  assumes "\<not> lg_locked l" "execute api (l\<lparr>lg_locked := True\<rparr>) r = (Done updated, l1, r1)"
    and "permutes_map visit" "publishable l1"
  shows "\<exists>l'. logic_tick api visit (l, r) = Done (l', r1) \<and> \<not> lg_locked l' \<and> lg_env l' = lg_env l1 \<and>
    ((\<exists>x \<in> set (program_vars l). lg_varToTag l x \<noteq> None) \<longrightarrow>
      (\<exists>env ps ms. env_Status env = (\<lparr>Measurements = ps\<rparr>, None) \<and> Sender env = lg_name l \<and>
        sent (lg_pusher l') = sent (snd (Push ''RUNTIME'' env (lg_pusher l))) @ ms \<and>
        distinct (map pt_tag ps) \<and>
        (\<forall>t. map_of (map (\<lambda>p. (pt_tag p, pt_value p)) ps) t =
             map_option (value_of l1) (find (\<lambda>x. lg_varToTag l x = Some t) (rev (program_vars l))))))"
proof -
  note ex = execute_spec [OF assms(2)]
  have l1: "lg_name l1 = lg_name l" "lg_pusher l1 = lg_pusher l" "program_vars l1 = program_vars l" "lg_varToTag l1 = lg_varToTag l"
    by (subst ex(1), simp add: program_vars_def)+
  let ?tags = "collect l1 (program_vars l) []"
  obtain l2 where l2: "publish_status visit l1 = Some l2" "l2 = l1\<lparr>lg_pusher := lg_pusher l2\<rparr>"
    "?tags \<noteq> [] \<Longrightarrow> \<exists>env. env_Status env = (\<lparr>Measurements = map snd (visit ?tags)\<rparr>, None) \<and>
       Sender env = lg_name l \<and> lg_pusher l2 = snd (Push ''RUNTIME'' env (lg_pusher l))"
    using publish_status_finite [OF assms(3,4)] by (auto simp: l1)
  have l2s: "program_vars l2 = program_vars l" "publishable l2" "lg_env l2 = lg_env l1"
    using l1 assms(4) by (subst l2(2), simp add: program_vars_def publishable_def)+
  have "set updated \<subseteq> set (program_vars l2)"
    unfolding l2s(1) using ex(2) execute_updated_nonblank [OF assms(2)] by (auto simp: program_vars_def)
  then obtain l3 ms where l3: "publish_changes visit updated l2 = Some l3" "l3 = l2\<lparr>lg_pusher := lg_pusher l3\<rparr>"
    "sent (lg_pusher l3) = sent (lg_pusher l2) @ ms"
    using publish_changes_finite [OF assms(3) l2s(2)] by blast
  have env3: "lg_env l3 = lg_env l1" using l2s(3) by (subst l3(2)) simp
  have status: "\<exists>env ps ms. env_Status env = (\<lparr>Measurements = ps\<rparr>, None) \<and> Sender env = lg_name l \<and>
      sent (lg_pusher l3) = sent (snd (Push ''RUNTIME'' env (lg_pusher l))) @ ms \<and> distinct (map pt_tag ps) \<and>
      (\<forall>t. map_of (map (\<lambda>p. (pt_tag p, pt_value p)) ps) t =
           map_option (value_of l1) (find (\<lambda>x. lg_varToTag l x = Some t) (rev (program_vars l))))"
    if "\<exists>x \<in> set (program_vars l). lg_varToTag l x \<noteq> None"
  proof -
    have "?tags \<noteq> []" using collect_nonempty [of "program_vars l" l1] that l1(4) by simp
    with l2(3) obtain env where env: "env_Status env = (\<lparr>Measurements = map snd (visit ?tags)\<rparr>, None)"
      "Sender env = lg_name l" "lg_pusher l2 = snd (Push ''RUNTIME'' env (lg_pusher l))" by blast
    show ?thesis
      by (intro exI [of _ env] exI [of _ "map snd (visit ?tags)"] exI [of _ ms] conjI allI)
        (rule env l3(3) [unfolded env(3)] status_points [OF assms(3), of l1 "program_vars l", unfolded l1(4)])+
  qed
  show ?thesis
    using tick_rounds(2) [OF assms(1,2) l2(1) l3(1)] env3 status by auto
qed

text \<open>An expression library for concrete instances: programs are functions of the environment.\<close>

definition demo_expr :: "(vars \<Rightarrow> val result, unit) expr_api" where
  "demo_expr = \<lparr>Compile = (\<lambda>_. None), RunExpr = (\<lambda>p env r. (case p of None \<Rightarrow> Inl ''nil program'' | Some f \<Rightarrow> f env, r))\<rparr>"

text \<open>A module with one line that assigns the tagged variable x.\<close>

definition demo_logic :: "(vars \<Rightarrow> val result) \<Rightarrow> (vars \<Rightarrow> val result) Logic" where
  "demo_logic f =
     (NewLogic ''logic'' \<lparr>sock = (\<lambda>_. True), attempts = 0, sent = []\<rparr>)
       \<lparr>lg_program := [0 \<mapsto> f], lg_order := [''x''], lg_env := [''x'' \<mapsto> VFloat f64_zero],
        lg_variables := [''x''], lg_varToTag := [''x'' \<mapsto> ''t''], lg_tagToVar := [''t'' \<mapsto> ''x'']\<rparr>"

lemma demo_logic_simps:
  "lg_order (demo_logic f) = [''x'']" "lg_env (demo_logic f) = [''x'' \<mapsto> VFloat f64_zero]"
  "lg_varToTag (demo_logic f) = [''x'' \<mapsto> ''t'']" "\<not> lg_locked (demo_logic f)" "lg_program (demo_logic f) = [0 \<mapsto> f]"
  "lg_name (demo_logic f) = ''logic''" "sent (lg_pusher (demo_logic f)) = []" "lg_tagToVar (demo_logic f) = [''t'' \<mapsto> ''x'']"
  "logic_ok (demo_logic f)"
  by (simp_all add: demo_logic_def NewLogic_def logic_ok_def)

lemma demo_execute:
  assumes "f [''x'' \<mapsto> VFloat f64_zero] = Inr v" "go_eq v (VFloat f64_zero) = Done b"
  shows "execute demo_expr ((demo_logic f)\<lparr>lg_locked := True\<rparr>) () =
    (Done (if b then [] else [''x'']), (demo_logic f)\<lparr>lg_locked := True, lg_env := [''x'' \<mapsto> v]\<rparr>, ())"
  using assms by (simp add: execute_def demo_logic_simps demo_expr_def lookup0_def)

theorem logic_round_completes_witness:
  "\<exists>l'. logic_tick demo_expr id (demo_logic (\<lambda>env. Inr (VInt 3)), ()) = Done (l', ()) \<and> \<not> lg_locked l' \<and>
    lg_env l' = [''x'' \<mapsto> VInt 3]"
proof -
  let ?l1 = "(demo_logic (\<lambda>env. Inr (VInt 3)))\<lparr>lg_locked := True, lg_env := [''x'' \<mapsto> VInt 3]\<rparr>"
  have e: "execute demo_expr ((demo_logic (\<lambda>env. Inr (VInt 3)))\<lparr>lg_locked := True\<rparr>) () = (Done [''x''], ?l1, ())"
    by (subst demo_execute [where v = "VInt 3" and b = False]) (simp_all add: go_eq_def)
  have "publishable ?l1"
    using f64_of_int_exact(2) [of 3]
    by (simp add: publishable_def program_vars_def demo_logic_simps lookup0_def)
  from logic_round_completes [OF demo_logic_simps(4) e _ this, of id] show ?thesis
    by (auto simp: permutes_map_def)
qed

lemma execute_reports_changes_witness:
  "\<exists>l1. execute demo_expr ((demo_logic (\<lambda>env. Inr (VInt 3)))\<lparr>lg_locked := True\<rparr>) () = (Done [''x''], l1, ()) \<and>
     lg_env l1 ''x'' = Some (VInt 3) \<and> lg_env l1 ''y'' = lg_env (demo_logic (\<lambda>env. Inr (VInt 3))) ''y''"
proof -
  let ?l1 = "(demo_logic (\<lambda>env. Inr (VInt 3)))\<lparr>lg_locked := True, lg_env := [''x'' \<mapsto> VInt 3]\<rparr>"
  have e: "execute demo_expr ((demo_logic (\<lambda>env. Inr (VInt 3)))\<lparr>lg_locked := True\<rparr>) () = (Done [''x''], ?l1, ())"
    by (subst demo_execute [where v = "VInt 3" and b = False]) (simp_all add: go_eq_def)
  from execute_reports_changes [OF this] have "lg_env ?l1 ''y'' = lg_env (demo_logic (\<lambda>env. Inr (VInt 3))) ''y''"
    by (simp add: demo_logic_simps)
  with e show ?thesis by (intro exI [of _ ?l1]) simp
qed

section \<open>Failures\<close>

lemma locked_forever:
  assumes "lg_locked l"
  shows "logic_tick api visit (l, r) = Diverge"
    and "Sender env \<noteq> lg_name l \<Longrightarrow> env_Status env = (st, None) \<Longrightarrow> Logic_handleMsgBusStatus env l = Diverge"
    and "Sender env \<noteq> lg_name l \<Longrightarrow> env_Update env = (up, None) \<Longrightarrow> Logic_handleMsgBusUpdate env l = Diverge"
  using assms
  by (simp_all add: logic_tick_def Logic_handleMsgBusStatus_def Logic_handleMsgBusUpdate_def with_lock_def)

text \<open>C30: a value that JSON cannot carry stops the module for good. If after a round the last variable of
  some tag is not finite, the status cannot be encoded: the round ends without releasing the mutex and
  without a message, and from then on every tick and every status or update of another module blocks.\<close>

theorem unpublishable_value_deadlocks:
  assumes "\<not> lg_locked l" "execute api (l\<lparr>lg_locked := True\<rparr>) r = (Done updated, l1, r1)"
    and "permutes_map visit"
    and "find (\<lambda>x. lg_varToTag l x = Some t) (rev (program_vars l)) = Some x" "\<not> f64_finite (value_of l1 x)"
  shows "\<exists>l'. logic_tick api visit (l, r) = Done (l', r1) \<and> lg_locked l' \<and> lg_pusher l' = lg_pusher l \<and>
    (\<forall>visit' r'. logic_tick api visit' (l', r') = Diverge) \<and>
    (\<forall>env st. Sender env \<noteq> lg_name l \<longrightarrow> env_Status env = (st, None) \<longrightarrow> Logic_handleMsgBusStatus env l' = Diverge) \<and>
    (\<forall>env up. Sender env \<noteq> lg_name l \<longrightarrow> env_Update env = (up, None) \<longrightarrow> Logic_handleMsgBusUpdate env l' = Diverge)"
proof -
  note ex = execute_spec(1) [OF assms(2)]
  have l1: "lg_name l1 = lg_name l" "lg_pusher l1 = lg_pusher l" "program_vars l1 = program_vars l" "lg_varToTag l1 = lg_varToTag l"
    "lg_locked l1"
    by (subst ex, simp add: program_vars_def)+
  let ?tags = "collect l1 (program_vars l1) []"
  have "map_of ?tags t = Some (tagged_point l1 t x)" using assms(4) by (simp add: collect_map_of l1)
  then have mem: "(t, tagged_point l1 t x) \<in> set ?tags" by (rule map_of_SomeD)
  then have "tagged_point l1 t x \<in> set (map snd (visit ?tags))"
    using permutes_set [OF assms(3), of ?tags] by force
  with assms(5) have "\<not> points_finite (map snd (visit ?tags))"
    by (force simp: points_finite_def list_all_iff tagged_point_def)
  with mem have "publish_status visit l1 = None"
    by (auto simp: publish_status_def program_vars_def [symmetric] push_contents_def NewEnvelope_def Let_def)
  from tick_rounds(1) [OF assms(1,2) this] show ?thesis
    using l1 locked_forever [OF l1(5)] by auto
qed

text \<open>The average of no numbers is 0/0.\<close>

lemma avg_loop_values:
  "avg_loop env es s n = (sum_loop env es s, n + int (length (env_values env es)))"
  by (induction es arbitrary: s n) (simp_all split: option.split)

lemma env_avg_nothing: "env_values env es = [] \<Longrightarrow> sum_loop env es s = s"
  by (induction es arbitrary: s) (auto split: option.splits)

lemma avg_nan: "\<not> f64_finite (f64_div f64_zero (f64_of_int 0))" "f64_is_nan (f64_div f64_zero (f64_of_int 0))"
  by (simp_all add: fp_eval f64_finite_def cong: let_weak_cong)

text \<open>Avg is the sum divided by the number of numbers among its arguments, and it is not a number when
  there are none.\<close>

lemma avg_is_sum_over_count:
  "env_avg env es = f64_div (env_sum env es) (f64_of_int (int (length (env_values env es)))) \<and>
   (env_values env es = [] \<longrightarrow> f64_is_nan (env_avg env es))"
  using avg_nan(2) by (simp add: env_avg_def env_sum_def avg_loop_values env_avg_nothing)

lemma avg_is_sum_over_count_witness:
  "f64_is_nan (env_avg Map.empty [VString ''missing'', VBool True])"
proof -
  have "env_values Map.empty [VString ''missing'', VBool True] = []" by (simp add: arg_value_def)
  with avg_is_sum_over_count [of Map.empty "[VString ''missing'', VBool True]"] show ?thesis by blast
qed

theorem unpublishable_value_deadlocks_witness:
  "\<exists>l'. logic_tick demo_expr id (demo_logic (\<lambda>env. Inr (VFloat (env_avg env []))), ()) = Done (l', ()) \<and>
    lg_locked l' \<and> (\<forall>visit' r'. logic_tick demo_expr visit' (l', r') = Diverge)"
proof -
  let ?f = "\<lambda>env. Inr (VFloat (env_avg env [])) :: val result"
  let ?nan = "f64_div f64_zero (f64_of_int 0)"
  let ?l1 = "(demo_logic ?f)\<lparr>lg_locked := True, lg_env := [''x'' \<mapsto> VFloat ?nan]\<rparr>"
  have "go_eq (VFloat ?nan) (VFloat f64_zero) = Done False"
    using avg_nan(2) by (simp add: go_eq_def f64_eq_def)
  then have e: "execute demo_expr ((demo_logic ?f)\<lparr>lg_locked := True\<rparr>) () = (Done [''x''], ?l1, ())"
    by (subst demo_execute [where v = "VFloat ?nan" and b = False]) (simp_all add: env_avg_def)
  have "find (\<lambda>x. lg_varToTag (demo_logic ?f) x = Some ''t'') (rev (program_vars (demo_logic ?f))) = Some ''x''"
    by (simp add: program_vars_def demo_logic_simps)
  moreover have "\<not> f64_finite (value_of ?l1 ''x'')" using avg_nan(1) by (simp add: lookup0_def)
  ultimately show ?thesis
    using unpublishable_value_deadlocks [OF demo_logic_simps(4) e, of id "''t''" "''x''"]
    by (auto simp: permutes_map_def)
qed

text \<open>A tagged variable that holds a list crashes the program. When the first line of the program assigns
  a tagged variable and its result is a list of numbers, as values returns, while the variable holds such
  a list already, comparing the two panics.\<close>

lemma list_variable_panics:
  assumes "\<not> lg_locked l" "lg_order l = x # xs" "x \<noteq> []" "\<not> HasPrefix x ''sprintf''" "lg_varToTag l x \<noteq> None"
    and "RunExpr api (lg_program l 0) (lg_env l) r = (Inr (VFloats new), r1)" "lg_env l x = Some (VFloats old)"
  shows "logic_tick api visit (l, r) = Panic"
  using assms by (auto simp: logic_tick_def execute_def go_eq_def lookup0_def)

lemma list_variable_panics_witness:
  "logic_tick demo_expr id
     ((demo_logic (\<lambda>env. Inr (VFloats (env_values env []))))\<lparr>lg_env := [''x'' \<mapsto> VFloats []]\<rparr>, ()) = Panic"
  by (rule list_variable_panics [where x = "''x''" and xs = "[]" and new = "[]" and old = "[]"])
    (simp_all add: demo_logic_simps demo_expr_def)

section \<open>Messages\<close>

lemma set_vars_spec:
  "set_vars t2v ps env v =
     (case find (\<lambda>p. t2v (pt_tag p) = Some v) (rev ps) of Some p \<Rightarrow> Some (VFloat (pt_value p)) | None \<Rightarrow> env v)"
  by (induction ps arbitrary: env) (auto simp: find_append split: option.split)

definition settle :: "('p Logic \<Rightarrow> 'p Logic outcome) \<Rightarrow> 'p Logic \<Rightarrow> 'p Logic" where
  "settle h l = (case h l of Done l' \<Rightarrow> l' | _ \<Rightarrow> l)"

interpretation lgs: bus_handler lg_name "\<lambda>env. settle (Logic_handleMsgBusStatus env)"
  by unfold_locales
    (auto simp: settle_def Logic_handleMsgBusStatus_def with_lock_def split: outcome.splits prod.splits option.splits if_splits)

interpretation lgu: bus_handler lg_name "\<lambda>env. settle (Logic_handleMsgBusUpdate env)"
  by unfold_locales
    (auto simp: settle_def Logic_handleMsgBusUpdate_def with_lock_def split: outcome.splits prod.splits option.splits if_splits)

text \<open>A status sets the variables of the tags it names. While the mutex is free, a status of another
  module gives each variable the last measurement of a tag that maps to it, as a float, and leaves every other
  variable alone; the module's own status, and one that cannot be decoded, change nothing.\<close>

lemma status_sets_variables:
  assumes "\<not> lg_locked l"
  shows "\<exists>l'. Logic_handleMsgBusStatus env l = Done l' \<and>
    (\<forall>v. lg_env l' v =
      (if Sender env \<noteq> lg_name l \<and> snd (env_Status env) = None
       then (case find (\<lambda>p. lg_tagToVar l (pt_tag p) = Some v) (rev (Measurements (fst (env_Status env)))) of
               Some p \<Rightarrow> Some (VFloat (pt_value p)) | None \<Rightarrow> lg_env l v)
       else lg_env l v)) \<and> lg_order l' = lg_order l \<and> \<not> lg_locked l'"
  using assms
  by (auto simp: Logic_handleMsgBusStatus_def with_lock_def set_vars_spec split: prod.split option.split)

lemma status_sets_variables_witness:
  "\<exists>env l'. NewEnvelope ''rtu'' (C_Status \<lparr>Measurements = [\<lparr>pt_tag = ''t'', pt_value = f64_one, pt_ts = 0\<rparr>]\<rparr>) = Inr env \<and>
     Logic_handleMsgBusStatus env (demo_logic (\<lambda>env. Inr VNil)) = Done l' \<and> lg_env l' ''x'' = Some (VFloat f64_one)"
proof -
  let ?st = "\<lparr>Measurements = [\<lparr>pt_tag = ''t'', pt_value = f64_one, pt_ts = 0\<rparr>]\<rparr>"
  have "points_finite (Measurements ?st)" by (simp add: points_finite_def f64_finite_def f64_mag_def f64_inf_mag_def f64_one_def)
  then obtain env where env: "NewEnvelope ''rtu'' (C_Status ?st) = Inr env"
    using NewEnvelope_fails_iff(1) [of "''rtu''" ?st] by blast
  note e = Sender_NewEnvelope [OF env] env_Status_NewEnvelope [OF env]
  obtain l' where l': "Logic_handleMsgBusStatus env (demo_logic (\<lambda>env. Inr VNil)) = Done l'"
    "lg_env l' ''x'' = (case find (\<lambda>p. lg_tagToVar (demo_logic (\<lambda>env. Inr VNil)) (pt_tag p) = Some ''x'') (rev (Measurements ?st)) of
       Some p \<Rightarrow> Some (VFloat (pt_value p)) | None \<Rightarrow> lg_env (demo_logic (\<lambda>env. Inr VNil)) ''x'')"
    using status_sets_variables [OF demo_logic_simps(4) [of "\<lambda>env. Inr VNil"], of env]
    unfolding e demo_logic_simps(6) by auto
  from l'(2) have "lg_env l' ''x'' = Some (VFloat f64_one)" by (simp add: demo_logic_simps(8))
  with env l'(1) show ?thesis by blast
qed

section \<open>Runs of the module\<close>

text \<open>The states of a running module: configured and started, then rounds of the program and messages in
  any order.\<close>

inductive logic_run :: "go_impl \<Rightarrow> ('p, 'r) expr_api \<Rightarrow> 'p Logic \<Rightarrow> bool" for impl api where
  started: "Logic_Configure impl api es (NewLogic n p) = Inr l \<Longrightarrow> Logic_start pull np l = Inr l' \<Longrightarrow> logic_run impl api l'"
| tick: "logic_run impl api l \<Longrightarrow> logic_tick api visit (l, r) = Done (l', r') \<Longrightarrow> logic_run impl api l'"
| status: "logic_run impl api l \<Longrightarrow> Logic_handleMsgBusStatus env l = Done l' \<Longrightarrow> logic_run impl api l'"
| update: "logic_run impl api l \<Longrightarrow> lg_processUpdates l \<Longrightarrow> Logic_handleMsgBusUpdate env l = Done l' \<Longrightarrow> logic_run impl api l'"

text \<open>What a step may change: contents of the environment, the mutex and the pusher.\<close>

definition logic_step_frame :: "'p Logic \<Rightarrow> 'p Logic \<Rightarrow> bool" where
  "logic_step_frame l l' \<longleftrightarrow>
     (\<exists>e k p. l' = l\<lparr>lg_env := e, lg_locked := k, lg_pusher := p\<rparr> \<and> dom (lg_env l) \<subseteq> dom e)"

lemma logic_ok_frame: "logic_step_frame l l' \<Longrightarrow> logic_ok l \<Longrightarrow> logic_ok l'"
  unfolding logic_step_frame_def logic_ok_def by (elim exE conjE, intro conjI) (simp_all add: subset_trans)

lemma execute_loop_keeps:
  "execute_loop api prog v2t i xs env r updated = (out, env', r') \<Longrightarrow> \<exists>v. env x = Some v \<Longrightarrow> \<exists>v. env' x = Some v"
proof (induction xs arbitrary: i env r updated)
  case (Cons y ys)
  have IH: "\<exists>v. env' x = Some v" if "execute_loop api prog v2t (Suc i) ys e r1 u = (out, env', r')"
    "e = env \<or> (\<exists>v. e = env(y \<mapsto> v))" for e r1 u
    using Cons.IH [OF that(1)] that(2) Cons.prems(2) by auto
  from Cons.prems show ?case
    by (auto split: if_splits prod.splits sum.splits option.splits outcome.splits intro: IH)
qed simp

lemma set_vars_dom: "dom env \<subseteq> dom (set_vars t2v ps env)"
  by (auto simp: set_vars_spec split: option.split)

lemma frame_update:
  assumes "logic_step_frame l l'"
  shows "logic_step_frame l (l'\<lparr>lg_pusher := p\<rparr>)" "logic_step_frame l (l'\<lparr>lg_locked := b\<rparr>)"
proof -
  obtain e k q where l': "l' = l\<lparr>lg_env := e, lg_locked := k, lg_pusher := q\<rparr>" "dom (lg_env l) \<subseteq> dom e"
    using assms unfolding logic_step_frame_def by blast
  then have "l'\<lparr>lg_pusher := p\<rparr> = l\<lparr>lg_env := e, lg_locked := k, lg_pusher := p\<rparr>"
    "l'\<lparr>lg_locked := b\<rparr> = l\<lparr>lg_env := e, lg_locked := b, lg_pusher := q\<rparr>" by simp_all
  with l'(2) show "logic_step_frame l (l'\<lparr>lg_pusher := p\<rparr>)" "logic_step_frame l (l'\<lparr>lg_locked := b\<rparr>)"
    unfolding logic_step_frame_def by blast+
qed

lemma frame_env: "dom (lg_env l) \<subseteq> dom e \<Longrightarrow> logic_step_frame l (l\<lparr>lg_env := e\<rparr>)"
  unfolding logic_step_frame_def
  by (intro exI [of _ e] exI [of _ "lg_locked l"] exI [of _ "lg_pusher l"]) simp

lemma frame_refl: "logic_step_frame l l"
  using frame_env [of l "lg_env l"] by simp

lemma frame_unlocked: "logic_step_frame (l\<lparr>lg_locked := k\<rparr>) l' \<Longrightarrow> logic_step_frame l l'"
  by (auto simp: logic_step_frame_def)

lemma publish_frame:
  "logic_step_frame l l1 \<Longrightarrow> publish_status visit l1 = Some l' \<Longrightarrow> logic_step_frame l l'"
  "logic_step_frame l l1 \<Longrightarrow> publish_changes visit updated l1 = Some l' \<Longrightarrow> logic_step_frame l l'"
  by (auto simp: publish_status_def publish_changes_def push_contents_def Let_def split: if_splits sum.splits
      intro: frame_update)

lemma execute_frame:
  assumes "execute api l r = (out, l1, r1)"
  shows "logic_step_frame l l1"
proof -
  obtain env where e: "execute_loop api (lg_program l) (lg_varToTag l) 0 (lg_order l) (lg_env l) r [] = (out, env, r1)"
    "l1 = l\<lparr>lg_env := env\<rparr>"
    using assms by (auto simp: execute_def split: prod.splits)
  have "dom (lg_env l) \<subseteq> dom env" using execute_loop_keeps [OF e(1)] by (auto simp: dom_def)
  with e(2) show ?thesis by (simp add: frame_env)
qed

lemma logic_tick_frame:
  assumes "logic_tick api visit (l, r) = Done (l', r')"
  shows "logic_step_frame l l'"
proof -
  obtain updated l1 where ex: "execute api (l\<lparr>lg_locked := True\<rparr>) r = (Done updated, l1, r')"
    and rest: "publish_status visit l1 = None \<and> l' = l1 \<or>
      (\<exists>l2. publish_status visit l1 = Some l2 \<and>
        (l' = l2 \<or> (\<exists>l3. publish_changes visit updated l2 = Some l3 \<and> l' = l3\<lparr>lg_locked := False\<rparr>)))"
    using assms by (auto simp: logic_tick_def split: if_splits outcome.splits prod.splits option.splits)
  have "logic_step_frame l l1" using execute_frame [OF ex] by (rule frame_unlocked)
  with rest show ?thesis by (auto dest: publish_frame intro: frame_update)
qed

lemma handler_frame:
  "Logic_handleMsgBusStatus env l = Done l' \<Longrightarrow> logic_step_frame l l'"
  "Logic_handleMsgBusUpdate env l = Done l' \<Longrightarrow> logic_step_frame l l'"
  by (auto simp: Logic_handleMsgBusStatus_def Logic_handleMsgBusUpdate_def with_lock_def
      split: if_splits prod.splits option.splits intro: frame_refl frame_env [OF set_vars_dom])

lemma logic_run_ok: "logic_run impl api l \<Longrightarrow> logic_ok l"
proof (induction rule: logic_run.induct)
  case (started es n p l pull np l')
  have "logic_ok l" using started(1) by (rule Logic_Configure_ok [OF NewLogic_ok])
  then have "logic_ok (l\<lparr>lg_pusher := q\<rparr>)" for q by (simp add: logic_ok_def)
  then show ?case using started(2) initEnv_ok by (auto simp: Logic_start_def Let_def split: if_splits)
qed (auto intro: logic_ok_frame logic_tick_frame handler_frame)

text \<open>In every state the module reaches, each line it runs has a compiled program, so the expression
  library is never handed a missing one; every variable with a tag is declared and has a value; and a tag
  only ever sets a declared variable.\<close>

lemma logic_run_invariant:
  assumes "logic_run impl api l"
  shows "(\<forall>i < length (lg_order l). lg_order l ! i \<noteq> [] \<longrightarrow> lg_program l i \<noteq> None) \<and>
    dom (lg_varToTag l) = set (lg_variables l) \<and> ran (lg_tagToVar l) \<subseteq> set (lg_variables l) \<and>
    set (lg_variables l) \<subseteq> dom (lg_env l)"
  using logic_run_ok [OF assms] unfolding logic_ok_def .

definition demo_compiler :: "(vars \<Rightarrow> val result, unit) expr_api" where
  "demo_compiler = demo_expr\<lparr>Compile := (\<lambda>_. Some (\<lambda>env. Inr (VInt 1)))\<rparr>"

definition demo_program :: "element list" where
  "demo_program =
     [node ''variables'' [] [] [node ''x'' [(''tag'', ''t'')] ''true'' []], node ''program'' [] ''x = 1'' []]"

lemma demo_program_ok:
  "\<exists>l. Logic_Configure demo_impl demo_compiler demo_program (NewLogic ''logic'' p) = Inr l \<and>
    lg_program l 0 \<noteq> None \<and> lg_variables l = [''x'']"
proof -
  have pf: "ParseFloat ''true'' = None"
    by (simp add: ParseFloat_def EqualFold_def to_lower_char_def read_float_def lower_def is_digit_def)
  have trim: "TrimSpace ''x '' = ''x''" "TrimSpace '' 1'' = ''1''"
    by (simp_all add: TrimSpace_def white_space_def)
  show ?thesis
    by (simp add: demo_program_def logic_child_def pf trim ParseBool_def program_line_def demo_compiler_def NewLogic_def Let_def)
qed

lemma logic_run_invariant_witness:
  "\<exists>l. logic_run demo_impl demo_compiler l \<and> lg_variables l = [''x''] \<and>
    (\<forall>i < length (lg_order l). lg_order l ! i \<noteq> [] \<longrightarrow> lg_program l i \<noteq> None) \<and> set (lg_variables l) \<subseteq> dom (lg_env l)"
proof -
  obtain l where l: "Logic_Configure demo_impl demo_compiler demo_program (NewLogic ''logic'' \<lparr>sock = (\<lambda>_. True), attempts = 0, sent = []\<rparr>) = Inr l"
    "lg_program l 0 \<noteq> None" "lg_variables l = [''x'']"
    using demo_program_ok by blast
  then have start: "Logic_start [] (\<lambda>_. \<lparr>sock = (\<lambda>_. True), attempts = 0, sent = []\<rparr>) l = Inr (initEnv (l\<lparr>lg_pusher := \<lparr>sock = (\<lambda>_. True), attempts = 0, sent = []\<rparr>\<rparr>))"
    by (auto simp: Logic_start_def)
  have "logic_run demo_impl demo_compiler (initEnv (l\<lparr>lg_pusher := \<lparr>sock = (\<lambda>_. True), attempts = 0, sent = []\<rparr>\<rparr>))"
    by (rule logic_run.started [OF l(1) start])
  with logic_run_invariant [OF this] l(3) show ?thesis
    by (intro exI [of _ "initEnv (l\<lparr>lg_pusher := \<lparr>sock = (\<lambda>_. True), attempts = 0, sent = []\<rparr>\<rparr>)"]) (simp add: initEnv_def)
qed

end
