(* ===== verification/Util.thy ===== *)
theory Util
  imports GoText
begin

text \<open>
  The package util (context.go, exit.go, slice.go) and the values that travel in a
  context.Context: the path of the configuration file and, set by the CPU module
  (cpu/context.go), the log services. A key that was never set has no value.
\<close>

record Context =
  configFileKey :: "string option"
  elasticEndpointKey :: "string option"
  elasticIndexKey :: "string option"
  lokiEndpointKey :: "string option"

definition Background :: Context where
  "Background = \<lparr>configFileKey = None, elasticEndpointKey = None, elasticIndexKey = None, lokiEndpointKey = None\<rparr>"

section \<open>context.go\<close>

definition SetConfigFile :: "Context \<Rightarrow> string \<Rightarrow> Context" where
  "SetConfigFile ctx path = ctx\<lparr>configFileKey := Some path\<rparr>"

definition ConfigFile :: "Context \<Rightarrow> string \<times> bool" where
  "ConfigFile ctx = (case configFileKey ctx of Some path \<Rightarrow> (path, True) | None \<Rightarrow> ([], False))"

definition MustConfigFile :: "Context \<Rightarrow> string outcome" where
  "MustConfigFile ctx = (case ConfigFile ctx of (path, ok) \<Rightarrow> if ok then Done path else Panic)"

section \<open>exit.go\<close>

definition ExitNoRestart :: int where "ExitNoRestart = 101"

record ExitError =
  ExitCode :: int
  errorMsg :: string

definition NewExitError :: "int \<Rightarrow> string \<Rightarrow> ExitError" where
  "NewExitError code msg = \<lparr>ExitCode = code, errorMsg = msg\<rparr>"

text \<open>The error of the Run of a module may carry an exit code.\<close>

datatype run_error = Plain_Error string | Exit_Error ExitError

section \<open>slice.go\<close>

fun SliceContains :: "'a list \<Rightarrow> 'a \<Rightarrow> bool" where
  "SliceContains [] v = False"
| "SliceContains (e # s) v = (if v = e then True else SliceContains s v)"

section \<open>context.go of the CPU module\<close>

definition ctxSetElasticEndpoint :: "Context \<Rightarrow> string \<Rightarrow> Context" where
  "ctxSetElasticEndpoint ctx endpoint = ctx\<lparr>elasticEndpointKey := Some endpoint\<rparr>"

definition ctxGetElasticEndpoint :: "Context \<Rightarrow> string" where
  "ctxGetElasticEndpoint ctx = (case elasticEndpointKey ctx of None \<Rightarrow> [] | Some endpoint \<Rightarrow> endpoint)"

definition ctxSetElasticIndex :: "Context \<Rightarrow> string \<Rightarrow> Context" where
  "ctxSetElasticIndex ctx index = ctx\<lparr>elasticIndexKey := Some index\<rparr>"

definition ctxGetElasticIndex :: "Context \<Rightarrow> string" where
  "ctxGetElasticIndex ctx = (case elasticIndexKey ctx of None \<Rightarrow> [] | Some index \<Rightarrow> index)"

definition ctxSetLokiEndpoint :: "Context \<Rightarrow> string \<Rightarrow> Context" where
  "ctxSetLokiEndpoint ctx endpoint = ctx\<lparr>lokiEndpointKey := Some endpoint\<rparr>"

definition ctxGetLokiEndpoint :: "Context \<Rightarrow> string" where
  "ctxGetLokiEndpoint ctx = (case lokiEndpointKey ctx of None \<Rightarrow> [] | Some endpoint \<Rightarrow> endpoint)"

lemmas ctx_defs = SetConfigFile_def ConfigFile_def MustConfigFile_def ctxSetElasticEndpoint_def ctxGetElasticEndpoint_def
  ctxSetElasticIndex_def ctxGetElasticIndex_def ctxSetLokiEndpoint_def ctxGetLokiEndpoint_def

section \<open>strings.ReplaceAll\<close>

text \<open>Every occurrence of a text that is not empty, from the left; k bytes of the last one are still to be skipped.\<close>

fun replace_loop :: "string \<Rightarrow> string \<Rightarrow> nat \<Rightarrow> string \<Rightarrow> string" where
  "replace_loop old new k [] = []"
| "replace_loop old new (Suc k) (c # cs) = replace_loop old new k cs"
| "replace_loop old new 0 (c # cs) =
     (if HasPrefix (c # cs) old then new @ replace_loop old new (length old - 1) cs
      else c # replace_loop old new 0 cs)"

definition ReplaceAll :: "string \<Rightarrow> string \<Rightarrow> string \<Rightarrow> string" where
  "ReplaceAll s old new = replace_loop old new 0 s"

section \<open>Facts\<close>

lemma SliceContains_iff [simp]: "SliceContains s v \<longleftrightarrow> v \<in> set s"
  by (induction s) simp_all

lemma ctx_get_set [simp]:
  "ctxGetElasticEndpoint (ctxSetElasticEndpoint ctx e) = e"
  "ctxGetElasticIndex (ctxSetElasticIndex ctx i) = i"
  "ctxGetLokiEndpoint (ctxSetLokiEndpoint ctx l) = l"
  "ConfigFile (SetConfigFile ctx p) = (p, True)"
  by (simp_all add: ctx_defs)

lemma ctx_config_kept [simp]:
  "MustConfigFile (ctxSetElasticEndpoint ctx e) = MustConfigFile ctx"
  "MustConfigFile (ctxSetElasticIndex ctx i) = MustConfigFile ctx"
  "MustConfigFile (ctxSetLokiEndpoint ctx l) = MustConfigFile ctx"
  by (simp_all add: ctx_defs)

lemma MustConfigFile_Set [simp]: "MustConfigFile (SetConfigFile ctx p) = Done p"
  by (simp add: ctx_defs)

end
