(* ===== verification/OtSim.thy ===== *)
theory OtSim
  imports Etree Util
begin

text \<open>
  The package otsim (ot-sim.go): the registry of module factories, the configuration
  file, and the start of the configured modules. A module is any type with the
  operations of the interfaces Module and Runner; the modules of a program share the
  variables of their packages, and what their Run leaves running, which is the second
  type parameter of the operations.
\<close>

section \<open>State\<close>

type_synonym 'm factory = "element \<Rightarrow> 'm result"

record 'm otsim =
  factories :: "string \<rightharpoonup> 'm factory"
  runners :: "'m list"
  ot_pubEndpoint :: string
  ot_pullEndpoint :: string

text \<open>The methods of a module; one that is no Runner has no Run. What Configure changes before it fails stays changed.\<close>

record ('m, 'g) module_ops =
  Name :: "'m \<Rightarrow> string"
  Configure :: "element \<Rightarrow> 'm \<times> 'g \<Rightarrow> string option \<times> 'm \<times> 'g"
  Run :: "'m \<Rightarrow> (string \<Rightarrow> string \<Rightarrow> 'g \<Rightarrow> run_error option outcome \<times> 'g) option"

definition no_modules :: "'m otsim" where
  "no_modules = \<lparr>factories = Map.empty, runners = [], ot_pubEndpoint = [], ot_pullEndpoint = []\<rparr>"

definition AddModuleFactory :: "string \<Rightarrow> 'm factory \<Rightarrow> 'm otsim \<Rightarrow> 'm otsim" where
  "AddModuleFactory tag f s = s\<lparr>factories := (factories s)(tag \<mapsto> f)\<rparr>"

text \<open>The Configure of a module that touches no variable of its package.\<close>

definition own_configure :: "(element \<Rightarrow> 'm \<Rightarrow> 'm result) \<Rightarrow> element \<Rightarrow> 'm \<times> 'g \<Rightarrow> string option \<times> 'm \<times> 'g" where
  "own_configure conf e st = (case st of (m, g) \<Rightarrow> (case conf e m of Inl err \<Rightarrow> (Some err, m, g) | Inr m' \<Rightarrow> (None, m', g)))"

section \<open>The configuration file\<close>

fun bus_children :: "element list \<Rightarrow> 'm otsim \<Rightarrow> 'm otsim" where
  "bus_children [] s = s"
| "bus_children (c # cs) s =
     bus_children cs
       (if Tag c = ''pub-endpoint'' then s\<lparr>ot_pubEndpoint := Text c\<rparr>
        else if Tag c = ''pull-endpoint'' then s\<lparr>ot_pullEndpoint := Text c\<rparr>
        else s)"

text \<open>The loop over the children of the root; modules configured before an error stay registered.\<close>

fun module_children :: "('m, 'g) module_ops \<Rightarrow> element list \<Rightarrow> 'm otsim \<Rightarrow> 'g \<Rightarrow> string option \<times> 'm otsim \<times> 'g" where
  "module_children ops [] s g = (None, s, g)"
| "module_children ops (c # cs) s g =
     (case factories s (Tag c) of
        None \<Rightarrow> module_children ops cs s g
      | Some f \<Rightarrow>
          (case f c of
             Inl err \<Rightarrow> (Some ''creating new module'', s, g)
           | Inr m \<Rightarrow>
               (case Configure ops c (m, g) of
                  (Some err, m', g') \<Rightarrow> (Some ''running configure for module'', s, g')
                | (None, m', g') \<Rightarrow>
                    module_children ops cs (if Run ops m' \<noteq> None then s\<lparr>runners := runners s @ [m']\<rparr> else s) g')))"

text \<open>The document as etree reads it: an error, or the root element named ot-sim, if it has that
  name, with the first element its path search finds for the message bus.\<close>

type_synonym document = "(element \<times> element option) option result"

definition ParseConfigFile :: "('m, 'g) module_ops \<Rightarrow> document \<Rightarrow> 'm otsim \<Rightarrow> 'g \<Rightarrow> string option \<times> 'm otsim \<times> 'g" where
  "ParseConfigFile ops doc s g =
     (case doc of
        Inl err \<Rightarrow> (Some ''reading XML config file'', s, g)
      | Inr None \<Rightarrow> (Some ''root element of XML config file must be ot-sim'', s, g)
      | Inr (Some (root, bus)) \<Rightarrow>
          let s1 = (case bus of None \<Rightarrow> s | Some b \<Rightarrow> bus_children (ChildElements b) s)
          in module_children ops (ChildElements root) s1 g)"

text \<open>Starting the runners in order: those started, and how it ended. A runner may return with or without an error, panic,
  or never return. The error of a runner is wrapped, which keeps an exit code it carries.\<close>

definition starting :: "run_error \<Rightarrow> run_error" where
  "starting e = (case e of Plain_Error _ \<Rightarrow> Plain_Error ''starting'' | Exit_Error x \<Rightarrow> Exit_Error x)"

definition plain :: "string option outcome \<Rightarrow> run_error option outcome" where
  "plain r = map_outcome (map_option Plain_Error) r"

fun start_runners :: "('m, 'g) module_ops \<Rightarrow> string \<Rightarrow> string \<Rightarrow> 'm list \<Rightarrow> 'g \<Rightarrow> 'm list \<times> run_error option outcome \<times> 'g" where
  "start_runners ops pub pull [] g = ([], Done None, g)"
| "start_runners ops pub pull (m # ms) g =
     (case Run ops m of
        None \<Rightarrow> start_runners ops pub pull ms g
      | Some run \<Rightarrow>
          (case run pub pull g of
             (Done None, g') \<Rightarrow> (case start_runners ops pub pull ms g' of (started, r) \<Rightarrow> (m # started, r))
           | (Done (Some err), g') \<Rightarrow> ([], Done (Some (starting err)), g')
           | (Panic, g') \<Rightarrow> ([], Panic, g')
           | (Diverge, g') \<Rightarrow> ([], Diverge, g')))"

definition Start :: "('m, 'g) module_ops \<Rightarrow> 'm otsim \<Rightarrow> 'g \<Rightarrow> 'm list \<times> run_error option outcome \<times> 'g" where
  "Start ops s g =
     (if runners s = [] then ([], Done (Some (Plain_Error ''no registered runners'')), g)
      else start_runners ops (ot_pubEndpoint s) (ot_pullEndpoint s) (runners s) g)"

section \<open>What the configuration guarantees\<close>

text \<open>
  The contract of a kind of modules: some property holds of every module its factory
  makes once it is configured, and configuring another module keeps it, whether that fails or not.
  Then it holds of all modules that are started.
\<close>

locale module_kind =
  fixes ops :: "('m, 'g) module_ops" and good :: "'g \<Rightarrow> 'm \<Rightarrow> bool" and sound :: "'g \<Rightarrow> bool" and make :: "element \<Rightarrow> 'm result"
  assumes configured_sound: "sound g \<Longrightarrow> make e = Inr m \<Longrightarrow> Configure ops e (m, g) = (err, m', g') \<Longrightarrow> sound g'"
    and configured_good: "sound g \<Longrightarrow> make e = Inr m \<Longrightarrow> Configure ops e (m, g) = (None, m', g') \<Longrightarrow> good g' m'"
    and others_good: "sound g \<Longrightarrow> make e = Inr m \<Longrightarrow> good g x \<Longrightarrow> Configure ops e (m, g) = (err, m', g') \<Longrightarrow> good g' x"
begin

lemma module_children_good:
  assumes "ran (factories s) \<subseteq> {make}" "sound g" "\<forall>m \<in> set (runners s). good g m" "module_children ops es s g = (err, s', g')"
  shows "sound g' \<and> (\<forall>m \<in> set (runners s'). good g' m)"
  using assms
proof (induction es arbitrary: s g)
  case (Cons e es)
  show ?case
  proof (cases "factories s (Tag e)")
    case None
    with Cons show ?thesis by auto
  next
    case (Some f)
    then have f: "f = make" using Cons.prems(1) by (auto simp: ran_def)
    show ?thesis
    proof (cases "make e")
      case (Inl x)
      with Some f Cons.prems show ?thesis by auto
    next
      case (Inr m)
      obtain r m1 g1 where c: "Configure ops e (m, g) = (r, m1, g1)" by (cases "Configure ops e (m, g)")
      have s1: "sound g1" and o1: "\<forall>x \<in> set (runners s). good g1 x"
        using configured_sound [OF Cons.prems(2) Inr c] others_good [OF Cons.prems(2) Inr _ c] Cons.prems(3) by blast+
      show ?thesis
      proof (cases r)
        case None
        have "good g1 m1" using configured_good [OF Cons.prems(2) Inr] c None by blast
        let ?s = "if Run ops m1 \<noteq> None then s\<lparr>runners := runners s @ [m1]\<rparr> else s"
        have rec: "module_children ops es ?s g1 = (err, s', g')" using Cons.prems(4) Some f Inr c None by simp
        show ?thesis by (rule Cons.IH [OF _ s1 _ rec]) (use Cons.prems(1) o1 \<open>good g1 m1\<close> in auto)
      next
        case (Some x)
        with \<open>factories s (Tag e) = Some f\<close> f Inr c Cons.prems(4) s1 o1 show ?thesis by auto
      qed
    qed
  qed
qed simp

lemma bus_children_keeps:
  "factories (bus_children cs s) = factories s" "runners (bus_children cs s) = runners s"
  by (induction cs arbitrary: s) simp_all

lemma parsed_good:
  assumes "ran (factories s) \<subseteq> {make}" "runners s = []" "sound g" "ParseConfigFile ops doc s g = (err, s', g')"
  shows "sound g' \<and> (\<forall>m \<in> set (runners s'). good g' m)"
proof (cases "\<exists>root bus. doc = Inr (Some (root, bus))")
  case True
  then obtain root bus where d: "doc = Inr (Some (root, bus))" by blast
  let ?s = "case bus of None \<Rightarrow> s | Some b \<Rightarrow> bus_children (ChildElements b) s"
  have s: "ran (factories ?s) \<subseteq> {make}" "\<forall>m \<in> set (runners ?s). good g m"
    using assms(1,2) by (auto simp: bus_children_keeps split: option.splits)
  have "module_children ops (ChildElements root) ?s g = (err, s', g')"
    using assms(4) d by (simp add: ParseConfigFile_def)
  from module_children_good [OF s(1) assms(3) s(2) this] show ?thesis .
next
  case False
  with assms(2-4) show ?thesis
    by (auto simp: ParseConfigFile_def split: sum.splits option.splits prod.splits)
qed

end

text \<open>Running modules one after the other, all of them without an error.\<close>

fun run_all :: "('m, 'g) module_ops \<Rightarrow> string \<Rightarrow> string \<Rightarrow> 'm list \<Rightarrow> 'g \<Rightarrow> 'g option" where
  "run_all ops pub pull [] g = Some g"
| "run_all ops pub pull (m # ms) g =
     (case Run ops m of
        None \<Rightarrow> None
      | Some run \<Rightarrow> (case run pub pull g of (Done None, g') \<Rightarrow> run_all ops pub pull ms g' | _ \<Rightarrow> None))"

lemma start_runners_run_all:
  "run_all ops pub pull before g = Some g1 \<Longrightarrow>
     start_runners ops pub pull (before @ rest) g =
       (case start_runners ops pub pull rest g1 of (started, r) \<Rightarrow> (before @ started, r))"
  by (induction before arbitrary: g) (auto split: option.splits prod.splits outcome.splits)

lemma start_runners_spec:
  assumes "list_all (\<lambda>m. Run ops m \<noteq> None) ms" "start_runners ops pub pull ms g = (started, e, g')"
  shows "\<exists>rest g1. ms = started @ rest \<and> run_all ops pub pull started g = Some g1 \<and>
    (case rest of
       [] \<Rightarrow> e = Done None \<and> g' = g1
     | m # _ \<Rightarrow> \<exists>r. the (Run ops m) pub pull g1 = (r, g') \<and> r \<noteq> Done None \<and> e = map_outcome (map_option starting) r)"
  using assms
proof (induction ms arbitrary: g started)
  case (Cons m ms)
  obtain run where run: "Run ops m = Some run" using Cons.prems(1) by auto
  obtain r g0 where r: "run pub pull g = (r, g0)" by (cases "run pub pull g")
  show ?case
  proof (cases "r = Done None")
    case True
    then obtain st where st: "started = m # st" "start_runners ops pub pull ms g0 = (st, e, g')"
      using Cons.prems(2) run r by (auto split: prod.splits)
    from Cons.IH [OF _ st(2)] Cons.prems(1) obtain rest g1 where
      i: "ms = st @ rest" "run_all ops pub pull st g0 = Some g1"
        "case rest of [] \<Rightarrow> e = Done None \<and> g' = g1
         | m # _ \<Rightarrow> \<exists>r. the (Run ops m) pub pull g1 = (r, g') \<and> r \<noteq> Done None \<and> e = map_outcome (map_option starting) r" by auto
    have "m # ms = started @ rest" "run_all ops pub pull started g = Some g1" using i(1,2) st(1) run r True by simp_all
    with i(3) show ?thesis by blast
  next
    case False
    then have "started = []" "g' = g0" "e = map_outcome (map_option starting) r"
      using Cons.prems(2) run r by (auto split: outcome.splits option.splits)
    then show ?thesis using run r False by (intro exI [of _ "m # ms"] exI [of _ g]) simp
  qed
qed simp

lemma failure_is_no_success: "r \<noteq> Done None \<Longrightarrow> map_outcome (map_option f) r \<noteq> Done None"
  by (cases r) simp_all

text \<open>Modules are started in the order of the file. Start runs the registered modules one by one with the
  endpoints of the message bus, up to the first one that does not return without an error: those before it have been
  started and stay so, none after it is. Start ends the way that module does: it fails when the module fails, with its exit code if
  it has one, panics when it panics, and never returns when it does not. It succeeds exactly when there is a module and
  all of them start.\<close>

lemma start_in_order:
  assumes "list_all (\<lambda>m. Run ops m \<noteq> None) (runners s)" "Start ops s g = (started, e, g')"
  shows "\<exists>rest g1. runners s = started @ rest \<and> run_all ops (ot_pubEndpoint s) (ot_pullEndpoint s) started g = Some g1 \<and>
    (e = Done None \<longleftrightarrow> runners s \<noteq> [] \<and> rest = []) \<and>
    (case rest of
       [] \<Rightarrow> g' = g1 \<and> e = Done (if runners s = [] then Some (Plain_Error ''no registered runners'') else None)
     | m # _ \<Rightarrow> \<exists>r. the (Run ops m) (ot_pubEndpoint s) (ot_pullEndpoint s) g1 = (r, g') \<and> r \<noteq> Done None \<and> e = map_outcome (map_option starting) r)"
proof (cases "runners s = []")
  case True
  with assms(2) show ?thesis by (auto simp: Start_def)
next
  case False
  with assms(2) have "start_runners ops (ot_pubEndpoint s) (ot_pullEndpoint s) (runners s) g = (started, e, g')"
    by (simp add: Start_def)
  from start_runners_spec [OF assms(1) this] obtain rest g1 where
    r: "runners s = started @ rest" "run_all ops (ot_pubEndpoint s) (ot_pullEndpoint s) started g = Some g1"
      "case rest of [] \<Rightarrow> e = Done None \<and> g' = g1
       | m # _ \<Rightarrow> \<exists>r. the (Run ops m) (ot_pubEndpoint s) (ot_pullEndpoint s) g1 = (r, g') \<and> r \<noteq> Done None \<and> e = map_outcome (map_option starting) r"
    by blast
  show ?thesis
    by (rule exI [of _ rest], rule exI [of _ g1])
      (use r False failure_is_no_success [of _ starting] in \<open>cases rest; auto\<close>)
qed

end
