(* ===== verification/SunSpec.thy ===== *)
theory SunSpec
  imports ModbusUtil GoText
begin

text \<open>
  The package sunspec/common: the register of a SunSpec point with its conversions
  between values and wire bytes (register.go), the well-known registers and the model
  settings (common.go) and the length of a model (schema.go). The model definitions
  are JSON files of another repository, embedded at build time: their decoded contents
  are a parameter, a function from model numbers to schemas.
\<close>

section \<open>schema.go and the part of types.go it uses\<close>

text \<open>The scale factor of a point is untyped JSON: absent, a number, a string or something else. A
  switch on it also names the type int, which the JSON decoder never yields.\<close>

datatype sf = SfNil | SfInt int | SfFloat float64 | SfString string | SfOther

record SchemaPoint =
  sp_name :: string
  sp_type :: string
  sp_size :: int
  sp_sf :: sf
  sp_access :: string

record SchemaJson =
  sj_id :: int
  sj_points :: "SchemaPoint list"

type_synonym schemas = "int \<Rightarrow> SchemaJson option"

definition GetModelSchema :: "schemas \<Rightarrow> int \<Rightarrow> SchemaJson result" where
  "GetModelSchema sch m = (case sch m of None \<Rightarrow> Inl ''reading model schema'' | Some s \<Rightarrow> Inr s)"

fun length_loop :: "nat \<Rightarrow> SchemaPoint list \<Rightarrow> int \<Rightarrow> int" where
  "length_loop idx [] len = len"
| "length_loop idx (p # ps) len = length_loop (Suc idx) ps (if idx < 2 then len else len + sp_size p)"

definition GetModelLength :: "SchemaJson \<Rightarrow> int" where
  "GetModelLength m = length_loop 0 (sj_points m) 0"

text \<open>The data type of a register: the type of the point, with the size appended for strings.\<close>

definition show_int :: "int \<Rightarrow> string" where
  "show_int i = (if i < 0 then ''-'' @ show_nat (nat (- i)) else show_nat (nat i))"

definition point_datatype :: "SchemaPoint \<Rightarrow> string" where
  "point_datatype p = (if sp_type p = ''string'' then ''string'' @ show_int (sp_size p) else sp_type p)"

section \<open>register.go\<close>

record SSRegister =
  ss_DataType :: string
  ss_Name :: string
  ss_Model :: int
  ss_Count :: int
  ss_Scaling :: float64
  ss_Tag :: string
  ss_ScaleRegister :: string
  ss_InternalValue :: float64
  ss_InternalString :: string
  ss_Raw :: "byte list option"
  ss_Addr :: int

definition zero_register :: SSRegister where
  "zero_register =
     \<lparr>ss_DataType = [], ss_Name = [], ss_Model = 0, ss_Count = 0, ss_Scaling = f64_zero, ss_Tag = [],
      ss_ScaleRegister = [], ss_InternalValue = f64_zero, ss_InternalString = [], ss_Raw = None, ss_Addr = 0\<rparr>"

definition type_counts :: "(string \<times> int) list" where
  "type_counts =
     [(''acc16'', 1), (''bitfield16'', 1), (''enum16'', 1), (''int16'', 1), (''pad'', 1), (''sunssf'', 1), (''uint16'', 1),
      (''acc32'', 2), (''bitfield32'', 2), (''enum32'', 2), (''float32'', 2), (''int32'', 2), (''uint32'', 2),
      (''acc64'', 4), (''string8'', 8), (''string16'', 16)]"

definition datatype_count :: "string \<Rightarrow> int option" where
  "datatype_count t = map_of type_counts t"

definition SS_Init :: "SSRegister \<Rightarrow> SSRegister result" where
  "SS_Init r =
     (case datatype_count (ss_DataType r) of
        None \<Rightarrow> Inl ''unknown data type''
      | Some n \<Rightarrow> Inr (r\<lparr>ss_Count := n, ss_Scaling := f64_abs (ss_Scaling r)\<rparr>))"

text \<open>A value of type any, as far as the program uses it.\<close>

datatype any = AnyNil | AnyFloat float64 | AnyString string

text \<open>The type assertions value.(float64) and value.(string), which panic on another type.\<close>

definition with_float :: "any \<Rightarrow> (float64 \<Rightarrow> byte list) \<Rightarrow> byte list outcome" where
  "with_float v f = (case v of AnyFloat x \<Rightarrow> Done (f x) | _ \<Rightarrow> Panic)"

definition with_string :: "any \<Rightarrow> (string \<Rightarrow> byte list) \<Rightarrow> byte list outcome" where
  "with_string v f = (case v of AnyString x \<Rightarrow> Done (f x) | _ \<Rightarrow> Panic)"

text \<open>copy into an array of n bytes.\<close>

definition string_bytes :: "nat \<Rightarrow> string \<Rightarrow> byte list" where
  "string_bytes n s = take n (map of_char s @ replicate n 0)"

definition bytes_string :: "byte list \<Rightarrow> string" where
  "bytes_string bs = map (\<lambda>b. char_of (unat b)) bs"

definition effective_scaling :: "SSRegister \<Rightarrow> float64 \<Rightarrow> float64" where
  "effective_scaling r scaling = (if f64_eq scaling f64_zero then ss_Scaling r else scaling)"

definition value_or_internal :: "SSRegister \<Rightarrow> any \<Rightarrow> any" where
  "value_or_internal r value =
     (case value of
        AnyNil \<Rightarrow> if ss_DataType r \<in> set [''string8'', ''string16''] then AnyString (ss_InternalString r)
                  else AnyFloat (ss_InternalValue r)
      | _ \<Rightarrow> value)"

text \<open>Writing a value of a fixed size to a buffer does not fail; a data type no case names leaves
  nothing to write, which binary.Write answers with a panic.\<close>

definition SS_Bytes :: "go_impl \<Rightarrow> SSRegister \<Rightarrow> any \<Rightarrow> float64 \<Rightarrow> byte list outcome" where
  "SS_Bytes impl r value scaling =
     (let t = ss_DataType r;
          v = value_or_internal r value;
          up = (\<lambda>x. f64_mul x (go_pow10 impl (f64_neg (effective_scaling r scaling))))
      in if t \<in> set [''acc16'', ''uint16''] then with_float v (\<lambda>x. put16 (of_int (f64_to_int impl False 16 (up x))))
         else if t \<in> set [''acc32'', ''uint32''] then with_float v (\<lambda>x. put32 (of_int (f64_to_int impl False 32 (up x))))
         else if t = ''acc64'' then with_float v (\<lambda>x. put64 (of_int (f64_to_int impl False 64 (up x))))
         else if t \<in> set [''bitfield16'', ''enum16''] then with_float v (\<lambda>x. put16 (of_int (f64_to_int impl False 16 x)))
         else if t \<in> set [''bitfield32'', ''enum32''] then with_float v (\<lambda>x. put32 (of_int (f64_to_int impl False 32 x)))
         else if t = ''float32'' then with_float v (\<lambda>x. put32 (f32_of_f64 x))
         else if t = ''int16'' then with_float v (\<lambda>x. put16 (of_int (f64_to_int impl True 16 (up x))))
         else if t = ''int32'' then with_float v (\<lambda>x. put32 (of_int (f64_to_int impl True 32 (up x))))
         else if t = ''string8'' then with_string v (string_bytes 16)
         else if t = ''string16'' then with_string v (string_bytes 32)
         else if t \<in> set [''pad'', ''sunssf''] then with_float v (\<lambda>x. put16 (of_int (f64_to_int impl True 16 x)))
         else Panic)"

definition SS_Value :: "go_impl \<Rightarrow> SSRegister \<Rightarrow> byte list option \<Rightarrow> float64 \<Rightarrow> float64 result" where
  "SS_Value impl r data scaling =
     (case data of
        None \<Rightarrow> Inr (ss_InternalValue r)
      | Some d \<Rightarrow>
          (let t = ss_DataType r;
               down = (\<lambda>x. f64_mul x (go_pow10 impl (effective_scaling r scaling)))
           in if t \<in> set [''acc16'', ''uint16''] then read_as (get16 d) (\<lambda>w. down (f64_of_int (uint w)))
              else if t \<in> set [''acc32'', ''uint32''] then read_as (get32 d) (\<lambda>w. down (f64_of_int (uint w)))
              else if t = ''acc64'' then read_as (get64 d) (\<lambda>w. down (f64_of_int (uint w)))
              else if t \<in> set [''bitfield16'', ''enum16''] then read_as (get16 d) (\<lambda>w. f64_of_int (uint w))
              else if t \<in> set [''bitfield32'', ''enum32''] then read_as (get32 d) (\<lambda>w. f64_of_int (uint w))
              else if t = ''float32'' then read_as (get32 d) f64_of_f32
              else if t = ''int16'' then read_as (get16 d) (\<lambda>w. down (f64_of_int (sint w)))
              else if t = ''int32'' then read_as (get32 d) (\<lambda>w. down (f64_of_int (sint w)))
              else if t \<in> set [''pad'', ''sunssf''] then read_as (get16 d) (\<lambda>w. f64_of_int (sint w))
              else Inl ''not a value register''))"

definition SS_String :: "SSRegister \<Rightarrow> byte list option \<Rightarrow> string result" where
  "SS_String r data =
     (case data of
        None \<Rightarrow> Inr (ss_InternalString r)
      | Some d \<Rightarrow> if ss_DataType r \<in> set [''string8'', ''string16''] then Inr (bytes_string d)
                  else Inl ''not a string register'')"

section \<open>common.go\<close>

definition SunSpecIdentifier :: float64 where "SunSpecIdentifier = f64_of_int 1400204883"

text \<open>The well-known registers after the package initialisation has given them their counts.\<close>

definition IdentifierRegister :: SSRegister where
  "IdentifierRegister =
     zero_register\<lparr>ss_DataType := ''uint32'', ss_Name := ''SunSpec_Identifier'',
       ss_InternalValue := SunSpecIdentifier, ss_Count := 2\<rparr>"

definition EndRegister :: SSRegister where
  "EndRegister =
     zero_register\<lparr>ss_DataType := ''uint16'', ss_Name := ''SunSpec_EndRegister'',
       ss_InternalValue := f64_of_int 65535, ss_Count := 1\<rparr>"

definition EndRegisterLength :: SSRegister where
  "EndRegisterLength =
     zero_register\<lparr>ss_DataType := ''uint16'', ss_Name := ''SunSpec_EndRegister_Length'',
       ss_InternalValue := f64_zero, ss_Count := 1\<rparr>"

record ModelSettings =
  ms_Model :: int
  ms_StartAddr :: int
  ms_Length :: int

record Models =
  md_Order :: "int list"
  md_Settings :: "int \<rightharpoonup> ModelSettings"

section \<open>Facts\<close>

text \<open>An initialised register: its count is the one of its type.\<close>

definition ss_ok :: "SSRegister \<Rightarrow> bool" where
  "ss_ok r \<longleftrightarrow> datatype_count (ss_DataType r) = Some (ss_Count r)"

lemma SS_Init_ok: "SS_Init r = Inr r' \<Longrightarrow> ss_ok r' \<and> r' = r\<lparr>ss_Count := ss_Count r', ss_Scaling := f64_abs (ss_Scaling r)\<rparr>"
  by (auto simp: SS_Init_def ss_ok_def split: option.splits)

lemma SS_Init_succeeds: "(\<exists>r'. SS_Init r = Inr r') \<longleftrightarrow> datatype_count (ss_DataType r) \<noteq> None"
  by (auto simp: SS_Init_def split: option.split)

lemma f64_abs_zero: "f64_abs f64_zero = f64_zero"
  by (simp add: f64_abs_def f64_zero_def f64_mag_def f64_make_def)

lemma well_known_registers_initialised:
  "SS_Init (IdentifierRegister\<lparr>ss_Count := 0\<rparr>) = Inr IdentifierRegister"
  "SS_Init (EndRegister\<lparr>ss_Count := 0\<rparr>) = Inr EndRegister"
  "SS_Init (EndRegisterLength\<lparr>ss_Count := 0\<rparr>) = Inr EndRegisterLength"
  by (simp_all add: SS_Init_def datatype_count_def type_counts_def IdentifierRegister_def EndRegister_def EndRegisterLength_def
      zero_register_def f64_abs_zero)

lemma datatype_count_all:
  assumes "datatype_count t = Some n" "list_all (\<lambda>(t, n). P t n) type_counts"
  shows "P t n"
  using map_of_SomeD [OF assms(1) [unfolded datatype_count_def]] assms(2) by (auto simp: list_all_iff)

lemma datatype_count_bounds: "datatype_count t = Some n \<Longrightarrow> 1 \<le> n \<and> n \<le> 16"
  by (erule datatype_count_all) (simp add: type_counts_def)

abbreviation string_type :: "string \<Rightarrow> bool" where
  "string_type t \<equiv> t \<in> set [''string8'', ''string16'']"

lemma string_type_prefix: "datatype_count t = Some n \<Longrightarrow> HasPrefix t ''string'' \<longleftrightarrow> string_type t"
  by (erule datatype_count_all) (simp add: type_counts_def)

lemma length_loop_add: "length_loop idx ps len = len + sum_list (map sp_size (drop (2 - idx) ps))"
proof (induction idx ps len rule: length_loop.induct)
  case (2 idx p ps len)
  consider "idx = 0" | "idx = 1" | "2 \<le> idx" by linarith
  then show ?case using 2 by cases simp_all
qed simp

lemma GetModelLength_sum: "GetModelLength m = sum_list (map sp_size (drop 2 (sj_points m)))"
  by (simp add: GetModelLength_def length_loop_add)

text \<open>What a register sends has the length of its type, whatever the value, unless the value is of
  the wrong kind.\<close>

lemma SS_Bytes_width:
  assumes "datatype_count (ss_DataType r) = Some n"
    and "value = AnyNil \<or> (if string_type (ss_DataType r) then \<exists>x. value = AnyString x else \<exists>x. value = AnyFloat x)"
  shows "\<exists>d. SS_Bytes impl r value scaling = Done d \<and> length d = nat (2 * n)"
proof -
  obtain x y where v: "value_or_internal r value = (if string_type (ss_DataType r) then AnyString x else AnyFloat y)"
    using assms(2) by (cases "string_type (ss_DataType r)") (auto simp: value_or_internal_def)
  note lens = u16.enc_length u32.enc_length u64.enc_length
  from map_of_SomeD [OF assms(1) [unfolded datatype_count_def]] show ?thesis
    unfolding SS_Bytes_def Let_def type_counts_def list.set v
    by (elim insertE emptyE) (simp_all add: with_float_def with_string_def string_bytes_def lens)
qed

section \<open>Unscaled registers\<close>

lemma unscaled_power:
  assumes "ss_Scaling r = f64_zero"
  shows "go_pow10 impl (effective_scaling r f64_zero) = f64_one" "go_pow10 impl (f64_neg (effective_scaling r f64_zero)) = f64_one"
proof -
  have "f64_of_int 0 = f64_zero" by (simp add: f64_of_int_def f64_pack_0 f64_zero_def f64_make_def)
  moreover have "effective_scaling r f64_zero = f64_zero" using assms by (simp add: effective_scaling_def)
  ultimately show "go_pow10 impl (effective_scaling r f64_zero) = f64_one" "go_pow10 impl (f64_neg (effective_scaling r f64_zero)) = f64_one"
    using f64_zero_int by (simp_all add: go_pow10_def)
qed

lemma unscaled_int:
  assumes "\<bar>i\<bar> < 2 ^ 53"
  shows "f64_mul (f64_of_int i) f64_one = f64_of_int i"
  using f64_finite_not_special [OF f64_of_int_exact(2) [OF assms]] by (simp add: f64_mul_one)

text \<open>An unscaled register of two or four bytes sends an unsigned integer as it is and gives it back.\<close>

lemma SS_uint16:
  assumes "ss_DataType r = ''uint16''" "ss_Scaling r = f64_zero" "0 \<le> i" "i < 65536"
  shows "ss_InternalValue r = f64_of_int i \<Longrightarrow> SS_Bytes impl r AnyNil f64_zero = Done (put16 (of_int i))"
    and "SS_Value impl r (Some (put16 (of_int i))) f64_zero = Inr (f64_of_int i)"
proof -
  have b: "\<bar>i\<bar> < 2 ^ 53" "int_fits False 16 i" using assms(3,4) by (simp_all add: int_fits_def)
  note conv = f64_to_int_of_int [OF b, of impl]
  show "ss_InternalValue r = f64_of_int i \<Longrightarrow> SS_Bytes impl r AnyNil f64_zero = Done (put16 (of_int i))"
    using assms(1) conv
    by (simp add: SS_Bytes_def value_or_internal_def with_float_def unscaled_power [OF assms(2)] unscaled_int [OF b(1)] Let_def)
  show "SS_Value impl r (Some (put16 (of_int i))) f64_zero = Inr (f64_of_int i)"
    using assms b
    by (simp add: SS_Value_def read_as_def u16.dec_enc_exact unscaled_power [OF assms(2)] unscaled_int [OF b(1)]
        unsigned_of_int take_bit_int_eq_self Let_def)
qed

lemma SS_uint32:
  assumes "ss_DataType r = ''uint32''" "ss_Scaling r = f64_zero" "0 \<le> i" "i < 4294967296"
  shows "ss_InternalValue r = f64_of_int i \<Longrightarrow> SS_Bytes impl r AnyNil f64_zero = Done (put32 (of_int i))"
    and "SS_Value impl r (Some (put32 (of_int i))) f64_zero = Inr (f64_of_int i)"
proof -
  have b: "\<bar>i\<bar> < 2 ^ 53" "int_fits False 32 i" using assms(3,4) by (simp_all add: int_fits_def)
  note conv = f64_to_int_of_int [OF b, of impl]
  show "ss_InternalValue r = f64_of_int i \<Longrightarrow> SS_Bytes impl r AnyNil f64_zero = Done (put32 (of_int i))"
    using assms(1) conv
    by (simp add: SS_Bytes_def value_or_internal_def with_float_def unscaled_power [OF assms(2)] unscaled_int [OF b(1)] Let_def)
  show "SS_Value impl r (Some (put32 (of_int i))) f64_zero = Inr (f64_of_int i)"
    using assms b
    by (simp add: SS_Value_def read_as_def u32.dec_enc_exact unscaled_power [OF assms(2)] unscaled_int [OF b(1)]
        unsigned_of_int take_bit_int_eq_self Let_def)
qed

end
