(* ===== verification/SunSpecServer.thy ===== *)
theory SunSpecServer
  imports SunSpec ModbusServer
begin

text \<open>
  The package sunspec/server: configuration of the register map from SunSpec models,
  the handlers for reading and writing holding registers and the handler of status
  messages (server.go). The maps of the server hold pointers, and the same register is
  reached by its address and by the name of its point, so registers live in an explicit
  heap and the maps hold references. The well-known registers are variables of the
  package: they are the first three objects of every heap.
\<close>

section \<open>State\<close>

type_synonym heap = "SSRegister list"

definition package_heap :: heap where
  "package_heap = [IdentifierRegister, EndRegister, EndRegisterLength]"

record SunSpecServer =
  sv_pull_endpoint :: string
  sv_pub_endpoint :: string
  sv_pusher :: Pusher
  sv_name :: string
  sv_endpoint :: string
  sv_registers :: "int \<rightharpoonup> nat"
  sv_points :: "string \<rightharpoonup> nat"
  sv_tags :: "string \<rightharpoonup> float64"

definition NewSunSpecServer :: "string \<Rightarrow> Pusher \<Rightarrow> SunSpecServer" where
  "NewSunSpecServer name p =
     \<lparr>sv_pull_endpoint = [], sv_pub_endpoint = [], sv_pusher = p, sv_name = name, sv_endpoint = [],
      sv_registers = Map.empty, sv_points = Map.empty, sv_tags = Map.empty\<rparr>"

section \<open>Configuration\<close>

text \<open>The register of one point of a model.\<close>

definition scale_fields :: "sf \<Rightarrow> SSRegister \<Rightarrow> SSRegister result" where
  "scale_fields x r =
     (case x of
        SfNil \<Rightarrow> Inr r
      | SfInt i \<Rightarrow> Inr (r\<lparr>ss_Scaling := f64_of_int i\<rparr>)
      | SfFloat y \<Rightarrow> Inr (r\<lparr>ss_Scaling := y\<rparr>)
      | SfString n \<Rightarrow> Inr (r\<lparr>ss_ScaleRegister := n\<rparr>)
      | SfOther \<Rightarrow> Inl ''unknown type when parsing scaling factor'')"

definition point_register :: "int \<Rightarrow> SchemaJson \<Rightarrow> SchemaPoint \<Rightarrow> SSRegister result" where
  "point_register i model p =
     (let r = zero_register\<lparr>ss_DataType := point_datatype p, ss_Name := sp_name p, ss_Model := i\<rparr>;
          r1 = (if sp_name p = ''ID'' then r\<lparr>ss_InternalValue := f64_of_int i\<rparr> else r);
          r2 = (if sp_name p = ''L'' then r1\<lparr>ss_InternalValue := f64_of_int (GetModelLength model)\<rparr> else r1)
      in case scale_fields (sp_sf p) r2 of
           Inl err \<Rightarrow> Inl err
         | Inr r3 \<Rightarrow> (case SS_Init r3 of Inl err \<Rightarrow> Inl ''initializing register'' | Inr r4 \<Rightarrow> Inr r4))"

text \<open>The state of the configuration loop: next address, whether model 1 was seen, heap and server.\<close>

type_synonym config = "int \<times> heap \<times> SunSpecServer"

fun add_points :: "int \<Rightarrow> SchemaJson \<Rightarrow> SchemaPoint list \<Rightarrow> config \<Rightarrow> config result" where
  "add_points i model [] st = Inr st"
| "add_points i model (p # ps) (addr, h, s) =
     (case point_register i model p of
        Inl err \<Rightarrow> Inl err
      | Inr r \<Rightarrow>
          let ref = length h
          in add_points i model ps
               (addr + sp_size p, h @ [r],
                s\<lparr>sv_registers := (sv_registers s)(addr \<mapsto> ref), sv_points := (sv_points s)(sp_name p \<mapsto> ref)\<rparr>))"

text \<open>A point given in the configuration file has a fixed value or is bound to a tag.\<close>

definition set_point :: "element \<Rightarrow> nat \<Rightarrow> heap \<Rightarrow> SunSpecServer \<Rightarrow> heap \<times> SunSpecServer" where
  "set_point child ref h s =
     (let r = h ! ref
      in if HasPrefix (ss_DataType r) ''string'' then (h[ref := r\<lparr>ss_InternalString := Text child\<rparr>], s)
         else case ParseFloat (Text child) of
                Some v \<Rightarrow> (h[ref := r\<lparr>ss_InternalValue := v\<rparr>], s)
              | None \<Rightarrow> (h[ref := r\<lparr>ss_Tag := Text child\<rparr>], s\<lparr>sv_tags := (sv_tags s)(Text child \<mapsto> f64_zero)\<rparr>))"

fun set_points :: "element list \<Rightarrow> config \<Rightarrow> config result" where
  "set_points [] st = Inr st"
| "set_points (child # cs) (addr, h, s) =
     (case sv_points s (Tag child) of
        None \<Rightarrow> Inl ''no SunSpec point with this name in model''
      | Some ref \<Rightarrow>
          (case set_point child ref h s of
             (h', s') \<Rightarrow> set_points cs (addr, h', s'\<lparr>sv_registers := (sv_registers s')(addr \<mapsto> ref)\<rparr>)))"

definition add_model :: "schemas \<Rightarrow> element \<Rightarrow> bool \<times> config \<Rightarrow> (bool \<times> config) result" where
  "add_model sch child st =
     (case st of (model1, cfg) \<Rightarrow>
        (case SelectAttr child ''id'' of
           None \<Rightarrow> Inl ''missing id attribute for SunSpec model''
         | Some x \<Rightarrow>
             (case Atoi x of (i, ok) \<Rightarrow>
                if \<not> ok then Inl ''parsing model ID''
                else case GetModelSchema sch i of
                       Inl err \<Rightarrow> Inl ''getting schema for model''
                     | Inr model \<Rightarrow>
                         (case add_points i model (sj_points model) cfg of
                            Inl err \<Rightarrow> Inl err
                          | Inr cfg1 \<Rightarrow>
                              (case set_points (ChildElements child) cfg1 of
                                 Inl err \<Rightarrow> Inl err
                               | Inr cfg2 \<Rightarrow> Inr (model1 \<or> i = 1, cfg2))))))"

definition sunspec_child :: "schemas \<Rightarrow> element \<Rightarrow> bool \<times> config \<Rightarrow> (bool \<times> config) result" where
  "sunspec_child sch child st =
     (case st of (model1, addr, h, s) \<Rightarrow>
        if Tag child = ''pull-endpoint'' then Inr (model1, addr, h, s\<lparr>sv_pull_endpoint := Text child\<rparr>)
        else if Tag child = ''pub-endpoint'' then Inr (model1, addr, h, s\<lparr>sv_pub_endpoint := Text child\<rparr>)
        else if Tag child = ''endpoint'' then Inr (model1, addr, h, s\<lparr>sv_endpoint := Text child\<rparr>)
        else if Tag child = ''model'' then add_model sch child st
        else Inr st)"

fun sunspec_children :: "schemas \<Rightarrow> element list \<Rightarrow> bool \<times> config \<Rightarrow> (bool \<times> config) result" where
  "sunspec_children sch [] st = Inr st"
| "sunspec_children sch (e # es) st =
     (case sunspec_child sch e st of Inl err \<Rightarrow> Inl err | Inr st' \<Rightarrow> sunspec_children sch es st')"

definition SunSpec_Configure :: "schemas \<Rightarrow> element list \<Rightarrow> heap \<times> SunSpecServer \<Rightarrow> (heap \<times> SunSpecServer) result" where
  "SunSpec_Configure sch es st =
     (case st of (h, s) \<Rightarrow>
        (case sunspec_children sch es (False, 40002, h, s\<lparr>sv_registers := (sv_registers s)(40000 \<mapsto> 0)\<rparr>) of
           Inl err \<Rightarrow> Inl err
         | Inr (model1, addr, h', s') \<Rightarrow>
             if \<not> model1 then Inl ''SunSpec Model 1 not configured as first model''
             else Inr (h', s'\<lparr>sv_registers := (sv_registers s')(addr \<mapsto> 1, addr + 1 \<mapsto> 2)\<rparr>)))"

section \<open>Requests\<close>

text \<open>The scale factor of a register: none when the point it names does not exist.\<close>

definition scaling_of :: "heap \<Rightarrow> SunSpecServer \<Rightarrow> SSRegister \<Rightarrow> float64 option" where
  "scaling_of h s r =
     (if ss_ScaleRegister r = [] then Some f64_zero
      else map_option (\<lambda>ref. ss_InternalValue (h ! ref)) (sv_points s (ss_ScaleRegister r)))"

definition tag_any :: "SunSpecServer \<Rightarrow> SSRegister \<Rightarrow> any" where
  "tag_any s r = (case sv_tags s (ss_Tag r) of None \<Rightarrow> AnyNil | Some v \<Rightarrow> AnyFloat v)"

fun sunspec_read_loop ::
  "go_impl \<Rightarrow> heap \<Rightarrow> SunSpecServer \<Rightarrow> nat \<Rightarrow> int \<Rightarrow> int \<Rightarrow> int \<Rightarrow> byte list
     \<Rightarrow> (exception + int \<times> byte list) outcome" where
  "sunspec_read_loop impl h s 0 addr stop sz d = (if addr < stop then Diverge else Done (Inr (sz, d)))"
| "sunspec_read_loop impl h s (Suc n) addr stop sz d =
     (if addr < stop then
        (case sv_registers s addr of
           None \<Rightarrow> Done (Inl IllegalDataAddress)
         | Some ref \<Rightarrow>
             let r = h ! ref
             in (case scaling_of h s r of
                   None \<Rightarrow> Done (Inl SlaveDeviceFailure)
                 | Some scaling \<Rightarrow>
                     (case SS_Bytes impl r (tag_any s r) scaling of
                        Done buf \<Rightarrow>
                          sunspec_read_loop impl h s n (addr + ss_Count r) stop (sz + ss_Count r * 2) (d @ buf)
                      | Panic \<Rightarrow> Panic
                      | Diverge \<Rightarrow> Diverge)))
      else Done (Inr (sz, d)))"

definition sunspec_readHoldingRegisters :: "go_impl \<Rightarrow> gslice \<Rightarrow> heap \<times> SunSpecServer \<Rightarrow> reply outcome" where
  "sunspec_readHoldingRegisters impl data st =
     (case st of (h, s) \<Rightarrow>
        (case req_range data of
           None \<Rightarrow> Panic
         | Some (start, count) \<Rightarrow>
             (case sunspec_read_loop impl h s (nat count) start (start + count) 0 [] of
                Done (Inr (sz, d)) \<Rightarrow> Done (of_int sz # d, Success)
              | Done (Inl e) \<Rightarrow> Done ([], e)
              | Panic \<Rightarrow> Panic
              | Diverge \<Rightarrow> Diverge)))"

text \<open>
  The loop of a write, as the source has it: it advances neither the address nor the
  offset into the data. The fuel bounds the number of rounds that are looked at.
\<close>

fun sunspec_write_loop ::
  "go_impl \<Rightarrow> gslice \<Rightarrow> SunSpecServer \<Rightarrow> nat \<Rightarrow> int \<Rightarrow> int \<Rightarrow> nat \<Rightarrow> heap \<Rightarrow> Point list
     \<Rightarrow> exception option outcome \<times> heap \<times> Point list" where
  "sunspec_write_loop impl data s 0 addr stop b h ups = (if addr < stop then Diverge else Done None, h, ups)"
| "sunspec_write_loop impl data s (Suc n) addr stop b h ups =
     (if addr < stop then
        (case sv_registers s addr of
           None \<Rightarrow> (Done (Some IllegalDataAddress), h, ups)
         | Some ref \<Rightarrow>
             let r = h ! ref
             in (case scaling_of h s r of
                   None \<Rightarrow> (Done (Some SlaveDeviceFailure), h, ups)
                 | Some scaling \<Rightarrow>
                     (case slice data b (b + nat (ss_Count r * 2)) of
                        None \<Rightarrow> (Panic, h, ups)
                      | Some d \<Rightarrow>
                          (case SS_Value impl r (Some d) scaling of
                             Inl err \<Rightarrow> (Done (Some SlaveDeviceFailure), h, ups)
                           | Inr v \<Rightarrow>
                               if ss_Tag r = [] then
                                 sunspec_write_loop impl data s n addr stop b (h[ref := r\<lparr>ss_InternalValue := v\<rparr>]) ups
                               else sunspec_write_loop impl data s n addr stop b h (ups @ [point (ss_Tag r) v])))))
      else (Done None, h, ups))"

definition sunspec_publish :: "Point list \<Rightarrow> SunSpecServer \<Rightarrow> bool \<times> SunSpecServer" where
  "sunspec_publish updates s =
     (case NewEnvelope (sv_name s) (C_Update \<lparr>Updates = updates, up_recipient = [], up_confirm = []\<rparr>) of
        Inl err \<Rightarrow> (False, s)
      | Inr env \<Rightarrow>
          (case Push ''RUNTIME'' env (sv_pusher s) of
             (None, p) \<Rightarrow> (True, s\<lparr>sv_pusher := p\<rparr>)
           | (Some err, p) \<Rightarrow> (False, s\<lparr>sv_pusher := p\<rparr>)))"

definition sunspec_writeHoldingRegisters ::
  "go_impl \<Rightarrow> nat \<Rightarrow> gslice \<Rightarrow> heap \<times> SunSpecServer \<Rightarrow> reply outcome \<times> heap \<times> SunSpecServer" where
  "sunspec_writeHoldingRegisters impl fuel data st =
     (case st of (h, s) \<Rightarrow>
        (case req_range data of
           None \<Rightarrow> (Panic, h, s)
         | Some (start, count) \<Rightarrow>
             (case sunspec_write_loop impl data s fuel start (start + count) 5 h [] of
                (Done (Some e), h', ups) \<Rightarrow> (Done ([], e), h', s)
              | (Panic, h', ups) \<Rightarrow> (Panic, h', s)
              | (Diverge, h', ups) \<Rightarrow> (Diverge, h', s)
              | (Done None, h', ups) \<Rightarrow>
                  (case (if ups = [] then (True, s) else sunspec_publish ups s) of
                     (False, s') \<Rightarrow> (Done ([], SlaveDeviceFailure), h', s')
                   | (True, s') \<Rightarrow> (Done (take 4 (backing data), Success), h', s')))))"

section \<open>Status messages\<close>

fun sunspec_apply :: "Point list \<Rightarrow> (string \<rightharpoonup> float64) \<Rightarrow> (string \<rightharpoonup> float64)" where
  "sunspec_apply [] ts = ts"
| "sunspec_apply (p # ps) ts = sunspec_apply ps (if ts (pt_tag p) = None then ts else ts(pt_tag p \<mapsto> pt_value p))"

definition sunspec_handleMsgBusStatus :: "Envelope \<Rightarrow> SunSpecServer \<Rightarrow> SunSpecServer" where
  "sunspec_handleMsgBusStatus env s =
     (if Sender env = sv_name s then s
      else (case env_Status env of
              (status, Some ErrKind) \<Rightarrow> s
            | (status, _) \<Rightarrow> s\<lparr>sv_tags := sunspec_apply (Measurements status) (sv_tags s)\<rparr>))"

section \<open>Run\<close>

definition sunspec_endpoints :: "string \<Rightarrow> string \<Rightarrow> SunSpecServer \<Rightarrow> string \<times> string" where
  "sunspec_endpoints pubEndpoint pullEndpoint s =
     (if sv_pub_endpoint s \<noteq> [] then sv_pub_endpoint s else pubEndpoint,
      if sv_pull_endpoint s \<noteq> [] then sv_pull_endpoint s else pullEndpoint)"

definition sunspec_listen :: "(string \<Rightarrow> string option) \<Rightarrow> SunSpecServer \<Rightarrow> string option" where
  "sunspec_listen ListenTCP s =
     (if sv_endpoint s \<noteq> [] \<and> ListenTCP (sv_endpoint s) \<noteq> None then Some ''listening for TCP connections'' else None)"

text \<open>The table of function codes Run registers.\<close>

definition sunspec_function_handler ::
  "go_impl \<Rightarrow> nat \<Rightarrow> nat \<Rightarrow> gslice \<Rightarrow> heap \<times> SunSpecServer \<Rightarrow> (reply outcome \<times> heap \<times> SunSpecServer) option" where
  "sunspec_function_handler impl fuel code data st =
     (if code = 3 then Some (sunspec_readHoldingRegisters impl data st, st)
      else if code = 16 then Some (sunspec_writeHoldingRegisters impl fuel data st)
      else None)"

end
