(* ===== verification/SunSpecServerCorrect.thy ===== *)
theory SunSpecServerCorrect
  imports SunSpecServer
begin

text \<open>
  What a SunSpec server promises: the invariant of its heap of registers, which every
  operation keeps, answers to reads, and what becomes of writes.
\<close>

section \<open>The invariant of the heap\<close>

text \<open>
  References are in range, every register is initialised, a point is found under the name
  of its register, registers of the package are no points, and only registers with a
  numeric type are bound to tags.
\<close>

definition heap_ok :: "heap \<Rightarrow> SunSpecServer \<Rightarrow> bool" where
  "heap_ok h s \<longleftrightarrow>
     3 \<le> length h \<and>
     (\<forall>a ref. sv_registers s a = Some ref \<longrightarrow> ref < length h) \<and>
     (\<forall>k ref. sv_points s k = Some ref \<longrightarrow> 3 \<le> ref \<and> ref < length h \<and> ss_Name (h ! ref) = k) \<and>
     (\<forall>r \<in> set h. ss_ok r \<and> (string_type (ss_DataType r) \<longrightarrow> ss_Tag r = []))"

lemma heap_okD:
  assumes "heap_ok h s"
  shows "3 \<le> length h" "sv_registers s a = Some ref \<Longrightarrow> ref < length h"
    "sv_points s k = Some ref \<Longrightarrow> 3 \<le> ref \<and> ref < length h \<and> ss_Name (h ! ref) = k"
    "ref < length h \<Longrightarrow> ss_ok (h ! ref)"
    "ref < length h \<Longrightarrow> string_type (ss_DataType (h ! ref)) \<Longrightarrow> ss_Tag (h ! ref) = []"
  using assms unfolding heap_ok_def by (meson nth_mem)+

lemma heap_ok_update:
  assumes "heap_ok h s" "ref < length h" "ss_ok r" "ss_Name r = ss_Name (h ! ref)" "string_type (ss_DataType r) \<Longrightarrow> ss_Tag r = []"
  shows "heap_ok (h[ref := r]) s"
  using assms set_update_subset_insert [of h ref r]
  by (auto simp: heap_ok_def nth_list_update)

lemma heap_ok_same_maps:
  "sv_registers s' = sv_registers s \<Longrightarrow> sv_points s' = sv_points s \<Longrightarrow> heap_ok h s' = heap_ok h s"
  by (simp add: heap_ok_def)

lemma heap_ok_add_register: "heap_ok h s \<Longrightarrow> ref < length h \<Longrightarrow> heap_ok h (s\<lparr>sv_registers := (sv_registers s)(a \<mapsto> ref)\<rparr>)"
  by (auto simp: heap_ok_def)

lemma heap_ok_alloc:
  assumes "heap_ok h s" "ss_ok r" "ss_Tag r = []" "ss_Name r = k"
  shows "heap_ok (h @ [r])
    (s\<lparr>sv_registers := (sv_registers s)(a \<mapsto> length h), sv_points := (sv_points s)(k \<mapsto> length h)\<rparr>)"
  using assms unfolding heap_ok_def
  by (auto simp: nth_append less_Suc_eq split: if_splits)

text \<open>The register made for a point.\<close>

lemma scale_fields_spec:
  assumes "scale_fields x r = Inr r'"
  shows "ss_DataType r' = ss_DataType r" "ss_Name r' = ss_Name r" "ss_Model r' = ss_Model r" "ss_Tag r' = ss_Tag r"
    "ss_InternalValue r' = ss_InternalValue r" "ss_InternalString r' = ss_InternalString r"
    "x = SfNil \<Longrightarrow> r' = r" "\<nexists>n. x = SfString n \<Longrightarrow> ss_ScaleRegister r' = ss_ScaleRegister r"
    "x = SfString n \<Longrightarrow> ss_ScaleRegister r' = n"
  using assms by (auto simp: scale_fields_def split: sf.splits)

lemma point_register_spec:
  assumes "point_register i model p = Inr r"
  shows "ss_ok r" "ss_DataType r = point_datatype p" "ss_Name r = sp_name p" "ss_Tag r = []" "ss_Model r = i"
    "sp_name p = ''ID'' \<Longrightarrow> ss_InternalValue r = f64_of_int i"
    "sp_name p = ''L'' \<Longrightarrow> ss_InternalValue r = f64_of_int (GetModelLength model)"
    "sp_sf p = SfNil \<Longrightarrow> ss_Scaling r = f64_zero \<and> ss_ScaleRegister r = []"
    "sp_sf p = SfString n \<Longrightarrow> ss_ScaleRegister r = n"
    "\<nexists>n. sp_sf p = SfString n \<Longrightarrow> ss_ScaleRegister r = []"
proof -
  define v where "v = (if sp_name p = ''L'' then f64_of_int (GetModelLength model)
      else if sp_name p = ''ID'' then f64_of_int i else f64_zero)"
  let ?r2 = "zero_register\<lparr>ss_DataType := point_datatype p, ss_Name := sp_name p, ss_Model := i, ss_InternalValue := v\<rparr>"
  obtain r3 where r3: "scale_fields (sp_sf p) ?r2 = Inr r3" "SS_Init r3 = Inr r"
    using assms by (auto simp: point_register_def v_def zero_register_def Let_def split: sum.splits if_splits)
  from SS_Init_ok [OF r3(2)] obtain c where c: "ss_ok r" "r = r3\<lparr>ss_Count := c, ss_Scaling := f64_abs (ss_Scaling r3)\<rparr>" by blast
  note f = scale_fields_spec [OF r3(1)]
  show "ss_ok r" by (rule c)
  show "ss_DataType r = point_datatype p" "ss_Name r = sp_name p" "ss_Tag r = []" "ss_Model r = i"
    "sp_name p = ''ID'' \<Longrightarrow> ss_InternalValue r = f64_of_int i"
    "sp_name p = ''L'' \<Longrightarrow> ss_InternalValue r = f64_of_int (GetModelLength model)"
    "sp_sf p = SfNil \<Longrightarrow> ss_Scaling r = f64_zero \<and> ss_ScaleRegister r = []"
    "sp_sf p = SfString n \<Longrightarrow> ss_ScaleRegister r = n"
    "\<nexists>n. sp_sf p = SfString n \<Longrightarrow> ss_ScaleRegister r = []"
    using f unfolding c(2) by (simp_all add: f64_abs_zero v_def zero_register_def)
qed

lemma add_points_ok:
  "add_points i model ps (a, h, s) = Inr (a', h', s') \<Longrightarrow> heap_ok h s \<Longrightarrow> heap_ok h' s'"
proof (induction ps arbitrary: a h s)
  case (Cons p ps)
  then obtain r where r: "point_register i model p = Inr r" by (auto split: sum.splits)
  show ?case
    by (rule Cons.IH [OF _ heap_ok_alloc [OF Cons.prems(2) point_register_spec(1,4,3) [OF r]]])
      (use Cons.prems(1) r in \<open>simp add: Let_def\<close>)
qed simp

lemma set_point_ok:
  assumes "heap_ok h s" "ref < length h" "set_point child ref h s = (h', s')"
  shows "heap_ok h' s' \<and> length h' = length h \<and> sv_registers s' = sv_registers s \<and> sv_points s' = sv_points s"
proof -
  have ok: "ss_ok (h ! ref)" "string_type (ss_DataType (h ! ref)) \<Longrightarrow> ss_Tag (h ! ref) = []"
    using heap_okD(4,5) [OF assms(1,2)] by blast+
  then have str: "HasPrefix (ss_DataType (h ! ref)) ''string'' \<longleftrightarrow> string_type (ss_DataType (h ! ref))"
    unfolding ss_ok_def by (simp add: string_type_prefix)
  have tags: "heap_ok h'' (s\<lparr>sv_tags := t\<rparr>) = heap_ok h'' s" for h'' t by (rule heap_ok_same_maps) simp_all
  have u: "heap_ok (h[ref := f (h ! ref)]) s"
    if "ss_ok (f (h ! ref))" "ss_Name (f (h ! ref)) = ss_Name (h ! ref)" "string_type (ss_DataType (f (h ! ref))) \<Longrightarrow> ss_Tag (f (h ! ref)) = []" for f
    by (rule heap_ok_update [OF assms(1,2) that])
  show ?thesis
    using assms(3) ok u [of "\<lambda>r. r\<lparr>ss_InternalString := Text child\<rparr>"]
      u [of "\<lambda>r. r\<lparr>ss_InternalValue := x\<rparr>" for x] u [of "\<lambda>r. r\<lparr>ss_Tag := Text child\<rparr>"]
    unfolding set_point_def Let_def str ss_ok_def
    by (auto simp: tags split: if_splits option.splits)
qed

lemma set_points_ok:
  "set_points cs (a, h, s) = Inr (a', h', s') \<Longrightarrow> heap_ok h s \<Longrightarrow> heap_ok h' s'"
proof (induction cs arbitrary: h s)
  case (Cons c cs)
  then obtain ref where ref: "sv_points s (Tag c) = Some ref" by (auto split: option.splits)
  obtain h1 s1 where 1: "set_point c ref h s = (h1, s1)" by fastforce
  have len: "ref < length h" using heap_okD(3) [OF Cons.prems(2) ref] by blast
  note o = set_point_ok [OF Cons.prems(2) len 1]
  show ?case
    by (rule Cons.IH [OF _ heap_ok_add_register [of h1 s1 ref a]]) (use Cons.prems(1) ref 1 o len in auto)
qed simp

lemma sunspec_child_ok:
  assumes "sunspec_child sch e (m, a, h, s) = Inr (m', a', h', s')" "heap_ok h s"
  shows "heap_ok h' s'"
proof (cases "Tag e = ''model''")
  case True
  then obtain i model cfg1 where c: "add_points i model (sj_points model) (a, h, s) = Inr cfg1"
    "set_points (ChildElements e) cfg1 = Inr (a', h', s')"
    using assms(1) by (auto simp: sunspec_child_def add_model_def split: option.splits prod.splits sum.splits if_splits)
  obtain a1 h1 s1 where 1: "cfg1 = (a1, h1, s1)" by (cases cfg1) auto
  show ?thesis using set_points_ok [OF c(2) [unfolded 1] add_points_ok [OF c(1) [unfolded 1] assms(2)]] .
next
  case False
  with assms show ?thesis by (auto simp: sunspec_child_def heap_ok_def split: if_splits)
qed

lemma sunspec_children_ok:
  "sunspec_children sch es (m, a, h, s) = Inr (m', a', h', s') \<Longrightarrow> heap_ok h s \<Longrightarrow> heap_ok h' s'"
proof (induction es arbitrary: m a h s)
  case (Cons e es)
  then obtain m1 a1 h1 s1 where "sunspec_child sch e (m, a, h, s) = Inr (m1, a1, h1, s1)"
    by (cases "sunspec_child sch e (m, a, h, s)") auto
  with Cons sunspec_child_ok show ?case by simp
qed simp

lemma new_server_ok: "heap_ok package_heap (NewSunSpecServer n p)"
  by (simp add: heap_ok_def package_heap_def NewSunSpecServer_def IdentifierRegister_def EndRegister_def
      EndRegisterLength_def ss_ok_def datatype_count_def type_counts_def)

lemma SunSpec_Configure_ok:
  assumes "SunSpec_Configure sch es (h, s) = Inr (h', s')" "heap_ok h s"
  shows "heap_ok h' s'"
proof -
  obtain m a s1 where c: "sunspec_children sch es (False, 40002, h, s\<lparr>sv_registers := (sv_registers s)(40000 \<mapsto> 0)\<rparr>) = Inr (m, a, h', s1)"
    "s' = s1\<lparr>sv_registers := (sv_registers s1)(a \<mapsto> 1, a + 1 \<mapsto> 2)\<rparr>"
    using assms(1) by (auto simp: SunSpec_Configure_def split: sum.splits if_splits)
  have "heap_ok h' s1"
    by (rule sunspec_children_ok [OF c(1) heap_ok_add_register [OF assms(2)]]) (use heap_okD(1) [OF assms(2)] in linarith)
  then show ?thesis using c(2) by (auto simp: heap_ok_def)
qed

section \<open>Reading\<close>

lemma tag_any_kind:
  assumes "heap_ok h s" "ref < length h" "sv_tags s [] = None"
  shows "tag_any s (h ! ref) = AnyNil \<or>
    (if string_type (ss_DataType (h ! ref)) then \<exists>x. tag_any s (h ! ref) = AnyString x else \<exists>x. tag_any s (h ! ref) = AnyFloat x)"
  using heap_okD(5) [OF assms(1,2)] assms(3) by (auto simp: tag_any_def split: option.split)

lemma register_bytes:
  assumes "heap_ok h s" "ref < length h" "sv_tags s [] = None"
  shows "\<exists>d. SS_Bytes impl (h ! ref) (tag_any s (h ! ref)) scaling = Done d \<and> length d = nat (2 * ss_Count (h ! ref))"
  using SS_Bytes_width [OF _ tag_any_kind [OF assms]] heap_okD(4) [OF assms(1,2)] unfolding ss_ok_def by blast

lemma register_count: "heap_ok h s \<Longrightarrow> ref < length h \<Longrightarrow> 1 \<le> ss_Count (h ! ref)"
  using heap_okD(4) datatype_count_bounds unfolding ss_ok_def by blast

lemma sunspec_read_loop_total:
  assumes "heap_ok h s" "sv_tags s [] = None" "nat (stop - addr) \<le> n"
  shows "\<exists>res. sunspec_read_loop impl h s n addr stop sz d = Done res"
  using assms(3)
proof (induction n arbitrary: addr sz d)
  case (Suc n)
  show ?case
  proof (cases "addr < stop \<and> sv_registers s addr \<noteq> None")
    case True
    then obtain ref where ref: "sv_registers s addr = Some ref" by blast
    have len: "ref < length h" by (rule heap_okD(2) [OF assms(1) ref])
    have "nat (stop - (addr + ss_Count (h ! ref))) \<le> n"
      using register_count [OF assms(1) len] Suc.prems True by linarith
    note rec = Suc.IH [OF this]
    show ?thesis
      using True ref rec register_bytes [OF assms(1) len assms(2), of impl "the (scaling_of h s (h ! ref))"]
      by (cases "scaling_of h s (h ! ref)") (auto simp: Let_def)
  qed (auto split: option.split)
qed simp

text \<open>The registers that a range of addresses consists of, and what they send.\<close>

fun sunspec_tiles :: "heap \<Rightarrow> SunSpecServer \<Rightarrow> int \<Rightarrow> int \<Rightarrow> nat list \<Rightarrow> bool" where
  "sunspec_tiles h s a stop [] \<longleftrightarrow> a = stop"
| "sunspec_tiles h s a stop (ref # refs) \<longleftrightarrow>
     a < stop \<and> sv_registers s a = Some ref \<and> sunspec_tiles h s (a + ss_Count (h ! ref)) stop refs"

definition sunspec_sends :: "go_impl \<Rightarrow> heap \<Rightarrow> SunSpecServer \<Rightarrow> nat \<Rightarrow> byte list outcome" where
  "sunspec_sends impl h s ref =
     (case scaling_of h s (h ! ref) of None \<Rightarrow> Panic | Some x \<Rightarrow> SS_Bytes impl (h ! ref) (tag_any s (h ! ref)) x)"

lemma sunspec_read_loop_tiles:
  assumes "list_all2 (\<lambda>ref d. sunspec_sends impl h s ref = Done d \<and> 1 \<le> ss_Count (h ! ref)) refs ds" "sunspec_tiles h s a stop refs" "nat (stop - a) \<le> n"
  shows "sunspec_read_loop impl h s n a stop sz d =
    Done (Inr (sz + 2 * sum_list (map (\<lambda>ref. ss_Count (h ! ref)) refs), d @ concat ds))"
  using assms
proof (induction refs ds arbitrary: a n sz d rule: list_all2_induct)
  case Nil
  then show ?case by (cases n) auto
next
  case (Cons ref refs x ds)
  then obtain m where n: "n = Suc m" by (cases n) auto
  have "nat (stop - (a + ss_Count (h ! ref))) \<le> m" using Cons.prems Cons.hyps n by auto
  with Cons n show ?case by (auto simp: sunspec_sends_def Let_def split: option.splits)
qed

lemma sunspec_tiles_words:
  assumes "heap_ok h s" "sv_tags s [] = None" "sunspec_tiles h s a stop refs" "map (sunspec_sends impl h s) refs = map Done ds"
  shows "list_all2 (\<lambda>ref d. sunspec_sends impl h s ref = Done d \<and> 1 \<le> ss_Count (h ! ref)) refs ds"
    and "sum_list (map (\<lambda>ref. ss_Count (h ! ref)) refs) = stop - a"
    and "length (concat ds) = nat (2 * (stop - a))"
proof -
  have "list_all2 (\<lambda>ref d. sunspec_sends impl h s ref = Done d \<and> 1 \<le> ss_Count (h ! ref)) refs ds \<and>
      sum_list (map (\<lambda>ref. ss_Count (h ! ref)) refs) = stop - a \<and> length (concat ds) = nat (2 * (stop - a)) \<and> a \<le> stop"
    using assms(3,4)
  proof (induction refs arbitrary: a ds)
    case (Cons ref refs)
    then obtain d ds' where ds: "ds = d # ds'" "sunspec_sends impl h s ref = Done d" "map (sunspec_sends impl h s) refs = map Done ds'"
      by (cases ds) auto
    have len: "ref < length h" using heap_okD(2) [OF assms(1), of a] Cons.prems(1) by simp
    have "length d = nat (2 * ss_Count (h ! ref))"
      using ds(2) register_bytes [OF assms(1) len assms(2), of impl "the (scaling_of h s (h ! ref))"]
      by (auto simp: sunspec_sends_def split: option.splits)
    with Cons.IH [of "a + ss_Count (h ! ref)" ds'] Cons.prems(1) ds register_count [OF assms(1) len]
    show ?case by auto
  qed simp
  then show "list_all2 (\<lambda>ref d. sunspec_sends impl h s ref = Done d \<and> 1 \<le> ss_Count (h ! ref)) refs ds"
    "sum_list (map (\<lambda>ref. ss_Count (h ! ref)) refs) = stop - a" "length (concat ds) = nat (2 * (stop - a))" by blast+
qed

lemma sunspec_read_tiled:
  assumes "heap_ok h s" "sv_tags s [] = None" "req_range data = Some (a, n)" "0 \<le> n"
    and "sunspec_tiles h s a (a + n) refs" "map (sunspec_sends impl h s) refs = map Done ds"
  shows "sunspec_readHoldingRegisters impl data (h, s) = Done (of_int (2 * n) # concat ds, Success)" "length (concat ds) = nat (2 * n)"
proof -
  note t = sunspec_tiles_words [OF assms(1,2,5,6)]
  show "length (concat ds) = nat (2 * n)" using t(3) by simp
  have "sunspec_read_loop impl h s (nat n) a (a + n) 0 [] = Done (Inr (2 * n, concat ds))"
    using sunspec_read_loop_tiles [OF t(1) assms(5), of "nat n" 0 "[]"] t(2) by simp
  then show "sunspec_readHoldingRegisters impl data (h, s) = Done (of_int (2 * n) # concat ds, Success)"
    using assms(3) by (simp add: sunspec_readHoldingRegisters_def)
qed

section \<open>Writing\<close>

lemma SS_Value_numeric:
  assumes "datatype_count (ss_DataType r) = Some n" "\<not> string_type (ss_DataType r)" "nat (2 * n) \<le> length d"
  shows "\<exists>v. SS_Value impl r (Some d) scaling = Inr v"
proof -
  note long = u16.dec_iff_long_enough u32.dec_iff_long_enough u64.dec_iff_long_enough
  from map_of_SomeD [OF assms(1) [unfolded datatype_count_def]] assms(2,3) show ?thesis
    unfolding SS_Value_def Let_def type_counts_def list.set
    by (elim insertE emptyE) (simp_all add: read_as_def long [symmetric] split: option.split)
qed

lemma sunspec_write_loop_no_success:
  "a < stop \<Longrightarrow> fst (sunspec_write_loop impl data s n a stop b h ups) \<notin> {Done None, Done (Some Success)}"
  by (induction n arbitrary: h ups) (auto simp: Let_def split: option.split sum.split)

text \<open>A round of the loop changes at most the stored value of the register it writes.\<close>

lemma sunspec_write_loop_diverges:
  assumes "a < stop" "sv_registers s a = Some ref" "ref < length h" "ss_ok (h ! ref)" "\<not> string_type (ss_DataType (h ! ref))"
    and "ss_ScaleRegister (h ! ref) = [] \<or> sv_points s (ss_ScaleRegister (h ! ref)) \<noteq> None"
    and "b + nat (ss_Count (h ! ref) * 2) \<le> length (backing data)"
  shows "fst (sunspec_write_loop impl data s n a stop b h ups) = Diverge"
  using assms
proof (induction n arbitrary: h ups)
  case (Suc n)
  let ?r = "h ! ref"
  obtain x where x: "scaling_of h s ?r = Some x" using Suc.prems(6) by (cases "ss_ScaleRegister ?r = []") (auto simp: scaling_of_def)
  obtain d where d: "slice data b (b + nat (ss_Count ?r * 2)) = Some d" "length d = nat (ss_Count ?r * 2)"
    using Suc.prems(7) by (simp add: slice_def)
  obtain v where v: "SS_Value impl ?r (Some d) x = Inr v"
    using SS_Value_numeric [OF Suc.prems(4) [unfolded ss_ok_def] Suc.prems(5), of d impl x] d(2) by (auto simp: mult.commute)
  have "fst (sunspec_write_loop impl data s n a stop b (h[ref := ?r\<lparr>ss_InternalValue := v\<rparr>]) ups) = Diverge"
    by (rule Suc.IH) (use Suc.prems in \<open>simp_all add: ss_ok_def\<close>)
  moreover have "fst (sunspec_write_loop impl data s n a stop b h (ups @ [point (ss_Tag ?r) v])) = Diverge"
    by (rule Suc.IH) (use Suc.prems in simp_all)
  ultimately show ?case using Suc.prems(1,2) x d(1) v by (simp add: Let_def)
qed simp

lemma sunspec_write_loop_ok:
  "heap_ok h s \<Longrightarrow> sunspec_write_loop impl data s n a stop b h ups = (out, h', ups') \<Longrightarrow> heap_ok h' s"
proof (induction n arbitrary: h ups)
  case (Suc n)
  show ?case
  proof (cases "a < stop \<and> sv_registers s a \<noteq> None")
    case True
    then obtain ref where ref: "sv_registers s a = Some ref" by blast
    have len: "ref < length h" by (rule heap_okD(2) [OF Suc.prems(1) ref])
    have "heap_ok (h[ref := (h ! ref)\<lparr>ss_InternalValue := v\<rparr>]) s" for v
      by (rule heap_ok_update [OF Suc.prems(1) len])
        (use heap_okD(4,5) [OF Suc.prems(1) len] in \<open>simp_all add: ss_ok_def\<close>)
    with Suc ref True show ?thesis by (auto simp: Let_def split: option.splits sum.splits if_splits)
  qed (use Suc.prems in \<open>auto split: option.splits if_splits\<close>)
qed auto

lemma sunspec_publish_frame:
  "sunspec_publish ups s = (b, s') \<Longrightarrow>
     sv_registers s' = sv_registers s \<and> sv_points s' = sv_points s \<and> sv_tags s' = sv_tags s \<and> sv_name s' = sv_name s"
  by (auto simp: sunspec_publish_def split: sum.splits prod.splits option.splits)

lemma sunspec_write_ok:
  assumes "heap_ok h s" "sunspec_writeHoldingRegisters impl fuel data (h, s) = (out, h', s')"
  shows "heap_ok h' s' \<and> sv_tags s' = sv_tags s"
proof (cases "req_range data")
  case (Some rng)
  obtain start count where r: "rng = (start, count)" by fastforce
  obtain o1 h1 ups where l: "sunspec_write_loop impl data s fuel start (start + count) 5 h [] = (o1, h1, ups)"
    by (cases "sunspec_write_loop impl data s fuel start (start + count) 5 h []") auto
  note ok = sunspec_write_loop_ok [OF assms(1) l]
  have "h' = h1 \<and> (s' = s \<or> (\<exists>b. sunspec_publish ups s = (b, s')))"
    using assms(2) Some r l
    by (auto simp: sunspec_writeHoldingRegisters_def split: outcome.splits option.splits if_splits prod.splits bool.splits)
  with ok sunspec_publish_frame heap_ok_same_maps [of s' s h1] show ?thesis by auto
qed (use assms in \<open>auto simp: sunspec_writeHoldingRegisters_def\<close>)

section \<open>Status messages\<close>

lemma sunspec_apply_dom [simp]: "dom (sunspec_apply ps ts) = dom ts"
  by (induction ps arbitrary: ts) auto

lemma sunspec_handleMsgBusStatus_frame:
  "sv_registers (sunspec_handleMsgBusStatus env s) = sv_registers s"
  "sv_points (sunspec_handleMsgBusStatus env s) = sv_points s"
  "sv_name (sunspec_handleMsgBusStatus env s) = sv_name s"
  "dom (sv_tags (sunspec_handleMsgBusStatus env s)) = dom (sv_tags s)"
  by (simp_all add: sunspec_handleMsgBusStatus_def split: prod.split option.split access_error.split)

interpretation sss: bus_handler sv_name sunspec_handleMsgBusStatus
  by unfold_locales (simp_all add: sunspec_handleMsgBusStatus_frame, simp add: sunspec_handleMsgBusStatus_def)

section \<open>Runs\<close>

text \<open>The states of a running server: configured, then serving requests that return and status
  messages in any order.\<close>

inductive sunspec_run :: "go_impl \<Rightarrow> schemas \<Rightarrow> heap \<times> SunSpecServer \<Rightarrow> bool" for impl sch where
  configured: "SunSpec_Configure sch es (package_heap, NewSunSpecServer n p) = Inr (h, s) \<Longrightarrow>
    sunspec_run impl sch (h, s\<lparr>sv_pusher := p'\<rparr>)"
| request: "sunspec_run impl sch st \<Longrightarrow> sunspec_function_handler impl fuel code data st = Some (Done r, st') \<Longrightarrow>
    sunspec_run impl sch st'"
| status: "sunspec_run impl sch (h, s) \<Longrightarrow> sunspec_run impl sch (h, sunspec_handleMsgBusStatus env s)"

lemma sunspec_run_ok: "sunspec_run impl sch st \<Longrightarrow> heap_ok (fst st) (snd st)"
proof (induction rule: sunspec_run.induct)
  case (configured es n p h s p')
  from SunSpec_Configure_ok [OF this new_server_ok] heap_ok_same_maps [of "s\<lparr>sv_pusher := p'\<rparr>" s h]
  show ?case by simp
next
  case (request st fuel code data r st')
  then show ?case
    using sunspec_write_ok [of "fst st" "snd st" impl fuel data "Done r" "fst st'" "snd st'"]
    by (auto simp: sunspec_function_handler_def split: if_splits)
next
  case (status h s env)
  then show ?case using heap_ok_same_maps [of "sunspec_handleMsgBusStatus env s" s h]
    by (simp add: sunspec_handleMsgBusStatus_frame)
qed

text \<open>C23: a SunSpec server answers every read. In every state it reaches, unless its configuration bound a point to
  the empty tag, a read request with a complete frame ends without a panic; a successful reply is the byte
  count and the encodings of the registers that make up the range, two bytes for each word.\<close>

theorem sunspec_reads_answered:
  assumes "sunspec_run impl sch (h, s)" "sv_tags s [] = None" "req_range data = Some (start, count)" "0 \<le> count"
  shows "\<exists>reply e. sunspec_readHoldingRegisters impl data (h, s) = Done (reply, e) \<and>
    (\<forall>refs ds. sunspec_tiles h s start (start + count) refs \<and> map (sunspec_sends impl h s) refs = map Done ds \<longrightarrow>
       e = Success \<and> reply = of_int (2 * count) # concat ds \<and> length (concat ds) = nat (2 * count))"
proof -
  note ok = sunspec_run_ok [OF assms(1), unfolded fst_conv snd_conv]
  obtain res where res: "sunspec_read_loop impl h s (nat count) start (start + count) 0 [] = Done res"
    using sunspec_read_loop_total [OF ok assms(2)] by force
  then obtain reply e where "sunspec_readHoldingRegisters impl data (h, s) = Done (reply, e)"
    using assms(3) by (cases res) (auto simp: sunspec_readHoldingRegisters_def)
  then show ?thesis using sunspec_read_tiled [OF ok assms(2-4)] by auto
qed

text \<open>C27: a SunSpec server never completes a write. The loop over the written registers advances neither the address nor
  the offset into the data: a request to write at least one word never succeeds, and when its first register
  exists, is numeric and its data are there, the handler never returns, however long one waits.\<close>

theorem sunspec_write_hangs:
  assumes "sunspec_run impl sch (h, s)" "req_range data = Some (start, count)" "0 < count"
  shows "(\<nexists>reply. fst (sunspec_writeHoldingRegisters impl fuel data (h, s)) = Done (reply, Success)) \<and>
    (\<forall>ref. sv_registers s start = Some ref \<and> \<not> string_type (ss_DataType (h ! ref)) \<and> scaling_of h s (h ! ref) \<noteq> None \<and>
       5 + nat (ss_Count (h ! ref) * 2) \<le> length (backing data) \<longrightarrow>
       fst (sunspec_writeHoldingRegisters impl fuel data (h, s)) = Diverge)"
proof -
  note ok = sunspec_run_ok [OF assms(1), unfolded fst_conv snd_conv]
  obtain o1 h1 ups where l: "sunspec_write_loop impl data s fuel start (start + count) 5 h [] = (o1, h1, ups)"
    by (cases "sunspec_write_loop impl data s fuel start (start + count) 5 h []") auto
  have "o1 \<notin> {Done None, Done (Some Success)}"
    using sunspec_write_loop_no_success [of start "start + count" impl data s fuel 5 h "[]"] assms(3) l by simp
  moreover have "o1 = Diverge"
    if "sv_registers s start = Some ref" "\<not> string_type (ss_DataType (h ! ref))" "scaling_of h s (h ! ref) \<noteq> None"
      "5 + nat (ss_Count (h ! ref) * 2) \<le> length (backing data)" for ref
  proof -
    have len: "ref < length h" by (rule heap_okD(2) [OF ok that(1)])
    have "ss_ScaleRegister (h ! ref) = [] \<or> sv_points s (ss_ScaleRegister (h ! ref)) \<noteq> None"
      using that(3) by (auto simp: scaling_of_def split: if_splits)
    from sunspec_write_loop_diverges [OF _ that(1) len heap_okD(4) [OF ok len] that(2) this that(4), of "start + count" impl fuel "[]"]
    show ?thesis using l assms(3) by simp
  qed
  ultimately show ?thesis
    using assms(2) l by (auto simp: sunspec_writeHoldingRegisters_def split: outcome.splits option.splits)
qed

text \<open>A model with a string, a scaled power that is bound to a tag, and its scale factor, to evaluate instances on.\<close>

definition demo_point :: "string \<Rightarrow> string \<Rightarrow> int \<Rightarrow> sf \<Rightarrow> string \<Rightarrow> SchemaPoint" where
  "demo_point n t z x acc = \<lparr>sp_name = n, sp_type = t, sp_size = z, sp_sf = x, sp_access = acc\<rparr>"

definition demo_model :: SchemaJson where
  "demo_model =
     \<lparr>sj_id = 1, sj_points =
        [demo_point ''ID'' ''uint16'' 1 SfNil ''R'', demo_point ''L'' ''uint16'' 1 SfNil ''R'',
         demo_point ''Mn'' ''string'' 16 SfNil ''R'', demo_point ''W'' ''int16'' 1 (SfString ''W_SF'') ''RW'',
         demo_point ''W_SF'' ''sunssf'' 1 SfNil ''R'']\<rparr>"

definition demo_schemas :: schemas where
  "demo_schemas i = (if i = 1 then Some demo_model else None)"

definition demo_sunspec_config :: "element list" where
  "demo_sunspec_config =
     [node ''model'' [(''id'', ''1'')] [] [node ''Mn'' [] ''OT-sim'' [], node ''W'' [] ''bus.p'' []]]"

lemma Atoi_one: "Atoi ''1'' = (1, True)"
  by (simp add: Atoi_def digits_val_def digit_val_def is_digit_def)

lemma demo_datatypes:
  "point_datatype (demo_point n t z x acc) = (if t = ''string'' then ''string'' @ show_int z else t)"
  "show_int 16 = ''16''"
  by (simp_all add: point_datatype_def demo_point_def show_int_def show_nat.simps char_of_def bit_iff_odd)

lemma demo_sunspec_configured:
  "\<exists>h s. SunSpec_Configure demo_schemas demo_sunspec_config (package_heap, NewSunSpecServer ''ss'' p) = Inr (h, s) \<and>
     length h = 8 \<and> sv_tags s = [''bus.p'' \<mapsto> f64_zero] \<and> sv_registers s 40000 = Some 0 \<and> sv_registers s 40020 = Some 6 \<and>
     sv_points s ''W_SF'' = Some 7 \<and>
     ss_DataType (h ! 6) = ''int16'' \<and> ss_ScaleRegister (h ! 6) = ''W_SF'' \<and> ss_Count (h ! 6) = 1"
proof -
  have pf: "ParseFloat ''bus.p'' = None"
    by (simp add: ParseFloat_def EqualFold_def to_lower_char_def read_float_def lower_def is_digit_def)
  have names: "sp_name (demo_point n t z x acc) = n" "sp_size (demo_point n t z x acc) = z" "sp_sf (demo_point n t z x acc) = x"
    for n t z x acc by (simp_all add: demo_point_def)
  show ?thesis
    by (simp add: SunSpec_Configure_def demo_sunspec_config_def sunspec_child_def add_model_def Atoi_one GetModelSchema_def
        demo_schemas_def demo_model_def point_register_def names demo_datatypes scale_fields_def SS_Init_def datatype_count_def
        type_counts_def zero_register_def package_heap_def NewSunSpecServer_def set_point_def pf Let_def)
qed

lemma demo_sunspec_run:
  "\<exists>h s. sunspec_run impl demo_schemas (h, s) \<and> heap_ok h s \<and> sv_tags s = [''bus.p'' \<mapsto> f64_zero] \<and>
     sv_registers s 40000 = Some 0 \<and> sv_registers s 40020 = Some 6 \<and> sv_points s ''W_SF'' = Some 7 \<and>
     ss_DataType (h ! 6) = ''int16'' \<and> ss_ScaleRegister (h ! 6) = ''W_SF'' \<and> ss_Count (h ! 6) = 1"
proof -
  let ?p = "\<lparr>sock = (\<lambda>_. True), attempts = 0, sent = []\<rparr>"
  obtain h s where c: "SunSpec_Configure demo_schemas demo_sunspec_config (package_heap, NewSunSpecServer ''ss'' ?p) = Inr (h, s)"
    and f: "sv_tags s = [''bus.p'' \<mapsto> f64_zero]" "sv_registers s 40000 = Some 0" "sv_registers s 40020 = Some 6"
    "sv_points s ''W_SF'' = Some 7" "ss_DataType (h ! 6) = ''int16''" "ss_ScaleRegister (h ! 6) = ''W_SF''" "ss_Count (h ! 6) = 1"
    using demo_sunspec_configured by blast
  note r = sunspec_run.configured [OF c, of impl ?p]
  show ?thesis
    by (intro exI conjI, rule r, rule sunspec_run_ok [OF r, unfolded fst_conv snd_conv]) (simp_all add: f)
qed

definition demo_request :: "byte list \<Rightarrow> gslice" where
  "demo_request bs = \<lparr>visible = bs, spare = []\<rparr>"

theorem sunspec_reads_answered_witness:
  "\<exists>h s reply e. sunspec_run demo_impl demo_schemas (h, s) \<and>
     sunspec_readHoldingRegisters demo_impl (demo_request [0x9C, 0x40, 0, 2]) (h, s) = Done (reply, e)"
proof -
  obtain h s where r: "sunspec_run demo_impl demo_schemas (h, s)" "sv_tags s = [''bus.p'' \<mapsto> f64_zero]"
    using demo_sunspec_run by blast
  have "req_range (demo_request [0x9C, 0x40, 0, 2]) = Some (40000, 2)"
    by (simp add: req_range_def req_word_def slice_def demo_request_def get16_def be_decode_def)
  from sunspec_reads_answered [OF r(1) _ this] r(2) show ?thesis using r(1) by auto
qed

theorem sunspec_write_hangs_witness:
  "\<exists>h s. sunspec_run demo_impl demo_schemas (h, s) \<and>
     fst (sunspec_writeHoldingRegisters demo_impl 1000000 (demo_request [0x9C, 0x54, 0, 1, 2, 0, 5]) (h, s)) = Diverge"
proof -
  obtain h s where r: "sunspec_run demo_impl demo_schemas (h, s)"
    "sv_registers s 40020 = Some 6" "sv_points s ''W_SF'' = Some 7" "ss_DataType (h ! 6) = ''int16''"
    "ss_ScaleRegister (h ! 6) = ''W_SF''" "ss_Count (h ! 6) = 1"
    using demo_sunspec_run by blast
  have "req_range (demo_request [0x9C, 0x54, 0, 1, 2, 0, 5]) = Some (40020, 1)"
    by (simp add: req_range_def req_word_def slice_def demo_request_def get16_def be_decode_def)
  from sunspec_write_hangs [OF r(1) this, of 1000000] have
    "\<forall>ref. sv_registers s 40020 = Some ref \<and> \<not> string_type (ss_DataType (h ! ref)) \<and> scaling_of h s (h ! ref) \<noteq> None \<and>
       5 + nat (ss_Count (h ! ref) * 2) \<le> length (backing (demo_request [0x9C, 0x54, 0, 1, 2, 0, 5])) \<longrightarrow>
       fst (sunspec_writeHoldingRegisters demo_impl 1000000 (demo_request [0x9C, 0x54, 0, 1, 2, 0, 5]) (h, s)) = Diverge"
    by simp
  from spec [OF this, of 6] r have
    "fst (sunspec_writeHoldingRegisters demo_impl 1000000 (demo_request [0x9C, 0x54, 0, 1, 2, 0, 5]) (h, s)) = Diverge"
    by (simp add: scaling_of_def demo_request_def)
  with r(1) show ?thesis by blast
qed

end
