(* ===== verification/SunSpecLayout.thy ===== *)
theory SunSpecLayout
  imports SunSpecServerCorrect
begin

text \<open>
  Where the points of the configured models lie in the register map of a SunSpec server:
  the models follow each other from address 40002, each starting with its number and its
  length, and the end marker follows the last one.
\<close>

section \<open>The specification of the layout\<close>

fun place_points :: "int \<Rightarrow> SchemaPoint list \<Rightarrow> (int \<times> SchemaPoint) list" where
  "place_points a [] = []"
| "place_points a (p # ps) = (a, p) # place_points (a + sp_size p) ps"

definition model_total :: "SchemaJson \<Rightarrow> int" where
  "model_total m = sum_list (map sp_size (sj_points m))"

fun place_models :: "int \<Rightarrow> (int \<times> SchemaJson) list \<Rightarrow> (int \<times> int \<times> SchemaJson) list" where
  "place_models a [] = []"
| "place_models a ((i, m) # ms) = (a, i, m) # place_models (a + model_total m) ms"

definition models_total :: "(int \<times> SchemaJson) list \<Rightarrow> int" where
  "models_total ms = sum_list (map (model_total \<circ> snd) ms)"

text \<open>The models an accepted configuration names, in order.\<close>

definition config_model :: "schemas \<Rightarrow> element \<Rightarrow> (int \<times> SchemaJson) list" where
  "config_model sch e =
     (if Tag e = ''model'' then
        (case SelectAttr e ''id'' of
           None \<Rightarrow> []
         | Some x \<Rightarrow> (case sch (fst (Atoi x)) of None \<Rightarrow> [] | Some m \<Rightarrow> [(fst (Atoi x), m)]))
      else [])"

definition config_models :: "schemas \<Rightarrow> element list \<Rightarrow> (int \<times> SchemaJson) list" where
  "config_models sch es = concat (map (config_model sch) es)"

text \<open>The register of a point, as the configuration leaves it; only number and length keep the values
  they were made with.\<close>

definition is_point :: "int \<Rightarrow> SchemaJson \<Rightarrow> SchemaPoint \<Rightarrow> SSRegister \<Rightarrow> bool" where
  "is_point i m p r \<longleftrightarrow>
     ss_ok r \<and> ss_DataType r = point_datatype p \<and> ss_Name r = sp_name p \<and>
     ss_ScaleRegister r = (case sp_sf p of SfString n \<Rightarrow> n | _ \<Rightarrow> []) \<and>
     (sp_sf p = SfNil \<longrightarrow> ss_Scaling r = f64_zero) \<and>
     (sp_name p = ''ID'' \<longrightarrow> ss_Tag r = [] \<and> ss_InternalValue r = f64_of_int i) \<and>
     (sp_name p = ''L'' \<longrightarrow> ss_Tag r = [] \<and> ss_InternalValue r = f64_of_int (GetModelLength m))"

definition laid :: "heap \<Rightarrow> SunSpecServer \<Rightarrow> int \<Rightarrow> SchemaJson \<Rightarrow> int \<times> SchemaPoint \<Rightarrow> bool" where
  "laid h s i m x \<longleftrightarrow>
     (\<exists>ref. sv_registers s (fst x) = Some ref \<and> ref < length h \<and> is_point i m (snd x) (h ! ref)) \<and>
     sv_points s (sp_name (snd x)) \<noteq> None"

definition laid_model :: "heap \<Rightarrow> SunSpecServer \<Rightarrow> int \<times> int \<times> SchemaJson \<Rightarrow> bool" where
  "laid_model h s x \<longleftrightarrow>
     (case x of (a, i, m) \<Rightarrow> list_all (laid h s i m) (place_points a (sj_points m)))"

text \<open>What is assumed of a published model definition: it starts with the number and the length of the model, every
  point has the size of its type, and scale factors are points of the model.\<close>

definition schema_ok :: "SchemaJson \<Rightarrow> bool" where
  "schema_ok m \<longleftrightarrow>
     list_all (\<lambda>p. datatype_count (point_datatype p) = Some (sp_size p) \<and>
                  (case sp_sf p of SfNil \<Rightarrow> True | SfString n \<Rightarrow> n \<noteq> [] \<and> n \<in> set (map sp_name (sj_points m)) | _ \<Rightarrow> False))
       (sj_points m) \<and>
     (case sj_points m of
        p # q # ps \<Rightarrow> sp_name p = ''ID'' \<and> sp_type p = ''uint16'' \<and> sp_sf p = SfNil \<and>
                      sp_name q = ''L'' \<and> sp_type q = ''uint16'' \<and> sp_sf q = SfNil
      | _ \<Rightarrow> False)"

text \<open>What is assumed of a configuration file: it does not set the number or the length of a model, and binds
  no point to an empty tag.\<close>

definition settings_ok :: "element \<Rightarrow> bool" where
  "settings_ok e \<longleftrightarrow> (Tag e = ''model'' \<longrightarrow> list_all (\<lambda>c. Tag c \<notin> {''ID'', ''L''} \<and> Text c \<noteq> []) (ChildElements e))"

section \<open>The configuration builds the layout\<close>

text \<open>A later step keeps what lies below its address.\<close>

definition extends :: "int \<Rightarrow> heap \<times> SunSpecServer \<Rightarrow> heap \<times> SunSpecServer \<Rightarrow> bool" where
  "extends a x y \<longleftrightarrow>
     (case (x, y) of ((h, s), (h', s')) \<Rightarrow>
        (\<forall>b < a. sv_registers s' b = sv_registers s b) \<and> dom (sv_points s) \<subseteq> dom (sv_points s') \<and>
        length h \<le> length h' \<and> (\<forall>ref < 3. h' ! ref = h ! ref) \<and> (sv_tags s [] = None \<longrightarrow> sv_tags s' [] = None) \<and>
        (\<forall>ref i m p. ref < length h \<longrightarrow> is_point i m p (h ! ref) \<longrightarrow> is_point i m p (h' ! ref)))"

lemma extends_refl: "extends a x x"
  by (simp add: extends_def split: prod.split)

lemma extends_trans:
  assumes "extends a x y" "extends b y z" "a \<le> b"
  shows "extends a x z"
proof -
  obtain h s h1 s1 h2 s2 where xyz: "x = (h, s)" "y = (h1, s1)" "z = (h2, s2)"
    by (cases x; cases y; cases z) blast
  have a: "length h \<le> length h1" "dom (sv_points s) \<subseteq> dom (sv_points s1)"
    and b: "length h1 \<le> length h2" "dom (sv_points s1) \<subseteq> dom (sv_points s2)"
    using assms(1,2) unfolding extends_def xyz by blast+
  have "length h \<le> length h2" using a(1) b(1) by (rule order_trans)
  moreover have "dom (sv_points s) \<subseteq> dom (sv_points s2)" using a(2) b(2) by (rule order_trans)
  moreover have "is_point i m p (h2 ! ref)" if "ref < length h" "is_point i m p (h ! ref)" for ref i m p
    using that assms(1,2) a(1) by (auto simp: extends_def xyz)
  ultimately show ?thesis using assms by (simp add: extends_def xyz)
qed

lemma laid_extends:
  assumes "laid h s i m (b, p)" "extends a (h, s) (h', s')" "b < a"
  shows "laid h' s' i m (b, p)"
  using assms unfolding laid_def extends_def by (auto intro: order_less_le_trans)

lemma laid_points_extends:
  assumes "list_all (laid h s i m) (place_points b ps)" "extends a (h, s) (h', s')"
    and "list_all (\<lambda>p. 1 \<le> sp_size p) ps" "b + sum_list (map sp_size ps) \<le> a"
  shows "list_all (laid h' s' i m) (place_points b ps)"
  using assms
proof (induction ps arbitrary: b)
  case (Cons p ps)
  have nonneg: "0 \<le> sum_list (map sp_size ps)"
    using Cons.prems(3) by (induction ps) auto
  with Cons show ?case using laid_extends [of h s i m b p a h' s'] by auto
qed simp

lemma point_register_is_point: "point_register i m p = Inr r \<Longrightarrow> is_point i m p r"
  using point_register_spec [of i m p r] by (auto simp: is_point_def split: sf.split)

lemma add_points_layout:
  assumes "add_points i m ps (a, h, s) = Inr (a', h', s')" "heap_ok h s" "list_all (\<lambda>p. 1 \<le> sp_size p) ps"
  shows "a' = a + sum_list (map sp_size ps) \<and> extends a (h, s) (h', s') \<and> list_all (laid h' s' i m) (place_points a ps)"
  using assms
proof (induction ps arbitrary: a h s)
  case (Cons p ps)
  obtain r where r: "point_register i m p = Inr r" using Cons.prems(1) by (auto split: sum.splits)
  let ?h = "h @ [r]" and ?s = "s\<lparr>sv_registers := (sv_registers s)(a \<mapsto> length h), sv_points := (sv_points s)(sp_name p \<mapsto> length h)\<rparr>"
  have ok: "heap_ok ?h ?s" by (rule heap_ok_alloc [OF Cons.prems(2) point_register_spec(1,4,3) [OF r]])
  have rec: "add_points i m ps (a + sp_size p, ?h, ?s) = Inr (a', h', s')" using Cons.prems(1) r by (simp add: Let_def)
  note IH = Cons.IH [OF rec ok]
  have len: "3 \<le> length h" by (rule heap_okD(1) [OF Cons.prems(2)])
  have "extends a (h, s) (?h, ?s)" using len by (auto simp: extends_def nth_append)
  moreover have "laid ?h ?s i m (a, p)"
    using point_register_is_point [OF r] by (simp add: laid_def nth_append)
  ultimately show ?case
    using IH Cons.prems(3) extends_trans [of a "(h, s)" "(?h, ?s)" "a + sp_size p" "(h', s')"]
      laid_extends [of ?h ?s i m a p "a + sp_size p" h' s'] by auto
qed (simp add: extends_refl)

lemma set_point_extends:
  assumes "heap_ok h s" "sv_points s (Tag c) = Some ref" "set_point c ref h s = (h', s')" "Tag c \<notin> {''ID'', ''L''}" "Text c \<noteq> []"
  shows "extends a (h, s) (h', s'\<lparr>sv_registers := (sv_registers s')(a \<mapsto> ref)\<rparr>)"
proof -
  have ref: "3 \<le> ref" "ref < length h" "ss_Name (h ! ref) = Tag c" using heap_okD(3) [OF assms(1,2)] by auto
  obtain f where f: "h' = h[ref := f (h ! ref)]" "\<And>i m p r. ss_Name r = Tag c \<Longrightarrow> is_point i m p r \<Longrightarrow> is_point i m p (f r)"
    and s': "sv_registers s' = sv_registers s" "sv_points s' = sv_points s" "sv_tags s [] = None \<Longrightarrow> sv_tags s' [] = None"
  proof -
    consider "h' = h[ref := (h ! ref)\<lparr>ss_InternalString := Text c\<rparr>]" "s' = s"
      | v where "h' = h[ref := (h ! ref)\<lparr>ss_InternalValue := v\<rparr>]" "s' = s"
      | "h' = h[ref := (h ! ref)\<lparr>ss_Tag := Text c\<rparr>]" "s' = s\<lparr>sv_tags := (sv_tags s)(Text c \<mapsto> f64_zero)\<rparr>"
      using assms(3) by (auto simp: set_point_def Let_def split: if_splits option.splits)
    then show ?thesis
      using assms(4,5) that
      by cases (fastforce simp: is_point_def ss_ok_def)+
  qed
  show ?thesis
    using ref f s' by (auto simp: extends_def nth_list_update)
qed

lemma set_points_extends:
  assumes "set_points cs (a, h, s) = Inr (a', h', s')" "heap_ok h s" "list_all (\<lambda>c. Tag c \<notin> {''ID'', ''L''} \<and> Text c \<noteq> []) cs"
  shows "a' = a \<and> extends a (h, s) (h', s')"
  using assms
proof (induction cs arbitrary: h s)
  case (Cons c cs)
  then obtain ref where ref: "sv_points s (Tag c) = Some ref" by (auto split: option.splits)
  obtain h1 s1 where 1: "set_point c ref h s = (h1, s1)" by fastforce
  let ?s = "s1\<lparr>sv_registers := (sv_registers s1)(a \<mapsto> ref)\<rparr>"
  have len: "ref < length h" using heap_okD(3) [OF Cons.prems(2) ref] by blast
  note o = set_point_ok [OF Cons.prems(2) len 1]
  have "heap_ok h1 ?s" by (rule heap_ok_add_register) (use o len in auto)
  moreover have "set_points cs (a, h1, ?s) = Inr (a', h', s')" using Cons.prems(1) ref 1 by simp
  moreover have "extends a (h, s) (h1, ?s)" using Cons.prems(3) by (intro set_point_extends [OF Cons.prems(2) ref 1]) auto
  ultimately show ?case using Cons.IH [of h1 ?s] Cons.prems(3) extends_trans [of a "(h, s)" "(h1, ?s)" a "(h', s')"] by auto
qed (simp add: extends_refl)

lemma datatype_sizes: "list_all (\<lambda>p. datatype_count (point_datatype p) = Some (sp_size p)) ps \<Longrightarrow> list_all (\<lambda>p. 1 \<le> sp_size p) ps"
  using datatype_count_bounds by (auto simp: list_all_iff)

lemma schema_sizes: "schema_ok m \<Longrightarrow> list_all (\<lambda>p. 1 \<le> sp_size p) (sj_points m)"
  by (rule datatype_sizes) (auto simp: schema_ok_def list_all_iff)

lemma sum_sizes_nonneg: "list_all (\<lambda>p. 1 \<le> sp_size p) ps \<Longrightarrow> 0 \<le> sum_list (map sp_size ps)"
  by (induction ps) auto

lemma models_total_simps: "models_total [] = 0" "models_total (x # ms) = model_total (snd x) + models_total ms"
  "models_total (ms @ ms') = models_total ms + models_total ms'"
  by (simp_all add: models_total_def)

lemma sunspec_child_layout:
  assumes "sunspec_child sch e (b, a, h, s) = Inr (b', a', h', s')" "heap_ok h s" "settings_ok e"
    and "list_all (schema_ok \<circ> snd) (config_model sch e)"
  shows "a' = a + models_total (config_model sch e) \<and> extends a (h, s) (h', s') \<and>
    list_all (laid_model h' s') (place_models a (config_model sch e)) \<and>
    (b' \<longleftrightarrow> b \<or> 1 \<in> set (map fst (config_model sch e)))"
proof (cases "Tag e = ''model''")
  case True
  obtain x i m cfg1 where c: "SelectAttr e ''id'' = Some x" "Atoi x = (i, True)" "sch i = Some m" "b' \<longleftrightarrow> b \<or> i = 1"
    "add_points i m (sj_points m) (a, h, s) = Inr cfg1" "set_points (ChildElements e) cfg1 = Inr (a', h', s')"
    using assms(1) True
    by (auto simp: sunspec_child_def add_model_def GetModelSchema_def split: option.splits prod.splits sum.splits if_splits)
  have cm: "config_model sch e = [(i, m)]" using True c by (simp add: config_model_def)
  have sz: "list_all (\<lambda>p. 1 \<le> sp_size p) (sj_points m)" using assms(4) cm by (simp add: schema_sizes)
  obtain a1 h1 s1 where 1: "cfg1 = (a1, h1, s1)" by (cases cfg1) auto
  note A = add_points_layout [OF c(5) [unfolded 1] assms(2) sz]
  note S = set_points_extends [OF c(6) [unfolded 1] add_points_ok [OF c(5) [unfolded 1] assms(2)]]
  have S': "a' = a1 \<and> extends a1 (h1, s1) (h', s')" using S assms(3) True by (simp add: settings_ok_def)
  have le: "a \<le> a1" using A sum_sizes_nonneg [OF sz] by simp
  have "list_all (laid h' s' i m) (place_points a (sj_points m))"
    by (rule laid_points_extends [of h1 s1 i m a _ a1]) (use A S' sz in auto)
  moreover have "extends a (h, s) (h', s')" using A S' le extends_trans by blast
  ultimately show ?thesis using cm A S' c(4) by (auto simp: laid_model_def models_total_simps model_total_def)
next
  case False
  with assms(1) have "a' = a \<and> h' = h \<and> b' = b \<and> sv_registers s' = sv_registers s \<and> sv_points s' = sv_points s \<and> sv_tags s' = sv_tags s"
    by (auto simp: sunspec_child_def split: if_splits)
  then show ?thesis using False by (simp add: config_model_def models_total_simps extends_def)
qed

lemma place_models_append: "place_models a (ms @ ms') = place_models a ms @ place_models (a + models_total ms) ms'"
  by (induction ms arbitrary: a) (auto simp: models_total_simps algebra_simps)

lemma model_total_nonneg: "schema_ok m \<Longrightarrow> 0 \<le> model_total m"
  using sum_sizes_nonneg [OF schema_sizes] by (simp add: model_total_def)

lemma models_total_nonneg: "list_all (schema_ok \<circ> snd) ms \<Longrightarrow> 0 \<le> models_total ms"
  by (induction ms) (auto simp: models_total_simps dest: model_total_nonneg)

lemma laid_models_extends:
  assumes "list_all (laid_model h s) (place_models b ms)" "extends a (h, s) (h', s')"
    and "list_all (schema_ok \<circ> snd) ms" "b + models_total ms \<le> a"
  shows "list_all (laid_model h' s') (place_models b ms)"
  using assms
proof (induction ms arbitrary: b)
  case (Cons x ms)
  obtain i m where x: "x = (i, m)" by fastforce
  have nonneg: "0 \<le> models_total ms"
    using Cons.prems(3) by (intro models_total_nonneg) (simp add: o_def)
  have "list_all (laid h' s' i m) (place_points b (sj_points m))"
    by (rule laid_points_extends [OF _ Cons.prems(2)])
      (use Cons.prems nonneg in \<open>auto simp: x laid_model_def schema_sizes models_total_simps model_total_def\<close>)
  with Cons x show ?case by (auto simp: laid_model_def models_total_simps)
qed simp

lemma sunspec_children_layout:
  assumes "sunspec_children sch es (b, a, h, s) = Inr (b', a', h', s')" "heap_ok h s" "list_all settings_ok es"
    and "list_all (schema_ok \<circ> snd) (config_models sch es)"
  shows "a' = a + models_total (config_models sch es) \<and> extends a (h, s) (h', s') \<and>
    list_all (laid_model h' s') (place_models a (config_models sch es)) \<and>
    (b' \<longleftrightarrow> b \<or> 1 \<in> set (map fst (config_models sch es)))"
  using assms
proof (induction es arbitrary: b a h s)
  case (Cons e es)
  let ?m = "config_model sch e"
  obtain b1 a1 h1 s1 where 1: "sunspec_child sch e (b, a, h, s) = Inr (b1, a1, h1, s1)"
    using Cons.prems(1) by (cases "sunspec_child sch e (b, a, h, s)") auto
  have ok: "list_all (schema_ok \<circ> snd) ?m" "list_all (schema_ok \<circ> snd) (config_models sch es)"
    using Cons.prems(4) by (simp_all add: config_models_def o_def)
  have C: "a1 = a + models_total ?m" "extends a (h, s) (h1, s1)" "list_all (laid_model h1 s1) (place_models a ?m)"
    "b1 \<longleftrightarrow> b \<or> 1 \<in> set (map fst ?m)"
    using sunspec_child_layout [OF 1 Cons.prems(2) _ ok(1)] Cons.prems(3) by auto
  have R: "a' = a1 + models_total (config_models sch es)" "extends a1 (h1, s1) (h', s')"
    "list_all (laid_model h' s') (place_models a1 (config_models sch es))"
    "b' \<longleftrightarrow> b1 \<or> 1 \<in> set (map fst (config_models sch es))"
    using Cons.IH [OF _ sunspec_child_ok [OF 1 Cons.prems(2)] _ ok(2)] Cons.prems(1,3) 1 by auto
  have le: "a \<le> a1"
    using C(1) models_total_nonneg [OF ok(1)] by simp
  have "list_all (laid_model h' s') (place_models a ?m)"
    by (rule laid_models_extends [OF C(3) R(2) ok(1)]) (simp add: C(1))
  moreover have "extends a (h, s) (h', s')" by (rule extends_trans [OF C(2) R(2) le])
  moreover have "config_models sch (e # es) = ?m @ config_models sch es" by (simp add: config_models_def)
  ultimately show ?case using C R by (auto simp: models_total_simps place_models_append)
qed (simp add: config_models_def models_total_simps extends_refl)

text \<open>The whole register map of an accepted configuration.\<close>

lemma configured_layout:
  assumes "SunSpec_Configure sch es (package_heap, NewSunSpecServer n p) = Inr (h, s)" "list_all settings_ok es"
    and "list_all (schema_ok \<circ> snd) (config_models sch es)"
  defines "ms \<equiv> config_models sch es" and "stop \<equiv> 40002 + models_total (config_models sch es)"
  shows "heap_ok h s" "sv_registers s 40000 = Some 0" "take 3 h = package_heap" "sv_tags s [] = None"
    and "list_all (laid_model h s) (place_models 40002 ms)" "sv_registers s stop = Some 1" "sv_registers s (stop + 1) = Some 2"
    and "1 \<in> set (map fst ms)"
proof -
  let ?s0 = "(NewSunSpecServer n p)\<lparr>sv_registers := [40000 \<mapsto> 0]\<rparr>"
  obtain a s1 where c: "sunspec_children sch es (False, 40002, package_heap, ?s0) = Inr (True, a, h, s1)"
    "s = s1\<lparr>sv_registers := (sv_registers s1)(a \<mapsto> 1, a + 1 \<mapsto> 2)\<rparr>"
    using assms(1) by (auto simp: SunSpec_Configure_def NewSunSpecServer_def split: sum.splits if_splits)
  have ok0: "heap_ok package_heap ?s0"
    using heap_ok_add_register [OF new_server_ok [of n p], of 0 40000] by (simp add: package_heap_def NewSunSpecServer_def)
  note L = sunspec_children_layout [OF c(1) ok0 assms(2,3)]
  have a: "a = stop" "40002 \<le> stop"
    using L models_total_nonneg [OF assms(3)] by (simp_all add: stop_def)
  show "heap_ok h s" using SunSpec_Configure_ok [OF assms(1) new_server_ok] .
  show "sv_registers s 40000 = Some 0" using L a c(2) by (simp add: extends_def)
  have l: "length (take 3 h) = length package_heap" using L by (auto simp: extends_def package_heap_def)
  show "take 3 h = package_heap"
    by (rule nth_equalityI [OF l]) (use L l in \<open>auto simp: extends_def package_heap_def\<close>)
  show "sv_tags s [] = None" using L c(2) by (simp add: extends_def NewSunSpecServer_def)
  have "extends stop (h, s1) (h, s)" using c(2) a(1) by (simp add: extends_def)
  then show "list_all (laid_model h s) (place_models 40002 ms)"
    using laid_models_extends [of h s1 40002 ms stop h s] L assms(3) by (simp add: ms_def stop_def)
  show "sv_registers s stop = Some 1" "sv_registers s (stop + 1) = Some 2" using c(2) a(1) by auto
  show "1 \<in> set (map fst ms)" using L by (simp add: ms_def)
qed

end
