(* ===== verification/SunSpecClient.thy ===== *)
theory SunSpecClient
  imports SunSpec ModbusClient "HOL-Library.AList"
begin

text \<open>
  The package sunspec/client: the identifier check, the walk over the models of a remote
  device and the data of a model (util.go), the state, the start, the polling and the
  handling of updates (client.go), and the factory of sunspec.go. The Modbus library is a
  record of operations on the state of the remote device; what it returns is a slice, whose
  spare capacity a slice expression may reach. The client never changes a register after
  it has filed it, so its points are values and not references.
\<close>

record 'd sunspec_api =
  SSReadHoldingRegisters :: "uint16 \<Rightarrow> uint16 \<Rightarrow> 'd \<Rightarrow> gslice result \<times> 'd"
  SSWriteMultipleRegisters :: "uint16 \<Rightarrow> uint16 \<Rightarrow> byte list \<Rightarrow> 'd \<Rightarrow> byte list result \<times> 'd"

section \<open>util.go\<close>

definition confirmIdentifier :: "go_impl \<Rightarrow> 'd sunspec_api \<Rightarrow> 'd \<Rightarrow> string option \<times> 'd" where
  "confirmIdentifier impl api d =
     (let r = IdentifierRegister
      in case SSReadHoldingRegisters api 40000 (of_int (ss_Count r)) d of
           (Inl err, d') \<Rightarrow> (Some ''reading identifier'', d')
         | (Inr body, d') \<Rightarrow>
             (case SS_Value impl r (Some (visible body)) f64_zero of
                Inl err \<Rightarrow> (Some ''parsing identifier'', d')
              | Inr v \<Rightarrow> (if \<not> f64_eq v SunSpecIdentifier then Some ''invalid identifier provided by remote device'' else None, d')))"

definition generic_register :: SSRegister where
  "generic_register = zero_register\<lparr>ss_DataType := ''uint16'', ss_Count := 1\<rparr>"

definition nextModel :: "go_impl \<Rightarrow> 'd sunspec_api \<Rightarrow> int \<Rightarrow> 'd \<Rightarrow> (int \<times> int) result outcome \<times> 'd" where
  "nextModel impl api a d =
     (case SSReadHoldingRegisters api (of_int a) 2 d of
        (Inl err, d') \<Rightarrow> (Done (Inl ''reading model ID and length''), d')
      | (Inr body, d') \<Rightarrow>
          (case slice body 0 2 of
             None \<Rightarrow> (Panic, d')
           | Some x \<Rightarrow>
               (case SS_Value impl generic_register (Some x) f64_zero of
                  Inl err \<Rightarrow> (Done (Inl ''parsing model ID''), d')
                | Inr m \<Rightarrow>
                    (case slice body 2 4 of
                       None \<Rightarrow> (Panic, d')
                     | Some y \<Rightarrow>
                         (case SS_Value impl generic_register (Some y) f64_zero of
                            Inl err \<Rightarrow> (Done (Inl ''parsing model length''), d')
                          | Inr l \<Rightarrow> (Done (Inr (f64_to_int impl True 64 m, f64_to_int impl True 64 l)), d'))))))"

text \<open>The register of one point: a numeric scale factor is a float64 in decoded JSON, which no case names.\<close>

definition remote_register :: "int \<Rightarrow> int \<Rightarrow> int \<Rightarrow> SchemaPoint \<Rightarrow> SSRegister result" where
  "remote_register m a pos p =
     (let r = zero_register\<lparr>ss_DataType := point_datatype p, ss_Name := sp_name p, ss_Model := m\<rparr>;
          r1 = (if sp_access p = ''RW'' then r\<lparr>ss_Addr := a + pos\<rparr> else r)
      in case (case sp_sf p of
                 SfNil \<Rightarrow> Inr r1
               | SfInt i \<Rightarrow> Inr (r1\<lparr>ss_Scaling := f64_of_int i\<rparr>)
               | SfString n \<Rightarrow> Inr (r1\<lparr>ss_ScaleRegister := n\<rparr>)
               | _ \<Rightarrow> Inl ''unknown type when parsing scaling factor'') of
           Inl err \<Rightarrow> Inl err
         | Inr r2 \<Rightarrow> (case SS_Init r2 of Inl err \<Rightarrow> Inl ''initializing register'' | Inr r3 \<Rightarrow> Inr r3))"

type_synonym model_data = "(string \<times> SSRegister) list"

definition slice_int :: "gslice \<Rightarrow> int \<Rightarrow> int \<Rightarrow> byte list option" where
  "slice_int d lo hi = (if lo < 0 \<or> hi < 0 then None else slice d (nat lo) (nat hi))"

fun data_loop :: "int \<Rightarrow> int \<Rightarrow> gslice \<Rightarrow> nat \<Rightarrow> SchemaPoint list \<Rightarrow> int \<Rightarrow> model_data \<Rightarrow> model_data result outcome" where
  "data_loop m a d idx [] pos regs = Done (Inr regs)"
| "data_loop m a d idx (p # ps) pos regs =
     (if idx < 2 then data_loop m a d (Suc idx) ps pos regs
      else case remote_register m a pos p of
             Inl err \<Rightarrow> Done (Inl err)
           | Inr r \<Rightarrow>
               (case slice_int d pos (pos + sp_size p * 2) of
                  None \<Rightarrow> Panic
                | Some raw \<Rightarrow>
                    data_loop m a d (Suc idx) ps (pos + sp_size p * 2)
                      (AList.update (ss_Name r) (r\<lparr>ss_Raw := Some raw\<rparr>) regs)))"

definition modelData ::
  "schemas \<Rightarrow> 'd sunspec_api \<Rightarrow> int \<Rightarrow> int \<Rightarrow> int \<Rightarrow> 'd \<Rightarrow> model_data result outcome \<times> 'd" where
  "modelData sch api m a l d =
     (case SSReadHoldingRegisters api (of_int a) (of_int l) d of
        (Inl err, d') \<Rightarrow> (Done (Inl ''reading Model data''), d')
      | (Inr body, d') \<Rightarrow>
          (case GetModelSchema sch m of
             Inl err \<Rightarrow> (Done (Inl ''getting Model schema''), d')
           | Inr s \<Rightarrow> (data_loop m a body 0 (sj_points s) 0 [], d')))"

section \<open>client.go\<close>

record SunSpecClient =
  sc_pull_endpoint :: string
  sc_pub_endpoint :: string
  sc_name :: string
  sc_id :: int
  sc_endpoint :: string
  sc_period :: int
  sc_pusher :: Pusher
  sc_models :: Models
  sc_points :: "string \<rightharpoonup> SSRegister"

definition NewSunSpecClient :: "string \<Rightarrow> Pusher \<Rightarrow> SunSpecClient" where
  "NewSunSpecClient name p =
     \<lparr>sc_pull_endpoint = [], sc_pub_endpoint = [], sc_name = name, sc_id = 0, sc_endpoint = [], sc_period = 5 * 10 ^ 9,
      sc_pusher = p, sc_models = \<lparr>md_Order = [], md_Settings = Map.empty\<rparr>, sc_points = Map.empty\<rparr>"

definition sunspec_client_child :: "go_impl \<Rightarrow> element \<Rightarrow> SunSpecClient \<Rightarrow> SunSpecClient result" where
  "sunspec_client_child impl child c =
     (if Tag child = ''pull-endpoint'' then Inr (c\<lparr>sc_pull_endpoint := Text child\<rparr>)
      else if Tag child = ''pub-endpoint'' then Inr (c\<lparr>sc_pub_endpoint := Text child\<rparr>)
      else if Tag child = ''endpoint'' then Inr (c\<lparr>sc_endpoint := Text child\<rparr>)
      else if Tag child = ''period'' then
        (case ParseDuration impl (Text child) of
           None \<Rightarrow> Inl ''invalid period''
         | Some t \<Rightarrow> Inr (c\<lparr>sc_period := t\<rparr>))
      else Inr c)"

fun SunSpecClient_Configure :: "go_impl \<Rightarrow> element list \<Rightarrow> SunSpecClient \<Rightarrow> SunSpecClient result" where
  "SunSpecClient_Configure impl [] c = Inr c"
| "SunSpecClient_Configure impl (e # es) c =
     (case sunspec_client_child impl e c of Inl err \<Rightarrow> Inl err | Inr c' \<Rightarrow> SunSpecClient_Configure impl es c')"

text \<open>The scale factor the client looks up: the stored value of the point it names.\<close>

definition client_scaling :: "(string \<rightharpoonup> SSRegister) \<Rightarrow> SSRegister \<Rightarrow> float64 option" where
  "client_scaling pts r =
     (if ss_ScaleRegister r = [] then Some f64_zero else map_option ss_InternalValue (pts (ss_ScaleRegister r)))"

text \<open>The loop of process over the data of a model, in the order Go visits the map.\<close>

fun process_loop :: "go_impl \<Rightarrow> model_data \<Rightarrow> (string \<rightharpoonup> SSRegister) \<Rightarrow> Point list \<Rightarrow> (string \<rightharpoonup> SSRegister) \<times> Point list" where
  "process_loop impl [] pts acc = (pts, acc)"
| "process_loop impl ((name, reg) # data) pts acc =
     (let pts' = pts(name \<mapsto> reg)
      in if HasPrefix (ss_DataType reg) ''string'' \<or> ss_DataType reg \<in> set [''pad'', ''sunssf''] then process_loop impl data pts' acc
         else case client_scaling pts' reg of
                None \<Rightarrow> process_loop impl data pts' acc
              | Some scaling \<Rightarrow>
                  (case SS_Value impl reg (ss_Raw reg) scaling of
                     Inl err \<Rightarrow> process_loop impl data pts' acc
                   | Inr v \<Rightarrow> process_loop impl data pts' (acc @ [point name v])))"

definition process ::
  "go_impl \<Rightarrow> (model_data \<Rightarrow> model_data) \<Rightarrow> model_data \<Rightarrow> SunSpecClient \<Rightarrow> string option \<times> SunSpecClient" where
  "process impl visit data c =
     (case process_loop impl (visit data) (sc_points c) [] of (pts, points) \<Rightarrow>
        let c' = c\<lparr>sc_points := pts\<rparr>;
            points' = points @ [connected_point (sc_name c) (points \<noteq> [])]
        in case NewEnvelope (sc_name c) (C_Status \<lparr>Measurements = points'\<rparr>) of
             Inl err \<Rightarrow> (Some ''creating status message'', c')
           | Inr env \<Rightarrow>
               (case Push ''RUNTIME'' env (sc_pusher c') of
                  (None, p) \<Rightarrow> (None, c'\<lparr>sc_pusher := p\<rparr>)
                | (Some err, p) \<Rightarrow> (Some ''sending status message'', c'\<lparr>sc_pusher := p\<rparr>)))"

text \<open>The walk over the models: the error it ends with, if any. The fuel bounds the number of models.\<close>

definition add_settings :: "int \<Rightarrow> int \<Rightarrow> int \<Rightarrow> SunSpecClient \<Rightarrow> SunSpecClient" where
  "add_settings i a l c =
     c\<lparr>sc_models := \<lparr>md_Order = md_Order (sc_models c) @ [i],
        md_Settings = (md_Settings (sc_models c))(i \<mapsto> \<lparr>ms_Model = 0, ms_StartAddr = a, ms_Length = l\<rparr>)\<rparr>\<rparr>"

fun discover ::
  "go_impl \<Rightarrow> schemas \<Rightarrow> 'd sunspec_api \<Rightarrow> (model_data \<Rightarrow> model_data) \<Rightarrow> nat \<Rightarrow> int \<Rightarrow> bool \<Rightarrow> SunSpecClient \<Rightarrow> 'd
     \<Rightarrow> string option outcome \<times> SunSpecClient \<times> 'd" where
  "discover impl sch api visit 0 addr model1 c d = (Diverge, c, d)"
| "discover impl sch api visit (Suc n) addr model1 c d =
     (case nextModel impl api addr d of
        (Panic, d1) \<Rightarrow> (Panic, c, d1)
      | (Diverge, d1) \<Rightarrow> (Diverge, c, d1)
      | (Done (Inl err), d1) \<Rightarrow> (Done (Some ''getting next from SunSpec device''), c, d1)
      | (Done (Inr (i, l)), d1) \<Rightarrow>
          if \<not> model1 \<and> i \<noteq> 1 then (Done (Some ''remote SunSpec device missing required Model 1''), c, d1)
          else if i = f64_to_int impl True 64 (ss_InternalValue EndRegister) then (Done None, c, d1)
          else let a = addr + 2; c1 = add_settings i a l c
               in (case modelData sch api i a l d1 of
                     (Panic, d2) \<Rightarrow> (Panic, c1, d2)
                   | (Diverge, d2) \<Rightarrow> (Diverge, c1, d2)
                   | (Done (Inl err), d2) \<Rightarrow> (Done (Some ''reading Model data from SunSpec device''), c1, d2)
                   | (Done (Inr data), d2) \<Rightarrow>
                       (case process impl visit data c1 of
                          (Some err, c2) \<Rightarrow> (Done (Some ''processing Model data''), c2, d2)
                        | (None, c2) \<Rightarrow> discover impl sch api visit n (a + l) True c2 d2)))"

text \<open>The report of all points that Run prints: only its failures matter. A point the client does not have is
  a nil pointer.\<close>

fun report_points :: "go_impl \<Rightarrow> (string \<rightharpoonup> SSRegister) \<Rightarrow> nat \<Rightarrow> SchemaPoint list \<Rightarrow> string option outcome" where
  "report_points impl pts idx [] = Done None"
| "report_points impl pts idx (p # ps) =
     (if idx < 2 then report_points impl pts (Suc idx) ps
      else case pts (sp_name p) of
             None \<Rightarrow> Panic
           | Some r \<Rightarrow>
               if HasPrefix (ss_DataType r) ''string'' then
                 (case SS_String r (ss_Raw r) of
                    Inl err \<Rightarrow> Done (Some ''parsing string value for SunSpec point'')
                  | Inr _ \<Rightarrow> report_points impl pts (Suc idx) ps)
               else
                 (case client_scaling pts r of
                    None \<Rightarrow> report_points impl pts (Suc idx) ps
                  | Some scaling \<Rightarrow>
                      (case SS_Value impl r (ss_Raw r) scaling of
                         Inl err \<Rightarrow> Done (Some ''parsing value for SunSpec point'')
                       | Inr _ \<Rightarrow> report_points impl pts (Suc idx) ps)))"

fun report_models :: "go_impl \<Rightarrow> schemas \<Rightarrow> (string \<rightharpoonup> SSRegister) \<Rightarrow> int list \<Rightarrow> string option outcome" where
  "report_models impl sch pts [] = Done None"
| "report_models impl sch pts (i # is) =
     (case GetModelSchema sch i of
        Inl err \<Rightarrow> Done (Some ''getting schema for model'')
      | Inr m \<Rightarrow>
          (case report_points impl pts 0 (sj_points m) of
             Done None \<Rightarrow> report_models impl sch pts is
           | out \<Rightarrow> out))"

definition sunspec_client_endpoints :: "string \<Rightarrow> string \<Rightarrow> SunSpecClient \<Rightarrow> string \<times> string" where
  "sunspec_client_endpoints pubEndpoint pullEndpoint c =
     (if sc_pub_endpoint c \<noteq> [] then sc_pub_endpoint c else pubEndpoint,
      if sc_pull_endpoint c \<noteq> [] then sc_pull_endpoint c else pullEndpoint)"

definition SunSpecClient_Run ::
  "go_impl \<Rightarrow> schemas \<Rightarrow> 'd sunspec_api \<Rightarrow> (model_data \<Rightarrow> model_data) \<Rightarrow> nat \<Rightarrow> SunSpecClient \<Rightarrow> 'd
     \<Rightarrow> string option outcome \<times> SunSpecClient \<times> 'd" where
  "SunSpecClient_Run impl sch api visit fuel c d =
     (case confirmIdentifier impl api d of
        (Some err, d1) \<Rightarrow> (Done (Some ''confirming SunSpec identifier''), c, d1)
      | (None, d1) \<Rightarrow>
          (case discover impl sch api visit fuel 40002 False c d1 of
             (Done None, c2, d2) \<Rightarrow> (report_models impl sch (sc_points c2) (md_Order (sc_models c2)), c2, d2)
           | (out, c2, d2) \<Rightarrow> (out, c2, d2)))"

text \<open>A round of polling; the data of a model that could not be read are empty.\<close>

fun poll_models ::
  "go_impl \<Rightarrow> schemas \<Rightarrow> 'd sunspec_api \<Rightarrow> (model_data \<Rightarrow> model_data) \<Rightarrow> int list \<Rightarrow> SunSpecClient \<Rightarrow> 'd
     \<Rightarrow> (SunSpecClient \<times> 'd) outcome" where
  "poll_models impl sch api visit [] c d = Done (c, d)"
| "poll_models impl sch api visit (i # is) c d =
     (let ms = lookup0 \<lparr>ms_Model = 0, ms_StartAddr = 0, ms_Length = 0\<rparr> (md_Settings (sc_models c)) i
      in case modelData sch api i (ms_StartAddr ms) (ms_Length ms) d of
           (Panic, d1) \<Rightarrow> Panic
         | (Diverge, d1) \<Rightarrow> Diverge
         | (Done data, d1) \<Rightarrow>
             poll_models impl sch api visit is (snd (process impl visit (case data of Inl err \<Rightarrow> [] | Inr x \<Rightarrow> x) c)) d1)"

definition sunspec_poll ::
  "go_impl \<Rightarrow> schemas \<Rightarrow> 'd sunspec_api \<Rightarrow> (model_data \<Rightarrow> model_data) \<Rightarrow> SunSpecClient \<Rightarrow> 'd \<Rightarrow> (SunSpecClient \<times> 'd) outcome" where
  "sunspec_poll impl sch api visit c d = poll_models impl sch api visit (md_Order (sc_models c)) c d"

text \<open>Updates. The value is a number, which a string register refuses with a panic.\<close>

definition write_point :: "go_impl \<Rightarrow> 'd sunspec_api \<Rightarrow> (string \<rightharpoonup> SSRegister) \<Rightarrow> Point \<Rightarrow> 'd \<Rightarrow> 'd outcome" where
  "write_point impl api pts p d =
     (case pts (pt_tag p) of
        None \<Rightarrow> Done d
      | Some reg \<Rightarrow>
          if ss_Addr reg = 0 then Done d
          else case client_scaling pts reg of
                 None \<Rightarrow> Done d
               | Some scaling \<Rightarrow>
                   (case SS_Bytes impl reg (AnyFloat (pt_value p)) scaling of
                      Done data \<Rightarrow> Done (snd (SSWriteMultipleRegisters api (of_int (ss_Addr reg)) (of_int (ss_Count reg)) data d))
                    | Panic \<Rightarrow> Panic
                    | Diverge \<Rightarrow> Diverge))"

fun write_points :: "go_impl \<Rightarrow> 'd sunspec_api \<Rightarrow> (string \<rightharpoonup> SSRegister) \<Rightarrow> Point list \<Rightarrow> 'd \<Rightarrow> 'd outcome" where
  "write_points impl api pts [] d = Done d"
| "write_points impl api pts (p # ps) d =
     (case write_point impl api pts p d of Done d' \<Rightarrow> write_points impl api pts ps d' | out \<Rightarrow> out)"

definition sunspec_handleMsgBusUpdate ::
  "go_impl \<Rightarrow> 'd sunspec_api \<Rightarrow> Envelope \<Rightarrow> SunSpecClient \<Rightarrow> 'd \<Rightarrow> 'd outcome" where
  "sunspec_handleMsgBusUpdate impl api env c d =
     (if Sender env = sc_name c then Done d
      else case env_Update env of
             (update, Some err) \<Rightarrow> Done d
           | (update, None) \<Rightarrow> write_points impl api (sc_points c) (Updates update) d)"

end
