(* ===== verification/SunSpecLink.thy ===== *)
theory SunSpecLink
  imports SunSpecLayout SunSpecClient ModbusLink
begin

text \<open>
  A SunSpec client of this program talking to a SunSpec server of this program: the walk
  over the models finds exactly the models of the server's configuration. What the client
  then makes of the data, and where it writes, are properties of the client alone.
\<close>

section \<open>sunspec.go\<close>

datatype sunspec_module = SSServer SunSpecServer | SSClient SunSpecClient

definition NewSunSpecModule :: "Pusher \<Rightarrow> element \<Rightarrow> sunspec_module result" where
  "NewSunSpecModule p e =
     (let mode = map to_lower_char (SelectAttrValue e ''mode'' ''server'')
      in if mode = ''server'' then Inr (SSServer (NewSunSpecServer (SelectAttrValue e ''name'' ''sunspec-server'') p))
         else if mode = ''client'' then Inr (SSClient (NewSunSpecClient (SelectAttrValue e ''name'' ''sunspec-client'') p))
         else Inl ''unknown mode provided for SunSpec module'')"

section \<open>Registers of the client\<close>

text \<open>What the client knows of a point: a register that was never scaled, with the bytes read for it.\<close>

definition fresh_reg :: "SSRegister \<Rightarrow> bool" where
  "fresh_reg r \<longleftrightarrow>
     ss_ok r \<and> ss_InternalValue r = f64_zero \<and> ss_Scaling r = f64_zero \<and>
     (\<exists>raw. ss_Raw r = Some raw \<and> length raw = nat (2 * ss_Count r))"

lemma fresh_value:
  assumes "fresh_reg r" "\<not> string_type (ss_DataType r)" "ss_DataType r \<noteq> ''float32''"
  shows "\<exists>v. SS_Value impl r (ss_Raw r) f64_zero = Inr v \<and> f64_finite v"
proof -
  obtain raw where raw: "ss_Raw r = Some raw" "length raw = nat (2 * ss_Count r)"
    and ok: "map_of type_counts (ss_DataType r) = Some (ss_Count r)" and z: "ss_Scaling r = f64_zero"
    using assms(1) by (auto simp: fresh_reg_def ss_ok_def datatype_count_def)
  have f16: "f64_finite (f64_of_int (uint (w :: uint16)))" "f64_finite (f64_of_int (sint (w :: uint16)))" for w
    using unsigned_less [of w, where ?'a = int] sint_less [of w] sint_greater_eq [of w] by (auto intro!: f64_of_int_finite simp: abs_less_iff)
  have f32: "f64_finite (f64_of_int (uint (w :: uint32)))" "f64_finite (f64_of_int (sint (w :: uint32)))" for w
    using unsigned_less [of w, where ?'a = int] sint_less [of w] sint_greater_eq [of w] by (auto intro!: f64_of_int_finite simp: abs_less_iff)
  have f64: "f64_finite (f64_of_int (uint (w :: uint64)))" for w
    using unsigned_less [of w, where ?'a = int] by (auto intro!: f64_of_int_finite)
  note one = f64_mul_one [OF conjunct1 [OF f64_finite_not_special]]
  note long = u16.dec_iff_long_enough [of raw] u32.dec_iff_long_enough [of raw] u64.dec_iff_long_enough [of raw]
  from map_of_SomeD [OF ok] assms(2,3) raw(2) show ?thesis
    unfolding SS_Value_def raw(1) option.case Let_def type_counts_def list.set unscaled_power [OF z]
    by (elim insertE emptyE) (use long in \<open>auto simp: read_as_def f16 f32 f64 one\<close>)
qed

text \<open>The map of a model's data holds nothing but the registers that were put in.\<close>

lemma set_alist_update: "set (AList.update k v al) \<subseteq> insert (k, v) (set al)"
  by (induction al) auto

lemma remote_register_spec:
  assumes "remote_register m a pos p = Inr r"
  shows "ss_ok r" "ss_DataType r = point_datatype p" "ss_Name r = sp_name p" "ss_InternalValue r = f64_zero"
    "ss_Addr r = (if sp_access p = ''RW'' then a + pos else 0)" "\<nexists>i. sp_sf p = SfInt i \<Longrightarrow> ss_Scaling r = f64_zero"
    "sp_sf p = SfString n \<Longrightarrow> ss_ScaleRegister r = n"
proof -
  let ?r1 = "zero_register\<lparr>ss_DataType := point_datatype p, ss_Name := sp_name p, ss_Model := m,
      ss_Addr := (if sp_access p = ''RW'' then a + pos else 0)\<rparr>"
  have r1: "(if sp_access p = ''RW'' then r\<lparr>ss_Addr := a + pos\<rparr> else r) = r\<lparr>ss_Addr := (if sp_access p = ''RW'' then a + pos else 0)\<rparr>"
    if "ss_Addr r = 0" for r :: SSRegister using that by simp
  obtain r2 where r2: "SS_Init r2 = Inr r" and f: "ss_DataType r2 = point_datatype p \<and> ss_Name r2 = sp_name p \<and>
      ss_InternalValue r2 = f64_zero \<and> ss_Addr r2 = (if sp_access p = ''RW'' then a + pos else 0) \<and>
      ((\<nexists>i. sp_sf p = SfInt i) \<longrightarrow> ss_Scaling r2 = f64_zero) \<and> (\<forall>n. sp_sf p = SfString n \<longrightarrow> ss_ScaleRegister r2 = n)"
    using assms by (auto simp: remote_register_def zero_register_def Let_def split: sf.splits sum.splits if_splits)
  from SS_Init_ok [OF r2] obtain c where c: "ss_ok r" "r = r2\<lparr>ss_Count := c, ss_Scaling := f64_abs (ss_Scaling r2)\<rparr>" by blast
  show "ss_ok r" by (rule c)
  show "ss_DataType r = point_datatype p" "ss_Name r = sp_name p" "ss_InternalValue r = f64_zero"
    "ss_Addr r = (if sp_access p = ''RW'' then a + pos else 0)" "\<nexists>i. sp_sf p = SfInt i \<Longrightarrow> ss_Scaling r = f64_zero"
    "sp_sf p = SfString n \<Longrightarrow> ss_ScaleRegister r = n"
    using f unfolding c(2) by (auto simp: f64_abs_zero)
qed

lemma remote_register_succeeds:
  assumes "datatype_count (point_datatype p) \<noteq> None" "case sp_sf p of SfNil \<Rightarrow> True | SfString n \<Rightarrow> True | _ \<Rightarrow> False"
  shows "\<exists>r. remote_register m a pos p = Inr r"
  using assms by (auto simp: remote_register_def SS_Init_def zero_register_def Let_def split: sf.splits option.splits)

text \<open>The points of a published model, as the walk needs them.\<close>

abbreviation plain_point :: "SchemaPoint \<Rightarrow> bool" where
  "plain_point p \<equiv> datatype_count (point_datatype p) = Some (sp_size p) \<and>
     (case sp_sf p of SfNil \<Rightarrow> True | SfString n \<Rightarrow> True | _ \<Rightarrow> False)"

lemma data_loop_fresh:
  assumes "list_all2 (\<lambda>p x. int (length x) = 2 * sp_size p \<and> plain_point p) ps ds"
    and "visible d = pre @ concat ds" "pos = int (length pre)" "list_all (fresh_reg \<circ> snd) regs" "2 \<le> idx"
  shows "\<exists>regs'. data_loop m a d idx ps pos regs = Done (Inr regs') \<and> list_all (fresh_reg \<circ> snd) regs' \<and>
    (\<forall>(k, r) \<in> set regs'. (k, r) \<in> set regs \<or> ss_DataType r \<in> point_datatype ` set ps) \<and>
    fst ` set regs \<union> sp_name ` set ps \<subseteq> fst ` set regs'"
  using assms
proof (induction ps ds arbitrary: pre pos regs idx rule: list_all2_induct)
  case (Cons p ps x ds)
  obtain r where r: "remote_register m a pos p = Inr r" using remote_register_succeeds [of p] Cons.hyps(1) by fastforce
  note R = remote_register_spec [OF r]
  have len: "pos + sp_size p * 2 = int (length (pre @ x))" using Cons.hyps(1) Cons.prems(2) by simp
  have "slice_int d (int (length pre)) (int (length (pre @ x))) = Some x"
    using Cons.prems(1) by (simp add: slice_int_def slice_def nat_add_distrib)
  then have sl: "slice_int d pos (pos + sp_size p * 2) = Some x" unfolding len by (simp only: Cons.prems(2))
  have "\<nexists>i. sp_sf p = SfInt i" using Cons.hyps(1) by auto
  then have "fresh_reg (r\<lparr>ss_Raw := Some x\<rparr>)"
    using R Cons.hyps(1) by (auto simp: fresh_reg_def ss_ok_def)
  then have fresh: "list_all (fresh_reg \<circ> snd) (AList.update (ss_Name r) (r\<lparr>ss_Raw := Some x\<rparr>) regs)"
    using Cons.prems(3) set_alist_update [of "ss_Name r" "r\<lparr>ss_Raw := Some x\<rparr>" regs] by (auto simp: list_all_iff)
  have vis: "visible d = (pre @ x) @ concat ds" and idx: "2 \<le> Suc idx" using Cons.prems(1,4) by simp_all
  let ?regs = "AList.update (ss_Name r) (r\<lparr>ss_Raw := Some x\<rparr>) regs"
  from Cons.IH [OF vis len fresh idx] obtain regs' where
    l: "data_loop m a d (Suc idx) ps (pos + sp_size p * 2) ?regs = Done (Inr regs')" "list_all (fresh_reg \<circ> snd) regs'"
    "\<forall>(k, r') \<in> set regs'. (k, r') \<in> set ?regs \<or> ss_DataType r' \<in> point_datatype ` set ps"
    "fst ` set ?regs \<union> sp_name ` set ps \<subseteq> fst ` set regs'"
    by blast
  have "data_loop m a d idx (p # ps) pos regs = Done (Inr regs')" using l(1) idx r sl Cons.prems(4) by simp
  moreover have "(k, r') \<in> set regs \<or> ss_DataType r' \<in> point_datatype ` set (p # ps)" if "(k, r') \<in> set regs'" for k r'
  proof -
    from l(3) that have "(k, r') \<in> set ?regs \<or> ss_DataType r' \<in> point_datatype ` set ps" by blast
    then show ?thesis using set_alist_update [of "ss_Name r" "r\<lparr>ss_Raw := Some x\<rparr>" regs] R(2) by auto
  qed
  moreover have "fst ` set regs \<union> sp_name ` set (p # ps) \<subseteq> fst ` set regs'" using l(4) R(3) by (auto simp: dom_update)
  ultimately show ?case using l(2) by blast
qed auto

section \<open>Publishing the data of a model\<close>

lemma fresh_scaling:
  assumes "\<forall>k r. pts k = Some r \<longrightarrow> fresh_reg r" "client_scaling pts r = Some x"
  shows "x = f64_zero"
  using assms by (auto simp: client_scaling_def fresh_reg_def split: if_splits)

lemma process_loop_finite:
  assumes "list_all (\<lambda>(k, r). fresh_reg r \<and> ss_DataType r \<noteq> ''float32'') data" "\<forall>k r. pts k = Some r \<longrightarrow> fresh_reg r"
    and "points_finite acc" "process_loop impl data pts acc = (pts', acc')"
  shows "points_finite acc' \<and> (\<forall>k r. pts' k = Some r \<longrightarrow> fresh_reg r)"
  using assms
proof (induction data arbitrary: pts acc)
  case (Cons x data)
  obtain name reg where x: "x = (name, reg)" by fastforce
  let ?pts = "pts(name \<mapsto> reg)"
  have fr: "fresh_reg reg" "ss_DataType reg \<noteq> ''float32''" and pts: "\<forall>k r. ?pts k = Some r \<longrightarrow> fresh_reg r"
    and rest: "list_all (\<lambda>(k, r). fresh_reg r \<and> ss_DataType r \<noteq> ''float32'') data"
    using Cons.prems(1,2) x by auto
  show ?case
  proof (cases "HasPrefix (ss_DataType reg) ''string'' \<or> ss_DataType reg \<in> set [''pad'', ''sunssf''] \<or> client_scaling ?pts reg = None")
    case True
    then have "process_loop impl data ?pts acc = (pts', acc')" using Cons.prems(4) x by (auto simp: Let_def split: if_splits)
    then show ?thesis using Cons.IH [OF rest pts Cons.prems(3)] by blast
  next
    case False
    then have sc: "client_scaling ?pts reg = Some f64_zero" using fresh_scaling [OF pts] by fastforce
    have "\<not> string_type (ss_DataType reg)"
      using False fr(1) string_type_prefix by (auto simp: fresh_reg_def ss_ok_def)
    then obtain v where v: "SS_Value impl reg (ss_Raw reg) f64_zero = Inr v" "f64_finite v"
      using fresh_value [OF fr(1) _ fr(2)] by blast
    then have r: "process_loop impl data ?pts (acc @ [point name v]) = (pts', acc')"
      using Cons.prems(4) False sc x by (simp add: Let_def)
    have "points_finite (acc @ [point name v])" using Cons.prems(3) v(2) by (simp add: points_finite_def point_def)
    then show ?thesis using Cons.IH [OF rest pts _ r] by blast
  qed
qed auto

lemma process_loop_dom: "dom (fst (process_loop impl data pts acc)) = dom pts \<union> fst ` set data"
proof (induction data arbitrary: pts acc)
  case (Cons x data)
  obtain k r where x: "x = (k, r)" by fastforce
  have "\<exists>acc'. process_loop impl (x # data) pts acc = process_loop impl data (pts(k \<mapsto> r)) acc'"
    unfolding x by (simp add: Let_def split: option.split sum.split) blast
  then obtain acc' where acc': "process_loop impl (x # data) pts acc = process_loop impl data (pts(k \<mapsto> r)) acc'" ..
  show ?case unfolding acc' Cons.IH by (simp add: x insert_commute Un_insert_left)
qed simp

lemma process_succeeds:
  assumes "list_all (\<lambda>(k, r). fresh_reg r \<and> ss_DataType r \<noteq> ''float32'') data" "\<forall>k r. sc_points c k = Some r \<longrightarrow> fresh_reg r"
    and "set (visit data) = set data" "\<forall>n. sock (sc_pusher c) n"
  shows "\<exists>c'. process impl visit data c = (None, c') \<and> (\<forall>k r. sc_points c' k = Some r \<longrightarrow> fresh_reg r) \<and>
    sc_models c' = sc_models c \<and> sock (sc_pusher c') = sock (sc_pusher c) \<and> dom (sc_points c') = dom (sc_points c) \<union> fst ` set data"
proof -
  obtain pts ps where l: "process_loop impl (visit data) (sc_points c) [] = (pts, ps)" by fastforce
  have "list_all (\<lambda>(k, r). fresh_reg r \<and> ss_DataType r \<noteq> ''float32'') (visit data)" using assms(1,3) by (simp add: list_all_iff)
  then have fin: "points_finite ps" "\<forall>k r. pts k = Some r \<longrightarrow> fresh_reg r"
    using process_loop_finite [OF _ assms(2) _ l] by (auto simp: points_finite_def)
  then have "points_finite (ps @ [connected_point (sc_name c) (ps \<noteq> [])])"
    by (simp add: points_finite_def connected_point_def point_def f64_one_def f64_zero_def f64_finite_def f64_mag_def f64_inf_mag_def)
  then obtain env where env: "NewEnvelope (sc_name c) (C_Status \<lparr>Measurements = ps @ [connected_point (sc_name c) (ps \<noteq> [])]\<rparr>) = Inr env"
    using NewEnvelope_fails_iff(1) by fastforce
  have "dom pts = dom (sc_points c) \<union> fst ` set data"
    using process_loop_dom [of impl "visit data" "sc_points c" "[]"] l assms(3) by simp
  then show ?thesis
    using l env fin(2) assms(4) by (simp add: process_def Push_def SendMessage_def Let_def)
qed

section \<open>Reading from the server\<close>

text \<open>What is assumed of the Modbus library: it asks for 1 to 125 words and hands back the data of a successful
  reply of the length it asked for.\<close>

definition sunspec_carries :: "go_impl \<Rightarrow> (heap \<times> SunSpecServer) sunspec_api \<Rightarrow> bool" where
  "sunspec_carries impl api \<longleftrightarrow>
     (\<forall>a n st d. 1 \<le> unat n \<and> unat n \<le> 125 \<longrightarrow>
        sunspec_readHoldingRegisters impl (read_frame a n) st = Done (of_nat (length d) # d, Success) \<longrightarrow>
        length d = 2 * unat n \<longrightarrow>
        (\<exists>sp. SSReadHoldingRegisters api a n st = (Inr \<lparr>visible = d, spare = sp\<rparr>, st)))"

lemma client_reads:
  assumes "heap_ok h s" "sv_tags s [] = None" "sunspec_carries impl api" "0 \<le> a" "a < 65536" "1 \<le> n" "n \<le> 125"
    and "sunspec_tiles h s a (a + n) refs" "map (sunspec_sends impl h s) refs = map Done ds"
  shows "\<exists>sp. SSReadHoldingRegisters api (of_int a) (of_int n) (h, s) = (Inr \<lparr>visible = concat ds, spare = sp\<rparr>, (h, s))"
proof -
  let ?a = "of_int a :: uint16" and ?n = "of_int n :: uint16"
  have an: "uint ?a = a" "uint ?n = n" "unat ?n = nat n"
    using assms(4-7) by (simp_all add: unsigned_of_int take_bit_int_eq_self unat_eq_nat_uint)
  have req: "req_range (read_frame ?a ?n) = Some (a, n)" using frame_ranges(1) [of ?a ?n] an by simp
  have n0: "0 \<le> n" using assms(6) by simp
  note rd = sunspec_read_tiled [OF assms(1,2) req n0 assms(8,9)]
  have "int (length (concat ds)) = 2 * n" using rd(2) n0 by simp
  then have b: "(of_int (2 * n) :: byte) = of_nat (length (concat ds))" by (metis of_int_of_nat_eq)
  have "1 \<le> unat ?n \<and> unat ?n \<le> 125" "length (concat ds) = 2 * unat ?n" using an(3) assms(6,7) rd(2) by auto
  with assms(3) rd(1) b show ?thesis unfolding sunspec_carries_def by metis
qed

lemma sends_internal:
  assumes "sv_tags s [] = None" "ss_Tag (h ! ref) = []" "ss_ScaleRegister (h ! ref) = []"
    and "SS_Bytes impl (h ! ref) AnyNil f64_zero = Done d"
  shows "sunspec_sends impl h s ref = Done d"
  using assms by (simp add: sunspec_sends_def scaling_of_def tag_any_def)

lemma place_points_snd: "map snd (place_points a ps) = ps"
  by (induction ps arbitrary: a) simp_all

text \<open>The points of a model are sent one after the other.\<close>

lemma points_sent:
  assumes "heap_ok h s" "sv_tags s [] = None" "list_all (laid h s i m) (place_points a ps)"
    and "list_all (\<lambda>p. datatype_count (point_datatype p) = Some (sp_size p) \<and>
           (case sp_sf p of SfString n \<Rightarrow> sv_points s n \<noteq> None | _ \<Rightarrow> True)) ps"
  shows "\<exists>refs ds. sunspec_tiles h s a (a + sum_list (map sp_size ps)) refs \<and> map (sunspec_sends impl h s) refs = map Done ds \<and>
    list_all2 (\<lambda>p x. int (length x) = 2 * sp_size p) ps ds"
  using assms(3,4)
proof (induction ps arbitrary: a)
  case (Cons p ps)
  from Cons.IH [of "a + sp_size p"] Cons.prems obtain refs ds where IH:
    "sunspec_tiles h s (a + sp_size p + 0) (a + sp_size p + sum_list (map sp_size ps)) refs"
    "map (sunspec_sends impl h s) refs = map Done ds" "list_all2 (\<lambda>p x. int (length x) = 2 * sp_size p) ps ds" by auto
  obtain ref where ref: "sv_registers s a = Some ref" "ref < length h" "is_point i m p (h ! ref)"
    using Cons.prems(1) by (auto simp: laid_def)
  have cnt: "ss_Count (h ! ref) = sp_size p" using ref(3) Cons.prems(2) by (auto simp: is_point_def ss_ok_def)
  have sz: "1 \<le> sp_size p" using Cons.prems(2) datatype_count_bounds by auto
  have nn: "0 \<le> sum_list (map sp_size ps)" by (rule sum_sizes_nonneg, rule datatype_sizes) (use Cons.prems(2) in \<open>auto simp: list_all_iff\<close>)
  have "ss_ScaleRegister (h ! ref) = [] \<or> sv_points s (ss_ScaleRegister (h ! ref)) \<noteq> None"
    using ref(3) Cons.prems(2) by (cases "sp_sf p") (auto simp: is_point_def)
  then obtain x where x: "scaling_of h s (h ! ref) = Some x"
    by (cases "ss_ScaleRegister (h ! ref) = []") (auto simp: scaling_of_def)
  obtain d where d: "SS_Bytes impl (h ! ref) (tag_any s (h ! ref)) x = Done d" "length d = nat (2 * sp_size p)"
    using register_bytes [OF assms(1) ref(2) assms(2)] cnt by metis
  have "sunspec_sends impl h s ref = Done d" using x d(1) by (simp add: sunspec_sends_def)
  with IH ref(1) cnt sz nn d(2) show ?case
    by (intro exI [of _ "ref # refs"] exI [of _ "d # ds"]) (simp add: add.assoc)
qed simp

text \<open>The header of a model, or of the end marker, is what the client takes it for.\<close>

lemma header_read:
  assumes "SSReadHoldingRegisters api (of_int a) 2 d = (Inr \<lparr>visible = put16 (of_int i) @ put16 (of_int l), spare = sp\<rparr>, d')"
    and "0 \<le> i" "i < 65536" "0 \<le> l" "l < 65536"
  shows "nextModel impl api a d = (Done (Inr (i, l)), d')"
proof -
  have g: "ss_DataType generic_register = ''uint16''" "ss_Scaling generic_register = f64_zero"
    by (simp_all add: generic_register_def zero_register_def)
  have "f64_to_int impl True 64 (f64_of_int k) = k" if "0 \<le> k" "k < 65536" for k
    using that by (intro f64_to_int_of_int) (simp_all add: int_fits_def)
  then show ?thesis
    using assms SS_uint16(2) [OF g, of _ impl] by (simp add: nextModel_def slice_def)
qed

lemma two_words_read:
  assumes "heap_ok h s" "sv_tags s [] = None" "sunspec_carries impl api" "0 \<le> a" "a < 65536"
    and regs: "sv_registers s a = Some r1" "sv_registers s (a + 1) = Some r2" "ss_Count (h ! r1) = 1" "ss_Count (h ! r2) = 1"
    and sends: "sunspec_sends impl h s r1 = Done (put16 (of_int i))" "sunspec_sends impl h s r2 = Done (put16 (of_int l))"
    and range: "0 \<le> i" "i < 65536" "0 \<le> l" "l < 65536"
  shows "nextModel impl api a (h, s) = (Done (Inr (i, l)), (h, s))"
proof -
  have "sunspec_tiles h s a (a + 2) [r1, r2]" using regs by (simp add: add.commute)
  from client_reads [OF assms(1-5) _ _ this, of "[put16 (of_int i), put16 (of_int l)]"] sends
  obtain sp where "SSReadHoldingRegisters api (of_int a) 2 (h, s) = (Inr \<lparr>visible = put16 (of_int i) @ put16 (of_int l), spare = sp\<rparr>, (h, s))"
    by auto
  from header_read [OF this range] show ?thesis .
qed

lemma model_header:
  assumes "heap_ok h s" "sv_tags s [] = None" "sunspec_carries impl api" "0 \<le> a" "a < 65536"
    and "laid_model h s (a, i, m)" "schema_ok m" "0 \<le> i" "i < 65536" "GetModelLength m < 65536"
  shows "nextModel impl api a (h, s) = (Done (Inr (i, GetModelLength m)), (h, s))"
proof -
  obtain p q ps where ps: "sj_points m = p # q # ps" using assms(7) by (auto simp: schema_ok_def split: list.splits)
  have pq: "sp_name p = ''ID''" "sp_type p = ''uint16''" "sp_sf p = SfNil" "sp_name q = ''L''" "sp_type q = ''uint16''" "sp_sf q = SfNil"
    "sp_size p = 1" "sp_size q = 1"
    using assms(7) ps by (auto simp: schema_ok_def point_datatype_def datatype_count_def type_counts_def)
  have "laid h s i m (a, p)" "laid h s i m (a + 1, q)"
    using assms(6) ps pq by (simp_all add: laid_model_def)
  then obtain r1 r2 where r: "sv_registers s a = Some r1" "is_point i m p (h ! r1)" "sv_registers s (a + 1) = Some r2" "is_point i m q (h ! r2)"
    by (auto simp: laid_def)
  have len: "0 \<le> GetModelLength m"
    unfolding GetModelLength_sum using schema_sizes [OF assms(7)] by (intro sum_sizes_nonneg) (simp add: ps)
  have d: "ss_DataType (h ! r1) = ''uint16''" "ss_DataType (h ! r2) = ''uint16''"
    using r(2,4) pq by (simp_all add: is_point_def point_datatype_def)
  have one: "datatype_count ''uint16'' = Some 1" by (simp add: datatype_count_def type_counts_def)
  have "ss_ok (h ! r1)" "ss_ok (h ! r2)" using r(2,4) by (simp_all add: is_point_def)
  then have "ss_Count (h ! r1) = 1" "ss_Count (h ! r2) = 1" unfolding ss_ok_def d one by simp_all
  moreover have "sunspec_sends impl h s r1 = Done (put16 (of_int i))"
    by (rule sends_internal [OF assms(2)]) (use r(2) pq d SS_uint16(1) [of "h ! r1" i impl] assms(8,9) in \<open>auto simp: is_point_def\<close>)
  moreover have "sunspec_sends impl h s r2 = Done (put16 (of_int (GetModelLength m)))"
    by (rule sends_internal [OF assms(2)])
      (use r(4) pq d SS_uint16(1) [of "h ! r2" "GetModelLength m" impl] assms(10) len in \<open>auto simp: is_point_def\<close>)
  ultimately show ?thesis using two_words_read [OF assms(1-5) r(1,3)] assms(8-10) len by blast
qed

lemma end_header:
  assumes "heap_ok h s" "sv_tags s [] = None" "sunspec_carries impl api" "0 \<le> a" "a < 65536"
    and "sv_registers s a = Some 1" "sv_registers s (a + 1) = Some 2" "take 3 h = package_heap"
  shows "nextModel impl api a (h, s) = (Done (Inr (65535, 0)), (h, s))"
proof -
  have "h ! 1 = take 3 h ! 1" "h ! 2 = take 3 h ! 2" by simp_all
  then have h: "h ! 1 = EndRegister" "h ! 2 = EndRegisterLength" unfolding assms(8) by (simp_all add: package_heap_def)
  note h1 = h(1) [unfolded One_nat_def]
  have z: "f64_zero = f64_of_int 0" by (simp add: f64_of_int_def f64_pack_0 f64_zero_def f64_make_def)
  have "sunspec_sends impl h s 1 = Done (put16 (of_int 65535))"
    by (rule sends_internal [OF assms(2)])
      (use SS_uint16(1) [of EndRegister 65535 impl] in \<open>auto simp: h1 EndRegister_def zero_register_def\<close>)
  moreover have "sunspec_sends impl h s 2 = Done (put16 (of_int 0))"
    by (rule sends_internal [OF assms(2)])
      (use SS_uint16(1) [of EndRegisterLength 0 impl] z in \<open>auto simp: h EndRegisterLength_def zero_register_def\<close>)
  ultimately show ?thesis
    using two_words_read [OF assms(1-7)] by (simp add: h h1 EndRegister_def EndRegisterLength_def)
qed

lemma model_data_read:
  assumes "heap_ok h s" "sv_tags s [] = None" "sunspec_carries impl api" "0 \<le> a" "a + 2 < 65536"
    and "laid_model h s (a, i, m)" "schema_ok m" "sch i = Some m" "1 \<le> GetModelLength m" "GetModelLength m \<le> 125"
    and "list_all (\<lambda>p. point_datatype p \<noteq> ''float32'') (sj_points m)"
  shows "\<exists>data. modelData sch api i (a + 2) (GetModelLength m) (h, s) = (Done (Inr data), (h, s)) \<and>
    list_all (\<lambda>(k, r). fresh_reg r \<and> ss_DataType r \<noteq> ''float32'') data \<and>
    sp_name ` set (drop 2 (sj_points m)) \<subseteq> fst ` set data"
proof -
  obtain p q ps where ps: "sj_points m = p # q # ps" using assms(7) by (auto simp: schema_ok_def split: list.splits)
  have pq: "sp_size p = 1" "sp_size q = 1"
    using assms(7) ps by (auto simp: schema_ok_def point_datatype_def datatype_count_def type_counts_def)
  have len: "GetModelLength m = sum_list (map sp_size ps)" by (simp add: GetModelLength_sum ps)
  have laid: "list_all (laid h s i m) (place_points a (sj_points m))" using assms(6) by (simp add: laid_model_def)
  have "sv_points s (sp_name x) \<noteq> None" if "x \<in> set (sj_points m)" for x
  proof -
    from that have "x \<in> set (map snd (place_points a (sj_points m)))" unfolding place_points_snd .
    then show ?thesis using laid by (auto simp: laid_def list_all_iff)
  qed
  then have names: "sv_points s n \<noteq> None" if "n \<in> set (map sp_name (sj_points m))" for n using that by auto
  have plain: "list_all plain_point ps"
    using assms(7) ps by (auto simp: schema_ok_def list_all_iff split: sf.splits)
  have "list_all (\<lambda>p. datatype_count (point_datatype p) = Some (sp_size p) \<and>
      (case sp_sf p of SfString n \<Rightarrow> sv_points s n \<noteq> None | _ \<Rightarrow> True)) ps"
    using assms(7) names ps by (auto simp: schema_ok_def list_all_iff split: sf.splits)
  moreover have "list_all (laid h s i m) (place_points (a + 2) ps)" using laid pq ps by (simp add: add.commute)
  ultimately obtain refs ds where t:
    "sunspec_tiles h s (a + 2) (a + 2 + GetModelLength m) refs" "map (sunspec_sends impl h s) refs = map Done ds"
    "list_all2 (\<lambda>p x. int (length x) = 2 * sp_size p) ps ds" using points_sent [OF assms(1,2)] unfolding len by blast
  from client_reads [OF assms(1-3) _ assms(5,9,10) t(1,2)] assms(4) obtain sp where
    rd: "SSReadHoldingRegisters api (of_int (a + 2)) (of_int (GetModelLength m)) (h, s) = (Inr \<lparr>visible = concat ds, spare = sp\<rparr>, (h, s))"
    by auto
  have "list_all2 (\<lambda>p x. int (length x) = 2 * sp_size p \<and> plain_point p) ps ds"
    using t(3) plain by (auto simp: list_all2_conv_all_nth list_all_length)
  from data_loop_fresh [OF this, of "\<lparr>visible = concat ds, spare = sp\<rparr>" "[]" 0 "[]" 2 i "a + 2"] obtain data where data:
    "data_loop i (a + 2) \<lparr>visible = concat ds, spare = sp\<rparr> 2 ps 0 [] = Done (Inr data)" "list_all (fresh_reg \<circ> snd) data"
    "\<forall>(k, r) \<in> set data. ss_DataType r \<in> point_datatype ` set ps" "sp_name ` set ps \<subseteq> fst ` set data" by auto
  have "modelData sch api i (a + 2) (GetModelLength m) (h, s) = (Done (Inr data), (h, s))"
    using rd data(1) assms(8) ps by (simp add: modelData_def GetModelSchema_def eval_nat_numeral)
  moreover have "list_all (\<lambda>(k, r). fresh_reg r \<and> ss_DataType r \<noteq> ''float32'') data"
    using data(2,3) assms(11) ps by (auto simp: list_all_iff)
  ultimately show ?thesis using data(4) ps by auto
qed

section \<open>The walk\<close>

abbreviation settings_of :: "int \<Rightarrow> SchemaJson \<Rightarrow> ModelSettings" where
  "settings_of a m \<equiv> \<lparr>ms_Model = 0, ms_StartAddr = a + 2, ms_Length = GetModelLength m\<rparr>"

definition file_settings :: "(int \<rightharpoonup> ModelSettings) \<Rightarrow> int \<times> int \<times> SchemaJson \<Rightarrow> int \<rightharpoonup> ModelSettings" where
  "file_settings f x = (case x of (a, i, m) \<Rightarrow> f(i \<mapsto> settings_of a m))"

lemma file_settings_apply: "file_settings f (a, i, m) = f(i \<mapsto> settings_of a m)"
  by (simp add: file_settings_def)

text \<open>What the walk asks of a model: its number is no end marker, and its data fit a reply and the bus.\<close>

definition walkable :: "schemas \<Rightarrow> int \<times> SchemaJson \<Rightarrow> bool" where
  "walkable sch x \<longleftrightarrow>
     (case x of (i, m) \<Rightarrow>
        schema_ok m \<and> sch i = Some m \<and> 1 \<le> i \<and> i < 65535 \<and> 1 \<le> GetModelLength m \<and> GetModelLength m \<le> 125 \<and>
        list_all (\<lambda>p. point_datatype p \<noteq> ''float32'') (sj_points m))"

lemma schema_total: "schema_ok m \<Longrightarrow> model_total m = 2 + GetModelLength m"
  unfolding schema_ok_def model_total_def GetModelLength_sum
  by (auto simp: point_datatype_def datatype_count_def type_counts_def split: list.splits)

lemma place_models_ids: "map (fst \<circ> snd) (place_models a ms) = map fst ms"
  by (induction a ms rule: place_models.induct) simp_all

lemma settings_found:
  assumes "distinct (map fst ms)" "(b, i, m) \<in> set (place_models a ms)"
  shows "foldl file_settings f (place_models a ms) i = Some (settings_of b m)"
  using assms
proof (induction ms arbitrary: a rule: rev_induct)
  case (snoc x ms)
  obtain j k where x: "x = (j, k)" by fastforce
  have p: "place_models a (ms @ [x]) = place_models a ms @ [(a + models_total ms, j, k)]"
    by (simp add: x place_models_append)
  have "fst ` set ms = (fst \<circ> snd) ` set (place_models a ms)" using place_models_ids [of a ms] by (metis list.set_map)
  then have "(b, i, m) \<in> set (place_models a ms) \<Longrightarrow> i \<noteq> j" using snoc.prems(1) x by force
  then show ?case using snoc.IH [of a] snoc.prems p by (auto simp: file_settings_def)
qed simp

lemma end_model_id: "f64_to_int impl True 64 (ss_InternalValue EndRegister) = 65535"
  by (simp add: EndRegister_def f64_to_int_of_int int_fits_def)

text \<open>One round of the walk: the client has the settings of the model and all of its points.\<close>

lemma discover_step:
  assumes "heap_ok h s" "sv_tags s [] = None" "sunspec_carries impl api" "\<And>data. set (visit data) = set data"
    and "laid_model h s (a, i, m)" "walkable sch (i, m)" "0 \<le> a" "a + 2 < 65536" "model1 \<or> i = 1"
    and "\<forall>k r. sc_points c k = Some r \<longrightarrow> fresh_reg r" "\<forall>n. sock (sc_pusher c) n"
  shows "\<exists>c2. discover impl sch api visit (Suc n) a model1 c (h, s) = discover impl sch api visit n (a + 2 + GetModelLength m) True c2 (h, s) \<and>
    (\<forall>k r. sc_points c2 k = Some r \<longrightarrow> fresh_reg r) \<and> sc_models c2 = sc_models (add_settings i (a + 2) (GetModelLength m) c) \<and>
    sock (sc_pusher c2) = sock (sc_pusher c) \<and> dom (sc_points c) \<subseteq> dom (sc_points c2) \<and>
    sp_name ` set (drop 2 (sj_points m)) \<subseteq> dom (sc_points c2)"
proof -
  have w: "schema_ok m" "sch i = Some m" "1 \<le> i" "i < 65535" "1 \<le> GetModelLength m" "GetModelLength m \<le> 125"
    "list_all (\<lambda>p. point_datatype p \<noteq> ''float32'') (sj_points m)"
    using assms(6) by (simp_all add: walkable_def)
  have hd: "nextModel impl api a (h, s) = (Done (Inr (i, GetModelLength m)), (h, s))"
    by (rule model_header [OF assms(1-3) assms(7) _ assms(5) w(1)]) (use assms(8) w in auto)
  obtain data where d: "modelData sch api i (a + 2) (GetModelLength m) (h, s) = (Done (Inr data), (h, s))"
    "list_all (\<lambda>(k, r). fresh_reg r \<and> ss_DataType r \<noteq> ''float32'') data" "sp_name ` set (drop 2 (sj_points m)) \<subseteq> fst ` set data"
    using model_data_read [where sch = sch and i = i and m = m, OF assms(1-3) assms(7) assms(8) assms(5) w(1,2,5,6,7)] by blast
  let ?c1 = "add_settings i (a + 2) (GetModelLength m) c"
  obtain c2 where c2: "process impl visit data ?c1 = (None, c2)" "\<forall>k r. sc_points c2 k = Some r \<longrightarrow> fresh_reg r"
    "sc_models c2 = sc_models ?c1" "sock (sc_pusher c2) = sock (sc_pusher c)" "dom (sc_points c2) = dom (sc_points c) \<union> fst ` set data"
    using process_succeeds [OF d(2), of ?c1 visit impl] assms(10,11,4) by (auto simp: add_settings_def)
  have "discover impl sch api visit (Suc n) a model1 c (h, s) = discover impl sch api visit n (a + 2 + GetModelLength m) True c2 (h, s)"
    using hd end_model_id [of impl] d(1) c2(1) w(4) assms(9) by (auto simp: Let_def)
  moreover have "sp_name ` set (drop 2 (sj_points m)) \<subseteq> dom (sc_points c2)" using d(3) unfolding c2(5) by blast
  ultimately show ?thesis using c2(2-5) by (intro exI [of _ c2]) simp
qed

lemma discover_finds:
  assumes "heap_ok h s" "sv_tags s [] = None" "sunspec_carries impl api" "\<And>data. set (visit data) = set data"
    and "take 3 h = package_heap" "sv_registers s stop = Some 1" "sv_registers s (stop + 1) = Some 2" "stop < 65536"
    and "list_all (laid_model h s) (place_models a ms)" "stop = a + models_total ms" "list_all (walkable sch) ms" "0 \<le> a"
    and "model1 \<or> (\<exists>m ms'. ms = (1, m) # ms')" "length ms < n"
    and "\<forall>k r. sc_points c k = Some r \<longrightarrow> fresh_reg r" "\<forall>n. sock (sc_pusher c) n"
  shows "\<exists>c'. discover impl sch api visit n a model1 c (h, s) = (Done None, c', (h, s)) \<and>
    md_Order (sc_models c') = md_Order (sc_models c) @ map fst ms \<and>
    md_Settings (sc_models c') = foldl file_settings (md_Settings (sc_models c)) (place_models a ms) \<and>
    (\<forall>k r. sc_points c' k = Some r \<longrightarrow> fresh_reg r) \<and> dom (sc_points c) \<subseteq> dom (sc_points c') \<and>
    (\<forall>(i, m) \<in> set ms. sp_name ` set (drop 2 (sj_points m)) \<subseteq> dom (sc_points c'))"
  using assms(9-16)
proof (induction ms arbitrary: a model1 n c)
  case Nil
  then obtain k where n: "n = Suc k" by (cases n) auto
  have "nextModel impl api a (h, s) = (Done (Inr (65535, 0)), (h, s))"
    using end_header [OF assms(1-3) _ assms(8,6,7,5)] Nil by (simp add: models_total_simps)
  then show ?case using Nil n end_model_id [of impl] by (auto intro!: exI [of _ c])
next
  case (Cons x ms)
  obtain i m where x: "x = (i, m)" by fastforce
  obtain k where n: "n = Suc k" using Cons.prems(6) by (cases n) auto
  have w: "walkable sch (i, m)" "schema_ok m" "1 \<le> GetModelLength m" using Cons.prems(3) by (simp_all add: x walkable_def)
  have ok: "list_all (schema_ok \<circ> snd) ms" using Cons.prems(3) by (auto simp: list_all_iff walkable_def)
  have a: "a + 2 + GetModelLength m + models_total ms = stop" "a + model_total m = a + 2 + GetModelLength m" "a + 2 < 65536"
    using Cons.prems(2) models_total_nonneg [OF ok] assms(8) w(3) by (simp_all add: x models_total_simps schema_total [OF w(2)])
  have laid: "laid_model h s (a, i, m)" "list_all (laid_model h s) (place_models (a + 2 + GetModelLength m) ms)"
    using Cons.prems(1) a(2) by (simp_all add: x)
  have "model1 \<or> i = 1" using Cons.prems(5) by (auto simp: x)
  from discover_step [OF assms(1-4) laid(1) w(1) Cons.prems(4) a(3) this Cons.prems(7,8)] obtain c2 where c2:
    "discover impl sch api visit n a model1 c (h, s) = discover impl sch api visit k (a + 2 + GetModelLength m) True c2 (h, s)"
    "\<forall>k r. sc_points c2 k = Some r \<longrightarrow> fresh_reg r" "sc_models c2 = sc_models (add_settings i (a + 2) (GetModelLength m) c)"
    "sock (sc_pusher c2) = sock (sc_pusher c)" "dom (sc_points c) \<subseteq> dom (sc_points c2)"
    "sp_name ` set (drop 2 (sj_points m)) \<subseteq> dom (sc_points c2)"
    unfolding n by blast
  have "0 \<le> a + 2 + GetModelLength m" "length ms < k" "\<forall>n. sock (sc_pusher c2) n" "list_all (walkable sch) ms"
    using Cons.prems(3,4,6,8) w(3) n c2(4) by auto
  from Cons.IH [OF laid(2) a(1) [symmetric] this(4,1) disjI1 [OF TrueI] this(2) c2(2) this(3)] obtain c' where IH:
    "discover impl sch api visit k (a + 2 + GetModelLength m) True c2 (h, s) = (Done None, c', (h, s))"
    "md_Order (sc_models c') = md_Order (sc_models c2) @ map fst ms"
    "md_Settings (sc_models c') = foldl file_settings (md_Settings (sc_models c2)) (place_models (a + 2 + GetModelLength m) ms)"
    "\<forall>k r. sc_points c' k = Some r \<longrightarrow> fresh_reg r" "dom (sc_points c2) \<subseteq> dom (sc_points c')"
    "\<forall>(i, m) \<in> set ms. sp_name ` set (drop 2 (sj_points m)) \<subseteq> dom (sc_points c')" by blast
  note order_trans [OF c2(5) IH(5)] order_trans [OF c2(6) IH(5)]
  moreover have "place_models a (x # ms) = (a, i, m) # place_models (a + 2 + GetModelLength m) ms" using a(2) by (simp add: x add.assoc)
  ultimately show ?case
    using IH(1-4,6) c2(1) by (intro exI [of _ c']) (simp add: c2(3) add_settings_def x file_settings_apply)
qed

text \<open>The report that Run prints does not fail on points that were read.\<close>

lemma fresh_report:
  assumes "\<forall>k r. pts k = Some r \<longrightarrow> fresh_reg r" "sp_name ` set (drop (2 - idx) ps) \<subseteq> dom pts"
  shows "report_points impl pts idx ps = Done None"
  using assms(2)
proof (induction ps arbitrary: idx)
  case (Cons p ps)
  show ?case
  proof (cases "idx < 2")
    case True
    then have "2 - idx = Suc (2 - Suc idx)" by simp
    with True Cons show ?thesis by simp
  next
    case False
    then obtain r where r: "pts (sp_name p) = Some r" using Cons.prems by auto
    then have fr: "fresh_reg r" using assms(1) by blast
    then obtain raw where raw: "ss_Raw r = Some raw" "nat (2 * ss_Count r) \<le> length raw"
      and t: "datatype_count (ss_DataType r) = Some (ss_Count r)" by (auto simp: fresh_reg_def ss_ok_def)
    have rec: "report_points impl pts (Suc idx) ps = Done None" using Cons False by simp
    show ?thesis
    proof (cases "string_type (ss_DataType r)")
      case True
      then show ?thesis using False r rec raw string_type_prefix [OF t] by (simp add: SS_String_def)
    next
      case str: False
      show ?thesis
      proof (cases "client_scaling pts r")
        case (Some x)
        obtain v where "SS_Value impl r (Some raw) x = Inr v" using SS_Value_numeric [OF t str raw(2)] by blast
        then show ?thesis using Some False r rec raw string_type_prefix [OF t] str by simp
      qed (use False r rec string_type_prefix [OF t] str in simp)
    qed
  qed
qed simp

lemma fresh_reports:
  assumes "\<forall>k r. pts k = Some r \<longrightarrow> fresh_reg r"
    and "\<forall>(i, m) \<in> set ms. sch i = Some m \<and> sp_name ` set (drop 2 (sj_points m)) \<subseteq> dom pts"
  shows "report_models impl sch pts (map fst ms) = Done None"
  using assms(2)
proof (induction ms)
  case (Cons x ms)
  obtain i m where x: "x = (i, m)" by fastforce
  have "report_points impl pts 0 (sj_points m) = Done None"
    using fresh_report [OF assms(1), of 0 "sj_points m"] Cons.prems by (simp add: x)
  with Cons show ?case by (simp add: x GetModelSchema_def)
qed simp

lemma identifier_confirmed:
  assumes "heap_ok h s" "sv_tags s [] = None" "sunspec_carries impl api" "sv_registers s 40000 = Some 0" "take 3 h = package_heap"
  shows "confirmIdentifier impl api (h, s) = (None, (h, s))"
proof -
  have "h ! 0 = take 3 h ! 0" by simp
  then have h: "h ! 0 = IdentifierRegister" unfolding assms(5) by (simp add: package_heap_def)
  have id: "ss_DataType IdentifierRegister = ''uint32''" "ss_Scaling IdentifierRegister = f64_zero" "ss_Count IdentifierRegister = 2"
    "ss_InternalValue IdentifierRegister = f64_of_int 1400204883" "ss_Tag IdentifierRegister = []" "ss_ScaleRegister IdentifierRegister = []"
    by (simp_all add: IdentifierRegister_def zero_register_def SunSpecIdentifier_def)
  note u = SS_uint32 [OF id(1,2), of 1400204883 impl]
  have "sunspec_sends impl h s 0 = Done (put32 (of_int 1400204883))"
    by (rule sends_internal [OF assms(2)]) (use u(1) id in \<open>simp_all add: h\<close>)
  then obtain sp where "SSReadHoldingRegisters api 40000 2 (h, s) = (Inr \<lparr>visible = put32 (of_int 1400204883), spare = sp\<rparr>, (h, s))"
    using client_reads [OF assms(1-3), of 40000 2 "[0]" "[put32 (of_int 1400204883)]"] assms(4) id(3) by (auto simp: h)
  moreover have "f64_eq SunSpecIdentifier SunSpecIdentifier"
    using f64_finite_not_special [OF f64_of_int_exact(2) [of 1400204883]] by (simp add: SunSpecIdentifier_def f64_eq_def)
  ultimately show ?thesis using u(2) id(3) by (simp add: confirmIdentifier_def SunSpecIdentifier_def)
qed

text \<open>C8: a SunSpec client discovers exactly the models a SunSpec server was configured with. When the server's
  configuration starts with model 1 and the library carries the reads, the client's Run confirms the identifier,
  walks from header to header to the end marker and succeeds: it has the models in the configured order with their
  addresses and lengths, and a register with the bytes read for every one of their points.\<close>

theorem sunspec_discovery:
  assumes "SunSpec_Configure sch es (package_heap, NewSunSpecServer n p) = Inr (h, s)" "list_all settings_ok es"
    and "config_models sch es = (1, m1) # ms" "list_all (walkable sch) ((1, m1) # ms)" "40002 + models_total ((1, m1) # ms) < 65536"
    and "sunspec_carries impl api" "\<And>data. set (visit data) = set data" "\<forall>n. sock p' n" "length ms + 1 < fuel"
  shows "\<exists>c'. SunSpecClient_Run impl sch api visit fuel (NewSunSpecClient n' p') (h, s) = (Done None, c', (h, s)) \<and>
    md_Order (sc_models c') = 1 # map fst ms \<and>
    (distinct (map fst ((1, m1) # ms)) \<longrightarrow>
       (\<forall>(a, i, m) \<in> set (place_models 40002 ((1, m1) # ms)). md_Settings (sc_models c') i = Some (settings_of a m))) \<and>
    (\<forall>(i, m) \<in> set ((1, m1) # ms). \<forall>q \<in> set (drop 2 (sj_points m)). \<exists>r raw. sc_points c' (sp_name q) = Some r \<and> ss_Raw r = Some raw)"
proof -
  let ?ms = "(1, m1) # ms" and ?c = "NewSunSpecClient n' p'"
  have ok: "list_all (schema_ok \<circ> snd) (config_models sch es)" using assms(3,4) by (auto simp: list_all_iff walkable_def)
  note L = configured_layout [OF assms(1,2) ok, unfolded assms(3)]
  have c: "\<forall>k r. sc_points ?c k = Some r \<longrightarrow> fresh_reg r" "\<forall>n. sock (sc_pusher ?c) n" "sc_models ?c = \<lparr>md_Order = [], md_Settings = Map.empty\<rparr>"
    using assms(8) by (simp_all add: NewSunSpecClient_def)
  obtain c' where D: "discover impl sch api visit fuel 40002 False ?c (h, s) = (Done None, c', (h, s))"
    "md_Order (sc_models c') = map fst ?ms"
    "md_Settings (sc_models c') = foldl file_settings Map.empty (place_models 40002 ?ms)"
    "\<forall>k r. sc_points c' k = Some r \<longrightarrow> fresh_reg r" "\<forall>(i, m) \<in> set ?ms. sp_name ` set (drop 2 (sj_points m)) \<subseteq> dom (sc_points c')"
    using discover_finds [OF L(1,4) assms(6,7) L(3,6,7) assms(5) L(5) refl assms(4) _ _ _ c(1,2), of False fuel] assms(9) c(3)
    by auto
  have sch: "\<forall>(i, m) \<in> set ?ms. sch i = Some m \<and> sp_name ` set (drop 2 (sj_points m)) \<subseteq> dom (sc_points c')"
  proof clarify
    fix i m assume im: "(i, m) \<in> set ?ms"
    have "walkable sch (i, m)" using assms(4) im unfolding list_all_iff by blast
    moreover have "sp_name ` set (drop 2 (sj_points m)) \<subseteq> dom (sc_points c')" using D(5) im by blast
    ultimately show "sch i = Some m \<and> sp_name ` set (drop 2 (sj_points m)) \<subseteq> dom (sc_points c')" by (simp add: walkable_def)
  qed
  have run: "SunSpecClient_Run impl sch api visit fuel ?c (h, s) = (Done None, c', (h, s))"
    using identifier_confirmed [OF L(1,4) assms(6) L(2,3)] D(1,2) fresh_reports [OF D(4) sch] by (simp add: SunSpecClient_Run_def)
  have st: "md_Settings (sc_models c') i = Some (settings_of a m)"
    if "distinct (map fst ?ms)" "(a, i, m) \<in> set (place_models 40002 ?ms)" for a i m
    unfolding D(3) by (rule settings_found [OF that])
  have pt: "\<exists>r raw. sc_points c' (sp_name q) = Some r \<and> ss_Raw r = Some raw" if "(i, m) \<in> set ?ms" "q \<in> set (drop 2 (sj_points m))" for i m q
  proof -
    have "sp_name ` set (drop 2 (sj_points m)) \<subseteq> dom (sc_points c')" using D(5) that(1) by blast
    then have "sp_name q \<in> dom (sc_points c')" using that(2) by blast
    then obtain r where r: "sc_points c' (sp_name q) = Some r" by blast
    then have "fresh_reg r" using D(4) by blast
    then show ?thesis using r by (auto simp: fresh_reg_def)
  qed
  have o: "md_Order (sc_models c') = 1 # map fst ms" using D(2) by simp
  show ?thesis
    by (intro exI [of _ c'] conjI impI run o) (use st in blast, use pt in blast)
qed

text \<open>A library that carries: it calls the server's handlers directly.\<close>

definition sunspec_direct :: "go_impl \<Rightarrow> (heap \<times> SunSpecServer) sunspec_api" where
  "sunspec_direct impl =
     \<lparr>SSReadHoldingRegisters = (\<lambda>a n st.
        (case sunspec_readHoldingRegisters impl (read_frame a n) st of
           Done (b # d, Success) \<Rightarrow>
             if b = of_nat (length d) \<and> length d = 2 * unat n then Inr \<lparr>visible = d, spare = []\<rparr> else Inl ''bad reply''
         | _ \<Rightarrow> Inl ''exception'', st)),
      SSWriteMultipleRegisters = (\<lambda>a n d st. (Inr [], st))\<rparr>"

lemma sunspec_direct_carries: "sunspec_carries impl (sunspec_direct impl)"
  by (simp add: sunspec_carries_def sunspec_direct_def)

lemma demo_model_ok: "walkable demo_schemas (1, demo_model)" "models_total [(1, demo_model)] = 20"
  "config_models demo_schemas demo_sunspec_config = [(1, demo_model)]" "list_all settings_ok demo_sunspec_config"
proof -
  have d: "demo_schemas 1 = Some demo_model" by (simp add: demo_schemas_def)
  have names: "sp_name (demo_point n t z x acc) = n" "sp_type (demo_point n t z x acc) = t" "sp_size (demo_point n t z x acc) = z"
    "sp_sf (demo_point n t z x acc) = x" for n t z x acc by (simp_all add: demo_point_def)
  show "walkable demo_schemas (1, demo_model)"
    by (simp add: walkable_def d, simp add: demo_model_def schema_ok_def names demo_datatypes GetModelLength_def
        datatype_count_def type_counts_def)
  show "models_total [(1, demo_model)] = 20" by (simp add: models_total_def model_total_def demo_model_def names)
  show "config_models demo_schemas demo_sunspec_config = [(1, demo_model)]"
    by (simp add: config_models_def config_model_def demo_sunspec_config_def Atoi_one d)
  show "list_all settings_ok demo_sunspec_config" by (simp add: settings_ok_def demo_sunspec_config_def)
qed

theorem sunspec_discovery_witness:
  "\<exists>h s c'. SunSpecClient_Run demo_impl demo_schemas (sunspec_direct demo_impl) id 9
       (NewSunSpecClient ''sc'' \<lparr>sock = (\<lambda>_. True), attempts = 0, sent = []\<rparr>) (h, s) = (Done None, c', (h, s)) \<and>
     md_Order (sc_models c') = [1] \<and> md_Settings (sc_models c') 1 = Some \<lparr>ms_Model = 0, ms_StartAddr = 40004, ms_Length = 18\<rparr>"
proof -
  let ?p = "\<lparr>sock = (\<lambda>_. True), attempts = 0, sent = []\<rparr>"
  obtain h s where c: "SunSpec_Configure demo_schemas demo_sunspec_config (package_heap, NewSunSpecServer ''ss'' ?p) = Inr (h, s)"
    using demo_sunspec_configured by blast
  have len: "GetModelLength demo_model = 18" by (simp add: GetModelLength_def demo_model_def demo_point_def)
  have "\<exists>c'. SunSpecClient_Run demo_impl demo_schemas (sunspec_direct demo_impl) id 9 (NewSunSpecClient ''sc'' ?p) (h, s) = (Done None, c', (h, s)) \<and>
    md_Order (sc_models c') = 1 # map fst ([] :: (int \<times> SchemaJson) list) \<and>
    (distinct (map fst [(1 :: int, demo_model)]) \<longrightarrow>
       (\<forall>(a, i, m) \<in> set (place_models 40002 [(1, demo_model)]). md_Settings (sc_models c') i = Some (settings_of a m))) \<and>
    (\<forall>(i, m) \<in> set [(1 :: int, demo_model)]. \<forall>q \<in> set (drop 2 (sj_points m)). \<exists>r raw. sc_points c' (sp_name q) = Some r \<and> ss_Raw r = Some raw)"
    by (rule sunspec_discovery [OF c demo_model_ok(4,3) _ _ sunspec_direct_carries])
      (simp_all add: demo_model_ok(1,2))
  then obtain c' where "SunSpecClient_Run demo_impl demo_schemas (sunspec_direct demo_impl) id 9 (NewSunSpecClient ''sc'' ?p) (h, s) = (Done None, c', (h, s))"
    "md_Order (sc_models c') = [1]" "md_Settings (sc_models c') 1 = Some \<lparr>ms_Model = 0, ms_StartAddr = 40004, ms_Length = 18\<rparr>"
    by (auto simp: len)
  then show ?thesis by blast
qed

end
