(* ===== verification/SunSpecScaling.thy ===== *)
theory SunSpecScaling
  imports SunSpecLink
begin

text \<open>
  What a SunSpec client does with the scale factors and the addresses of the points it has
  read: it never stores the value of a scale factor, and it counts bytes where the register
  map counts words.
\<close>

section \<open>The data of a model\<close>

definition read_for :: "int \<Rightarrow> int \<Rightarrow> int \<Rightarrow> SchemaPoint \<Rightarrow> string \<times> SSRegister \<Rightarrow> bool" where
  "read_for m a pos p x \<longleftrightarrow>
     fst x = sp_name p \<and> (\<exists>r raw. remote_register m a pos p = Inr r \<and> snd x = r\<lparr>ss_Raw := Some raw\<rparr>)"

lemma data_loop_spec:
  assumes "data_loop m a d idx ps pos regs = Done (Inr regs')" "2 \<le> idx" "x \<in> set regs'"
  shows "x \<in> set regs \<or> (\<exists>j < length ps. read_for m a (pos + 2 * sum_list (map sp_size (take j ps))) (ps ! j) x)"
  using assms
proof (induction ps arbitrary: idx pos regs)
  case (Cons p ps)
  obtain r raw where r: "remote_register m a pos p = Inr r"
    "data_loop m a d (Suc idx) ps (pos + sp_size p * 2) (AList.update (ss_Name r) (r\<lparr>ss_Raw := Some raw\<rparr>) regs) = Done (Inr regs')"
    using Cons.prems(1,2) by (auto split: sum.splits option.splits)
  have first: "read_for m a pos p (ss_Name r, r\<lparr>ss_Raw := Some raw\<rparr>)"
    using r(1) remote_register_spec(3) [OF r(1)] by (auto simp: read_for_def)
  from Cons.IH [OF r(2)] Cons.prems(2,3)
  consider "x \<in> set (AList.update (ss_Name r) (r\<lparr>ss_Raw := Some raw\<rparr>) regs)"
    | j where "j < length ps" "read_for m a (pos + sp_size p * 2 + 2 * sum_list (map sp_size (take j ps))) (ps ! j) x" by auto
  then show ?case
  proof cases
    case 1
    then have "x = (ss_Name r, r\<lparr>ss_Raw := Some raw\<rparr>) \<or> x \<in> set regs" using set_alist_update by fast
    then show ?thesis using first by (auto intro!: exI [of _ 0])
  next
    case (2 j)
    then show ?thesis by (auto intro!: exI [of _ "Suc j"] simp: algebra_simps)
  qed
qed simp

text \<open>A register the client has read: for a point of the model, at twice its word offset from the start of the
  model's data.\<close>

lemma modelData_spec:
  assumes "modelData sch api m a l d = (Done (Inr data), d')" "sch m = Some s" "x \<in> set data"
  shows "\<exists>j. 2 \<le> j \<and> j < length (sj_points s) \<and>
    read_for m a (2 * sum_list (map sp_size (drop 2 (take j (sj_points s))))) (sj_points s ! j) x"
proof -
  obtain body where b: "data_loop m a body 0 (sj_points s) 0 [] = Done (Inr data)"
    using assms(1,2) by (auto simp: modelData_def GetModelSchema_def split: prod.splits sum.splits)
  show ?thesis
  proof (cases "sj_points s" rule: remdups_adj.cases)
    case (3 p q ps)
    then have "data_loop m a body 2 ps 0 [] = Done (Inr data)" using b by (simp add: eval_nat_numeral)
    from data_loop_spec [OF this _ assms(3)] obtain j where "j < length ps"
      "read_for m a (2 * sum_list (map sp_size (take j ps))) (ps ! j) x" by auto
    then show ?thesis using 3 by (intro exI [of _ "Suc (Suc j)"]) simp
  qed (use b assms(3) in auto)
qed

section \<open>Clients that have read\<close>

text \<open>The states of the client: configured, then processing the data of models it has read, or nothing
  when reading failed.\<close>

inductive client_reach :: "go_impl \<Rightarrow> schemas \<Rightarrow> 'd sunspec_api \<Rightarrow> SunSpecClient \<Rightarrow> bool" for impl sch api where
  configured: "SunSpecClient_Configure impl es (NewSunSpecClient n p) = Inr c \<Longrightarrow> client_reach impl sch api (c\<lparr>sc_pusher := p'\<rparr>)"
| model: "client_reach impl sch api c \<Longrightarrow> modelData sch api m a l d = (Done (Inr data), d') \<Longrightarrow> set (visit data) = set data \<Longrightarrow>
    process impl visit data (c\<lparr>sc_models := ms\<rparr>) = (err, c') \<Longrightarrow> client_reach impl sch api c'"
| failed: "client_reach impl sch api c \<Longrightarrow> process impl (\<lambda>_. []) [] c = (err, c') \<Longrightarrow> client_reach impl sch api c'"

text \<open>No register of a client holds a value, and one with a scale factor has no scaling of its own.\<close>

definition unscaled_reg :: "SSRegister \<Rightarrow> bool" where
  "unscaled_reg r \<longleftrightarrow> ss_InternalValue r = f64_zero \<and> (ss_ScaleRegister r \<noteq> [] \<longrightarrow> ss_Scaling r = f64_zero)"

lemma read_for_unscaled: "read_for m a pos p x \<Longrightarrow> unscaled_reg (snd x)"
proof -
  assume "read_for m a pos p x"
  then obtain r raw where r: "remote_register m a pos p = Inr r" "snd x = r\<lparr>ss_Raw := Some raw\<rparr>" by (auto simp: read_for_def)
  have "ss_ScaleRegister r = []" if "sp_sf p = SfInt i" for i
    using r(1) that by (auto simp: remote_register_def SS_Init_def zero_register_def Let_def split: option.splits if_splits)
  then show ?thesis using remote_register_spec(4,6) [OF r(1)] r(2) by (auto simp: unscaled_reg_def)
qed

lemma modelData_unscaled:
  assumes "modelData sch api m a l d = (Done (Inr data), d')" "x \<in> set data"
  shows "unscaled_reg (snd x)"
proof -
  obtain s where "sch m = Some s" using assms(1) by (auto simp: modelData_def GetModelSchema_def split: prod.splits sum.splits option.splits)
  from modelData_spec [OF assms(1) this assms(2)] show ?thesis using read_for_unscaled by blast
qed

lemma process_loop_keeps:
  assumes "\<forall>x \<in> set data. P (snd x)" "\<forall>k r. pts k = Some r \<longrightarrow> P r" "process_loop impl data pts acc = (pts', acc')"
  shows "\<forall>k r. pts' k = Some r \<longrightarrow> P r"
  using assms
proof (induction data arbitrary: pts acc)
  case (Cons x data)
  obtain k r where x: "x = (k, r)" by fastforce
  have "\<exists>acc1. process_loop impl data (pts(k \<mapsto> r)) acc1 = (pts', acc')"
    using Cons.prems(3) unfolding x by (auto simp: Let_def split: option.splits sum.splits if_splits)
  then obtain acc1 where l: "process_loop impl data (pts(k \<mapsto> r)) acc1 = (pts', acc')" ..
  have "\<forall>x \<in> set data. P (snd x)" "P r" using Cons.prems(1) x by simp_all
  moreover have "\<forall>j s. (pts(k \<mapsto> r)) j = Some s \<longrightarrow> P s"
    using Cons.prems(2) \<open>P r\<close> by (intro allI impI) (simp split: if_splits)
  ultimately show ?case using Cons.IH [OF _ _ l] by blast
qed simp

lemma process_points: "process impl visit data c = (err, c') \<Longrightarrow> sc_points c' = fst (process_loop impl (visit data) (sc_points c) [])"
  by (auto simp: process_def Let_def split: prod.splits sum.splits option.splits)

lemma Configure_points: "SunSpecClient_Configure impl es c = Inr c' \<Longrightarrow> sc_points c' = sc_points c"
  by (induction impl es c rule: SunSpecClient_Configure.induct)
    (auto simp: sunspec_client_child_def split: sum.splits if_splits option.splits)

lemma client_reach_unscaled: "client_reach impl sch api c \<Longrightarrow> sc_points c k = Some r \<Longrightarrow> unscaled_reg r"
proof (induction arbitrary: k r rule: client_reach.induct)
  case (configured es n p c p')
  then show ?case using Configure_points [OF configured(1)] by (simp add: NewSunSpecClient_def)
next
  case (model c m a l d data d' visit ms err c')
  obtain pts acc where l: "process_loop impl (visit data) (sc_points c) [] = (pts, acc)" by fastforce
  have "\<forall>x \<in> set (visit data). unscaled_reg (snd x)"
    unfolding model(3) using modelData_unscaled [OF model(2)] by (intro ballI)
  moreover have "\<forall>k r. sc_points c k = Some r \<longrightarrow> unscaled_reg r" using model.IH by (intro allI impI)
  ultimately have "\<forall>k r. pts k = Some r \<longrightarrow> unscaled_reg r" by (rule process_loop_keeps [OF _ _ l])
  then show ?case using process_points [OF model(4)] l model.prems by simp
next
  case (failed c err c')
  then show ?case using process_points [OF failed(2)] by simp
qed

lemma unscaled_scaling:
  assumes "\<forall>k r. pts k = Some r \<longrightarrow> unscaled_reg r" "client_scaling pts r = Some x"
  shows "x = f64_zero"
  using assms by (auto simp: client_scaling_def unscaled_reg_def split: if_splits)

lemma process_loop_published:
  assumes "\<forall>x \<in> set data. unscaled_reg (snd x)" "\<forall>k r. pts k = Some r \<longrightarrow> unscaled_reg r"
    and "process_loop impl data pts acc = (pts', acc')" "p \<in> set acc'"
  shows "p \<in> set acc \<or> (\<exists>r. (pt_tag p, r) \<in> set data \<and> SS_Value impl r (ss_Raw r) f64_zero = Inr (pt_value p))"
  using assms
proof (induction data arbitrary: pts acc)
  case (Cons x data)
  obtain k r where x: "x = (k, r)" by fastforce
  have pts: "\<forall>j s. (pts(k \<mapsto> r)) j = Some s \<longrightarrow> unscaled_reg s" using Cons.prems(1,2) x by auto
  consider "process_loop impl data (pts(k \<mapsto> r)) acc = (pts', acc')"
    | y v where "client_scaling (pts(k \<mapsto> r)) r = Some y" "SS_Value impl r (ss_Raw r) y = Inr v"
        "process_loop impl data (pts(k \<mapsto> r)) (acc @ [point k v]) = (pts', acc')"
    using Cons.prems(3) unfolding x by (auto simp: Let_def split: option.splits sum.splits if_splits)
  then show ?case
  proof cases
    case 1
    from Cons.IH [OF _ pts 1] Cons.prems(1,4) show ?thesis by auto
  next
    case (2 y v)
    from Cons.IH [OF _ pts 2(3)] Cons.prems(1,4) unscaled_scaling [OF pts 2(1)] 2(2) x show ?thesis
      by (auto simp: point_def)
  qed
qed simp

text \<open>C28: a SunSpec client ignores scale factors. In every state it reaches, the points it publishes for the data of a
  model are decoded with the scale factor 0, whatever value the device has for the factor a point names; for a
  signed 16-bit point with a scale factor it publishes the bare integer on the wire.\<close>

theorem scale_factors_ignored:
  assumes "client_reach impl sch api c" "modelData sch api m a l d = (Done (Inr data), d')" "set (visit data) = set data"
    and "process_loop impl (visit data) (sc_points c) [] = (pts, points)" "p \<in> set points"
  shows "\<exists>r. (pt_tag p, r) \<in> set data \<and> SS_Value impl r (ss_Raw r) f64_zero = Inr (pt_value p) \<and>
    (\<forall>w. ss_ScaleRegister r \<noteq> [] \<longrightarrow> ss_DataType r = ''int16'' \<longrightarrow> ss_Raw r = Some (put16 w) \<longrightarrow> pt_value p = f64_of_int (sint w))"
proof -
  have un: "\<forall>x \<in> set data. unscaled_reg (snd x)" using modelData_unscaled [OF assms(2)] by blast
  moreover have "\<forall>k r. sc_points c k = Some r \<longrightarrow> unscaled_reg r" using client_reach_unscaled [OF assms(1)] by blast
  ultimately obtain r where r: "(pt_tag p, r) \<in> set data" "SS_Value impl r (ss_Raw r) f64_zero = Inr (pt_value p)"
    using process_loop_published [OF _ _ assms(4,5)] assms(3) by auto
  have "pt_value p = f64_of_int (sint w)"
    if "ss_ScaleRegister r \<noteq> []" "ss_DataType r = ''int16''" "ss_Raw r = Some (put16 w)" for w
  proof -
    have z: "ss_Scaling r = f64_zero" using un r(1) that(1) by (auto simp: unscaled_reg_def)
    have "\<bar>sint w\<bar> < 2 ^ 53" using sint_less [of w] sint_greater_eq [of w] by (simp add: abs_less_iff)
    then show ?thesis
      using r(2) that(2,3) by (simp add: SS_Value_def read_as_def u16.dec_enc_exact unscaled_power [OF z] unscaled_int Let_def)
  qed
  with r show ?thesis by blast
qed

text \<open>A device that answers every read with the same bytes: a string, the value 125 and the scale factor -1.\<close>

definition demo_device :: "unit sunspec_api" where
  "demo_device =
     \<lparr>SSReadHoldingRegisters = (\<lambda>a n d. (Inr \<lparr>visible = replicate 32 0 @ [0, 125] @ [255, 255], spare = []\<rparr>, d)),
      SSWriteMultipleRegisters = (\<lambda>a n b d. (Inr [], d))\<rparr>"

lemma demo_data:
  "\<exists>rm rw rf. modelData demo_schemas demo_device 1 40004 18 () = (Done (Inr [(''Mn'', rm), (''W'', rw), (''W_SF'', rf)]), ()) \<and>
     ss_DataType rm = ''string16'' \<and> ss_DataType rw = ''int16'' \<and> ss_ScaleRegister rw = ''W_SF'' \<and> ss_Raw rw = Some [0, 125] \<and>
     ss_DataType rf = ''sunssf'' \<and> ss_Raw rf = Some [255, 255]"
proof -
  have names: "sp_name (demo_point n t z x acc) = n" "sp_size (demo_point n t z x acc) = z" "sp_sf (demo_point n t z x acc) = x"
    "sp_access (demo_point n t z x acc) = acc" for n t z x acc by (simp_all add: demo_point_def)
  show ?thesis
    by (simp add: modelData_def demo_device_def GetModelSchema_def demo_schemas_def demo_model_def remote_register_def names
        demo_datatypes SS_Init_def datatype_count_def type_counts_def slice_int_def slice_def zero_register_def Let_def)
qed

theorem scale_factors_ignored_witness:
  "\<exists>data pts p. modelData demo_schemas demo_device 1 40004 18 () = (Done (Inr data), ()) \<and>
     process_loop demo_impl (rev data) Map.empty [] = (pts, [p]) \<and> pt_tag p = ''W'' \<and> pt_value p = f64_of_int 125"
proof -
  let ?p = "\<lparr>sock = (\<lambda>_. True), attempts = 0, sent = []\<rparr>" and ?w = "125 :: uint16"
  obtain rm rw rf where d: "modelData demo_schemas demo_device 1 40004 18 () = (Done (Inr [(''Mn'', rm), (''W'', rw), (''W_SF'', rf)]), ())"
    and r: "ss_DataType rm = ''string16''" "ss_DataType rw = ''int16''" "ss_ScaleRegister rw = ''W_SF''" "ss_Raw rw = Some [0, 125]"
    "ss_DataType rf = ''sunssf''" using demo_data by blast
  let ?data = "[(''Mn'', rm), (''W'', rw), (''W_SF'', rf)]"
  have "rev [0..<2] = [1, 0::nat]" by (simp add: upt_rec)
  then have w: "put16 ?w = [0, 125]" by (simp add: put16_def be_encode_def)
  have "client_reach demo_impl demo_schemas demo_device ((NewSunSpecClient ''sc'' ?p)\<lparr>sc_pusher := ?p\<rparr>)"
    by (rule client_reach.configured [where es = "[]"]) simp
  then have c: "client_reach demo_impl demo_schemas demo_device (NewSunSpecClient ''sc'' ?p)" by (simp add: NewSunSpecClient_def)
  have "datatype_count (ss_DataType rw) = Some 1" using r(2) by (simp add: datatype_count_def type_counts_def)
  then obtain v where v: "SS_Value demo_impl rw (Some [0, 125]) (ss_InternalValue rf) = Inr v"
    using SS_Value_numeric [of rw 1 "[0, 125]" demo_impl "ss_InternalValue rf"] r(2) by auto
  obtain pts where l: "process_loop demo_impl (rev ?data) Map.empty [] = (pts, [point ''W'' v])"
    using r v by (simp add: client_scaling_def)
  have "process_loop demo_impl (rev ?data) (sc_points (NewSunSpecClient ''sc'' ?p)) [] = (pts, [point ''W'' v])"
    using l by (simp add: NewSunSpecClient_def)
  from scale_factors_ignored [where visit = rev, OF c d set_rev this, of "point ''W'' v"]
  have "\<forall>w. [0, 125] = put16 w \<longrightarrow> v = f64_of_int (sint w)" using r(2,3,4) by (auto simp: point_def)
  from spec [OF this, of ?w] have "v = f64_of_int 125" using w by simp
  then show ?thesis using d l by (auto simp: point_def)
qed

section \<open>Writing\<close>

lemma place_points_nth: "j < length ps \<Longrightarrow> (a + sum_list (map sp_size (take j ps)), ps ! j) \<in> set (place_points a ps)"
proof (induction ps arbitrary: a j)
  case (Cons p ps)
  then show ?case using Cons.IH [of "j - 1" "a + sp_size p"] by (cases j) (auto simp: algebra_simps)
qed simp

text \<open>C29: a SunSpec client writes to the wrong address. A point of a model whose data start at address a is off words
  behind it in the register map, but an update of a writable point makes the client write its value at
  address a plus twice off.\<close>

theorem update_misaddressed:
  assumes "modelData sch api m a l d0 = (Done (Inr data), d1)" "sch m = Some s" "distinct (map sp_name (sj_points s))"
    and "2 \<le> j" "j < length (sj_points s)" "sp_access (sj_points s ! j) = ''RW''" "sp_sf (sj_points s ! j) = SfNil"
    and "\<not> string_type (point_datatype (sj_points s ! j))"
    and "(sp_name (sj_points s ! j), r) \<in> set data" "sc_points c (sp_name (sj_points s ! j)) = Some r"
    and "NewEnvelope n (C_Update \<lparr>Updates = [point (sp_name (sj_points s ! j)) v], up_recipient = [], up_confirm = []\<rparr>) = Inr env" "n \<noteq> sc_name c"
  defines "off \<equiv> sum_list (map sp_size (drop 2 (take j (sj_points s))))"
  assumes "a + 2 * off \<noteq> 0"
  shows "(a + off, sj_points s ! j) \<in> set (place_points a (drop 2 (sj_points s))) \<and>
    (\<exists>bytes. sunspec_handleMsgBusUpdate impl api env c d =
       Done (snd (SSWriteMultipleRegisters api (of_int (a + 2 * off)) (of_int (ss_Count r)) bytes d)))"
proof -
  let ?q = "sj_points s ! j"
  from modelData_spec [OF assms(1,2,9)] obtain i where i: "2 \<le> i" "i < length (sj_points s)"
    "read_for m a (2 * sum_list (map sp_size (drop 2 (take i (sj_points s))))) (sj_points s ! i) (sp_name ?q, r)" by blast
  then have "sp_name (sj_points s ! i) = sp_name ?q" by (simp add: read_for_def)
  then have ij: "i = j" using assms(3,5) i(2) by (simp add: distinct_conv_nth) (metis length_map nth_map)
  obtain r0 raw where r0: "remote_register m a (2 * off) ?q = Inr r0" "r = r0\<lparr>ss_Raw := Some raw\<rparr>"
    using i(3) by (auto simp: read_for_def ij off_def)
  note R = remote_register_spec [OF r0(1)]
  have sc: "ss_ScaleRegister r0 = []"
    using r0(1) assms(7) by (auto simp: remote_register_def SS_Init_def zero_register_def Let_def split: option.splits if_splits)
  have addr: "ss_Addr r = a + 2 * off" and kind: "datatype_count (ss_DataType r) = Some (ss_Count r)" "\<not> string_type (ss_DataType r)"
    "ss_ScaleRegister r = []"
  proof -
    show "ss_Addr r = a + 2 * off" using R(5) assms(6) by (simp add: r0(2))
    show "datatype_count (ss_DataType r) = Some (ss_Count r)" using R(1) by (simp add: r0(2) ss_ok_def)
    show "\<not> string_type (ss_DataType r)" using R(2) assms(8) by (simp add: r0(2))
    show "ss_ScaleRegister r = []" using sc by (simp add: r0(2))
  qed
  obtain bytes where b: "SS_Bytes impl r (AnyFloat v) f64_zero = Done bytes"
    using SS_Bytes_width [OF kind(1), of "AnyFloat v" impl f64_zero] kind(2) by auto
  have "sunspec_handleMsgBusUpdate impl api env c d =
      Done (snd (SSWriteMultipleRegisters api (of_int (a + 2 * off)) (of_int (ss_Count r)) bytes d))"
  proof -
    have "write_point impl api (sc_points c) (point (sp_name ?q) v) d =
        Done (snd (SSWriteMultipleRegisters api (of_int (a + 2 * off)) (of_int (ss_Count r)) bytes d))"
      unfolding write_point_def client_scaling_def using assms(10,14) addr kind(3) b by (simp add: point_def)
    then show ?thesis
      using Sender_NewEnvelope [OF assms(11)] env_Update_NewEnvelope [OF assms(11)] assms(12)
      by (simp add: sunspec_handleMsgBusUpdate_def)
  qed
  moreover have "(a + off, ?q) \<in> set (place_points a (drop 2 (sj_points s)))"
  proof -
    obtain k where k: "j = k + 2" using assms(4) le_Suc_ex by (metis add.commute)
    show ?thesis
      using place_points_nth [of k "drop 2 (sj_points s)" a] assms(5) by (simp add: off_def take_drop k add.commute)
  qed
  ultimately show ?thesis by blast
qed

text \<open>A device that records the writes it receives, and a model with a writable point without scale factor.\<close>

definition recording_device :: "(uint16 \<times> uint16 \<times> byte list) list sunspec_api" where
  "recording_device =
     \<lparr>SSReadHoldingRegisters = (\<lambda>a n d. (Inr \<lparr>visible = replicate 34 0, spare = []\<rparr>, d)),
      SSWriteMultipleRegisters = (\<lambda>a n b d. (Inr [], d @ [(a, n, b)]))\<rparr>"

definition demo_writable :: SchemaJson where
  "demo_writable =
     \<lparr>sj_id = 1, sj_points =
        [demo_point ''ID'' ''uint16'' 1 SfNil ''R'', demo_point ''L'' ''uint16'' 1 SfNil ''R'',
         demo_point ''Mn'' ''string'' 16 SfNil ''R'', demo_point ''W'' ''int16'' 1 SfNil ''RW'']\<rparr>"

theorem update_misaddressed_witness:
  "\<exists>r env bytes. (40020, demo_point ''W'' ''int16'' 1 SfNil ''RW'') \<in> set (place_points 40004 (drop 2 (sj_points demo_writable))) \<and>
     sunspec_handleMsgBusUpdate demo_impl recording_device env
       ((NewSunSpecClient ''sc'' \<lparr>sock = (\<lambda>_. True), attempts = 0, sent = []\<rparr>)\<lparr>sc_points := [''W'' \<mapsto> r]\<rparr>) [] = Done [(40036, 1, bytes)]"
proof -
  let ?p = "\<lparr>sock = (\<lambda>_. True), attempts = 0, sent = []\<rparr>" and ?sch = "\<lambda>i. if i = 1 then Some demo_writable else None"
  let ?u = "\<lparr>Updates = [point ''W'' f64_one], up_recipient = [], up_confirm = []\<rparr>"
  have names: "sp_name (demo_point n t z x acc) = n" "sp_size (demo_point n t z x acc) = z" "sp_sf (demo_point n t z x acc) = x"
    "sp_access (demo_point n t z x acc) = acc" for n t z x acc by (simp_all add: demo_point_def)
  have s: "?sch 1 = Some demo_writable" by simp
  obtain rm rw where d: "modelData ?sch recording_device 1 40004 17 [] = (Done (Inr [(''Mn'', rm), (''W'', rw)]), [])"
    and cnt: "ss_Count rw = 1"
    by (simp add: modelData_def recording_device_def GetModelSchema_def demo_writable_def remote_register_def names
        demo_datatypes SS_Init_def datatype_count_def type_counts_def slice_int_def slice_def zero_register_def Let_def)
  let ?c = "(NewSunSpecClient ''sc'' ?p)\<lparr>sc_points := [''W'' \<mapsto> rw]\<rparr>"
  have pts: "sj_points demo_writable ! 3 = demo_point ''W'' ''int16'' 1 SfNil ''RW''" "length (sj_points demo_writable) = 4"
    "distinct (map sp_name (sj_points demo_writable))" "sum_list (map sp_size (drop 2 (take 3 (sj_points demo_writable)))) = 16"
    by (simp_all add: demo_writable_def names)
  have "points_finite (Updates ?u)"
    by (simp add: points_finite_def point_def f64_one_def f64_finite_def f64_mag_def f64_inf_mag_def)
  then obtain env where env: "NewEnvelope ''hmi'' (C_Update ?u) = Inr env" using NewEnvelope_fails_iff(2) by blast
  have "(40004 + sum_list (map sp_size (drop 2 (take 3 (sj_points demo_writable)))), sj_points demo_writable ! 3) \<in>
      set (place_points 40004 (drop 2 (sj_points demo_writable))) \<and>
    (\<exists>bytes. sunspec_handleMsgBusUpdate demo_impl recording_device env ?c [] =
       Done (snd (SSWriteMultipleRegisters recording_device
         (of_int (40004 + 2 * sum_list (map sp_size (drop 2 (take 3 (sj_points demo_writable)))))) (of_int (ss_Count rw)) bytes [])))"
    by (rule update_misaddressed [OF d s, where n = "''hmi''" and v = f64_one])
      (simp_all add: pts names demo_datatypes env NewSunSpecClient_def)
  then show ?thesis by (auto simp: pts cnt recording_device_def)
qed

end
