(* ===== verification/SunSpecSchema.thy ===== *)
theory SunSpecSchema
  imports SunSpecServerCorrect GoJson
begin

text \<open>
  How the definition of a SunSpec model is read (sunspec/common/types.go, generated from
  a JSON schema, and GetModelSchema of schema.go). The model files are a parameter:
  for each number no file, text that is no JSON, or a JSON value. A decoder that fails
  reports a mismatch; the whole file is then refused.
\<close>

section \<open>Decoders of the JSON library\<close>

text \<open>Untyped JSON is kept as it is, null for nil. Every number in it has to fit a float64.\<close>

fun numbers_ok :: "json \<Rightarrow> bool" where
  "numbers_ok (JNumber n) = (number_float64 n \<noteq> None)"
| "numbers_ok (JArray js) = list_all numbers_ok js"
| "numbers_ok (JObject ms) = list_all (\<lambda>m. numbers_ok (snd m)) ms"
| "numbers_ok _ = True"

definition dec_any :: "json decoder" where
  "dec_any j old = (j, \<not> numbers_ok j)"

text \<open>An integer has to be written with digits only and to fit 64 bits.\<close>

fun number_int64 :: "number \<Rightarrow> int option" where
  "number_int64 (Decimal neg m e plain) =
     (let i = (if neg then - int m else int m)
      in if plain \<and> - (2 ^ 63) \<le> i \<and> i < 2 ^ 63 then Some i else None)"
| "number_int64 (Shortest v) =
     (if f64_integral v \<and> \<bar>f64_trunc v\<bar> < 2 ^ 53 then Some (f64_trunc v) else None)"

fun dec_int :: "int decoder" where
  "dec_int (JNumber n) old = (case number_int64 n of None \<Rightarrow> (old, True) | Some i \<Rightarrow> (i, False))"
| "dec_int JNull old = (old, False)"
| "dec_int _ old = (old, True)"

definition dec_ptr :: "'a decoder \<Rightarrow> 'a \<Rightarrow> 'a option decoder" where
  "dec_ptr d z j old =
     (if j = JNull then (None, False)
      else case d j (case old of None \<Rightarrow> z | Some x \<Rightarrow> x) of (v, e) \<Rightarrow> (Some v, e))"

text \<open>The object as a map from its keys, spelled exactly; null is the nil map.\<close>

type_synonym raw = "(string \<rightharpoonup> json) option"

fun raw_map :: "json \<Rightarrow> raw option" where
  "raw_map (JObject ms) = (if numbers_ok (JObject ms) then Some (Some (map_of (rev ms))) else None)"
| "raw_map JNull = Some None"
| "raw_map _ = None"

definition has_keys :: "string list \<Rightarrow> raw \<Rightarrow> bool" where
  "has_keys ks raw = (case raw of None \<Rightarrow> True | Some m \<Rightarrow> list_all (\<lambda>k. m k \<noteq> None) ks)"

definition absent :: "string \<Rightarrow> raw \<Rightarrow> bool" where
  "absent k raw = (case raw of None \<Rightarrow> True | Some m \<Rightarrow> (case m k of None \<Rightarrow> True | Some v \<Rightarrow> v = JNull))"

text \<open>The shape all UnmarshalJSON methods of structs have: the object as a map, the required keys, the struct itself,
  and what is done with both in the end.\<close>

definition unmarshal_with :: "string list \<Rightarrow> 'a decoder \<Rightarrow> 'a \<Rightarrow> (raw \<Rightarrow> 'a \<Rightarrow> 'a option) \<Rightarrow> 'a decoder" where
  "unmarshal_with ks dec zero finish j old =
     (case raw_map j of
        None \<Rightarrow> (old, True)
      | Some raw \<Rightarrow>
          if \<not> has_keys ks raw then (old, True)
          else case dec j zero of
                 (plain, True) \<Rightarrow> (old, True)
               | (plain, False) \<Rightarrow> (case finish raw plain of None \<Rightarrow> (old, True) | Some x \<Rightarrow> (x, False)))"

section \<open>Enumerations\<close>

fun expected_value :: "string list \<Rightarrow> string \<Rightarrow> bool" where
  "expected_value [] v = False"
| "expected_value (e # es) v = (if v = e then True else expected_value es v)"

definition dec_enum :: "string list \<Rightarrow> string decoder" where
  "dec_enum vals j old =
     (case dec_string j [] of
        (v, True) \<Rightarrow> (old, True)
      | (v, False) \<Rightarrow> if expected_value vals v then (v, False) else (old, True))"

definition enumValues_GroupType :: "string list" where
  "enumValues_GroupType = [''group'', ''sync'']"

definition enumValues_PointAccess :: "string list" where
  "enumValues_PointAccess = [''R'', ''RW'']"

definition enumValues_PointMandatory :: "string list" where
  "enumValues_PointMandatory = [''M'', ''O'']"

definition enumValues_PointStatic :: "string list" where
  "enumValues_PointStatic = [''D'', ''S'']"

definition enumValues_PointType :: "string list" where
  "enumValues_PointType =
     [''int16'', ''int32'', ''int64'', ''raw16'', ''uint16'', ''uint32'', ''uint64'', ''acc16'', ''acc32'', ''acc64'',
      ''bitfield16'', ''bitfield32'', ''bitfield64'', ''enum16'', ''enum32'', ''float32'', ''float64'', ''string'', ''sf'',
      ''pad'', ''ipaddr'', ''ipv6addr'', ''eui48'', ''sunssf'', ''count'']"

definition GroupType_UnmarshalJSON :: "string decoder" where
  "GroupType_UnmarshalJSON = dec_enum enumValues_GroupType"

definition PointAccess_UnmarshalJSON :: "string decoder" where
  "PointAccess_UnmarshalJSON = dec_enum enumValues_PointAccess"

definition PointMandatory_UnmarshalJSON :: "string decoder" where
  "PointMandatory_UnmarshalJSON = dec_enum enumValues_PointMandatory"

definition PointStatic_UnmarshalJSON :: "string decoder" where
  "PointStatic_UnmarshalJSON = dec_enum enumValues_PointStatic"

definition PointType_UnmarshalJSON :: "string decoder" where
  "PointType_UnmarshalJSON = dec_enum enumValues_PointType"

section \<open>Symbols\<close>

record Symbol =
  sy_Comments :: "string list"
  sy_Desc :: "string option"
  sy_Detail :: "string option"
  sy_Label :: "string option"
  sy_Name :: string
  sy_Notes :: "string option"
  sy_Value :: json

definition zero_symbol :: Symbol where
  "zero_symbol =
     \<lparr>sy_Comments = [], sy_Desc = None, sy_Detail = None, sy_Label = None, sy_Name = [], sy_Notes = None, sy_Value = JNull\<rparr>"

definition dec_strings :: "string list decoder" where "dec_strings = dec_slice dec_string []"

definition dec_text :: "string option decoder" where "dec_text = dec_ptr dec_string []"

definition symbol_fields :: "(string \<times> Symbol decoder) list" where
  "symbol_fields =
     [(''comments'', into sy_Comments sy_Comments_update dec_strings),
      (''desc'', into sy_Desc sy_Desc_update dec_text),
      (''detail'', into sy_Detail sy_Detail_update dec_text),
      (''label'', into sy_Label sy_Label_update dec_text),
      (''name'', into sy_Name sy_Name_update dec_string),
      (''notes'', into sy_Notes sy_Notes_update dec_text),
      (''value'', into sy_Value sy_Value_update dec_any)]"

definition Symbol_UnmarshalJSON :: "Symbol decoder" where
  "Symbol_UnmarshalJSON =
     unmarshal_with [''name'', ''value''] (dec_struct symbol_fields) zero_symbol (\<lambda>raw plain. Some plain)"

section \<open>Points\<close>

record PointJson =
  po_Access :: string
  po_Comments :: "string list"
  po_Count :: "int option"
  po_Desc :: "string option"
  po_Detail :: "string option"
  po_Label :: "string option"
  po_Mandatory :: string
  po_Name :: string
  po_Notes :: "string option"
  po_Sf :: json
  po_Size :: int
  po_Static :: string
  po_Symbols :: "Symbol list"
  po_Type :: string
  po_Units :: "string option"
  po_Value :: json

definition zero_point_json :: PointJson where
  "zero_point_json =
     \<lparr>po_Access = [], po_Comments = [], po_Count = None, po_Desc = None, po_Detail = None, po_Label = None, po_Mandatory = [],
      po_Name = [], po_Notes = None, po_Sf = JNull, po_Size = 0, po_Static = [], po_Symbols = [], po_Type = [], po_Units = None,
      po_Value = JNull\<rparr>"

definition point_fields :: "(string \<times> PointJson decoder) list" where
  "point_fields =
     [(''access'', into po_Access po_Access_update PointAccess_UnmarshalJSON),
      (''comments'', into po_Comments po_Comments_update dec_strings),
      (''count'', into po_Count po_Count_update (dec_ptr dec_int 0)),
      (''desc'', into po_Desc po_Desc_update dec_text),
      (''detail'', into po_Detail po_Detail_update dec_text),
      (''label'', into po_Label po_Label_update dec_text),
      (''mandatory'', into po_Mandatory po_Mandatory_update PointMandatory_UnmarshalJSON),
      (''name'', into po_Name po_Name_update dec_string),
      (''notes'', into po_Notes po_Notes_update dec_text),
      (''sf'', into po_Sf po_Sf_update dec_any),
      (''size'', into po_Size po_Size_update dec_int),
      (''static'', into po_Static po_Static_update PointStatic_UnmarshalJSON),
      (''symbols'', into po_Symbols po_Symbols_update (dec_slice Symbol_UnmarshalJSON zero_symbol)),
      (''type'', into po_Type po_Type_update PointType_UnmarshalJSON),
      (''units'', into po_Units po_Units_update dec_text),
      (''value'', into po_Value po_Value_update dec_any)]"

definition point_defaults :: "raw \<Rightarrow> PointJson \<Rightarrow> PointJson" where
  "point_defaults raw p =
     (let p1 = (if absent ''access'' raw then p\<lparr>po_Access := ''R''\<rparr> else p);
          p2 = (if absent ''mandatory'' raw then p1\<lparr>po_Mandatory := ''O''\<rparr> else p1)
      in if absent ''static'' raw then p2\<lparr>po_Static := ''D''\<rparr> else p2)"

definition Point_UnmarshalJSON :: "PointJson decoder" where
  "Point_UnmarshalJSON =
     unmarshal_with [''name'', ''size'', ''type''] (dec_struct point_fields) zero_point_json (\<lambda>raw plain. Some (point_defaults raw plain))"

section \<open>Groups\<close>

record GroupFields =
  gr_Comments :: "string list"
  gr_Count :: json
  gr_Desc :: "string option"
  gr_Detail :: "string option"
  gr_Label :: "string option"
  gr_Name :: string
  gr_Notes :: "string option"
  gr_Points :: "PointJson list"
  gr_Type :: string

datatype Group = Group (group_fields: GroupFields) (Groups: "Group list")

definition zero_group :: Group where
  "zero_group =
     Group \<lparr>gr_Comments = [], gr_Count = JNull, gr_Desc = None, gr_Detail = None, gr_Label = None, gr_Name = [], gr_Notes = None,
       gr_Points = [], gr_Type = []\<rparr> []"

fun in_group :: "(GroupFields \<Rightarrow> GroupFields) \<Rightarrow> Group \<Rightarrow> Group" where
  "in_group f (Group g gs) = Group (f g) gs"

fun set_groups :: "(Group list \<Rightarrow> Group list) \<Rightarrow> Group \<Rightarrow> Group" where
  "set_groups f (Group g gs) = Group g (f gs)"

text \<open>A field of the group itself.\<close>

definition group_into :: "(GroupFields \<Rightarrow> 'b) \<Rightarrow> (('b \<Rightarrow> 'b) \<Rightarrow> GroupFields \<Rightarrow> GroupFields) \<Rightarrow> 'b decoder \<Rightarrow> Group decoder" where
  "group_into get upd = into (\<lambda>g. get (group_fields g)) (\<lambda>f. in_group (upd f))"

definition group_decoders :: "Group decoder \<Rightarrow> (string \<times> Group decoder) list" where
  "group_decoders rec =
     [(''comments'', group_into gr_Comments gr_Comments_update dec_strings),
      (''count'', group_into gr_Count gr_Count_update dec_any),
      (''desc'', group_into gr_Desc gr_Desc_update dec_text),
      (''detail'', group_into gr_Detail gr_Detail_update dec_text),
      (''groups'', into Groups set_groups (dec_slice rec zero_group)),
      (''label'', group_into gr_Label gr_Label_update dec_text),
      (''name'', group_into gr_Name gr_Name_update dec_string),
      (''notes'', group_into gr_Notes gr_Notes_update dec_text),
      (''points'', group_into gr_Points gr_Points_update (dec_slice Point_UnmarshalJSON zero_point_json)),
      (''type'', group_into gr_Type gr_Type_update GroupType_UnmarshalJSON)]"

definition group_defaults :: "raw \<Rightarrow> Group \<Rightarrow> Group" where
  "group_defaults raw g = (if absent ''count'' raw then in_group (gr_Count_update (\<lambda>_. JNumber (Decimal False 1 0 False))) g else g)"

text \<open>Groups nest; the number bounds the depth that is decoded.\<close>

fun decode_group :: "nat \<Rightarrow> Group decoder" where
  "decode_group 0 j old = (old, True)"
| "decode_group (Suc n) j old =
     unmarshal_with [''name'', ''type''] (dec_struct (group_decoders (decode_group n))) zero_group
       (\<lambda>raw plain. Some (group_defaults raw plain)) j old"

definition Group_UnmarshalJSON :: "Group decoder" where
  "Group_UnmarshalJSON j old = decode_group (Suc (size j)) j old"

section \<open>Models\<close>

record ModelJson =
  mj_Comments :: "string list"
  mj_Desc :: "string option"
  mj_Detail :: "string option"
  mj_Group :: Group
  mj_Id :: int
  mj_Label :: "string option"
  mj_Notes :: "string option"

definition zero_model :: ModelJson where
  "zero_model =
     \<lparr>mj_Comments = [], mj_Desc = None, mj_Detail = None, mj_Group = zero_group, mj_Id = 0, mj_Label = None, mj_Notes = None\<rparr>"

definition model_fields :: "(string \<times> ModelJson decoder) list" where
  "model_fields =
     [(''comments'', into mj_Comments mj_Comments_update dec_strings),
      (''desc'', into mj_Desc mj_Desc_update dec_text),
      (''detail'', into mj_Detail mj_Detail_update dec_text),
      (''group'', into mj_Group mj_Group_update Group_UnmarshalJSON),
      (''id'', into mj_Id mj_Id_update dec_int),
      (''label'', into mj_Label mj_Label_update dec_text),
      (''notes'', into mj_Notes mj_Notes_update dec_text)]"

definition SchemaJson_UnmarshalJSON :: "ModelJson decoder" where
  "SchemaJson_UnmarshalJSON =
     unmarshal_with [''group'', ''id''] (dec_struct model_fields) zero_model
       (\<lambda>raw plain. if 65535 < mj_Id plain \<or> 1 > mj_Id plain then None else Some plain)"

text \<open>What the program uses of a model.\<close>

fun sf_of :: "json \<Rightarrow> sf" where
  "sf_of JNull = SfNil"
| "sf_of (JNumber n) = (case number_float64 n of Some v \<Rightarrow> SfFloat v | None \<Rightarrow> SfNil)"
| "sf_of (JString s) = SfString s"
| "sf_of _ = SfOther"

definition schema_point :: "PointJson \<Rightarrow> SchemaPoint" where
  "schema_point p = \<lparr>sp_name = po_Name p, sp_type = po_Type p, sp_size = po_Size p, sp_sf = sf_of (po_Sf p), sp_access = po_Access p\<rparr>"

definition schema_model :: "ModelJson \<Rightarrow> SchemaJson" where
  "schema_model m = \<lparr>sj_id = mj_Id m, sj_points = map schema_point (gr_Points (group_fields (mj_Group m)))\<rparr>"

type_synonym model_files = "int \<Rightarrow> json option option"

definition ReadModelSchema :: "model_files \<Rightarrow> int \<Rightarrow> SchemaJson result" where
  "ReadModelSchema files i =
     (case files i of
        None \<Rightarrow> Inl ''reading model schema''
      | Some None \<Rightarrow> Inl ''unmarshaling model schema''
      | Some (Some j) \<Rightarrow>
          (case SchemaJson_UnmarshalJSON j zero_model of
             (m, True) \<Rightarrow> Inl ''unmarshaling model schema''
           | (m, False) \<Rightarrow> Inr (schema_model m)))"

text \<open>The schemas that the server and the client work with.\<close>

definition schemas_of :: "model_files \<Rightarrow> schemas" where
  "schemas_of files i = (case ReadModelSchema files i of Inl err \<Rightarrow> None | Inr s \<Rightarrow> Some s)"

section \<open>Nesting\<close>

lemma dec_elems_cong: "(\<And>j. j \<in> set js \<Longrightarrow> f j z = g j z) \<Longrightarrow> dec_elems f z js = dec_elems g z js"
  by (induction js) (auto split: prod.splits)

lemma dec_members_cong: "(\<And>k j x. (k, j) \<in> set ms \<Longrightarrow> f k j x = g k j x) \<Longrightarrow> dec_members f ms x = dec_members g ms x"
proof (induction ms arbitrary: x)
  case (Cons m ms)
  obtain k j where m: "m = (k, j)" by fastforce
  have "dec_members f ms y = dec_members g ms y" for y by (rule Cons.IH) (auto intro: Cons.prems)
  then show ?case using Cons.prems [of k j] by (simp add: m)
qed simp

lemma pick_field_cong:
  assumes "list_all2 (\<lambda>(n, d) (n', d'). n = n' \<and> d j x = d' j x) fs fs'"
  shows "pick_field fs k j x = pick_field fs' k j x"
proof -
  have "rel_option (\<lambda>d d'. d j x = d' j x) (map_of fs k) (map_of fs' k)"
    using assms by (induction rule: list_all2_induct) auto
  moreover have "list_all2 (\<lambda>(n, d) (n', d'). n = n' \<and> d j x = d' j x)
      (filter (\<lambda>(n, _). fold_name n = fold_name k) fs) (filter (\<lambda>(n, _). fold_name n = fold_name k) fs')"
    using assms by (induction rule: list_all2_induct) auto
  ultimately show ?thesis by (auto simp: pick_field_def option_rel_Some1 split: option.splits list.splits)
qed

lemma size_member: "(k, j) \<in> set ms \<Longrightarrow> size j < size (JObject ms)"
  by (induction ms) auto

lemma size_element: "j \<in> set js \<Longrightarrow> size j < size (JArray js)"
  by (induction js) auto

lemma dec_slice_cong:
  assumes "\<And>j'. size j' < size j \<Longrightarrow> f j' z = g j' z"
  shows "dec_slice f z j old = dec_slice g z j old"
  using assms by (cases j) (auto intro!: dec_elems_cong dest: size_element)

lemma group_decoders_cong:
  assumes "\<And>j' x. size j' < size j \<Longrightarrow> f j' x = g j' x"
  shows "dec_struct (group_decoders f) j x = dec_struct (group_decoders g) j x"
proof (cases j)
  case (JObject ms)
  have "pick_field (group_decoders f) k j' y = pick_field (group_decoders g) k j' y" if "(k, j') \<in> set ms" for k j' y
  proof (rule pick_field_cong)
    have "dec_slice f zero_group j' old = dec_slice g zero_group j' old" for old
      by (rule dec_slice_cong, rule assms, use size_member [OF that] JObject in simp)
    then show "list_all2 (\<lambda>(n, d) (n', d'). n = n' \<and> d j' y = d' j' y) (group_decoders f) (group_decoders g)"
      by (simp add: group_decoders_def into_def)
  qed
  then show ?thesis using JObject by (simp add: dec_struct_def cong: dec_members_cong)
qed (simp_all add: dec_struct_def)

lemma unmarshal_with_cong: "dec j zero = dec' j zero \<Longrightarrow> unmarshal_with ks dec zero finish j old = unmarshal_with ks dec' zero finish j old"
  unfolding unmarshal_with_def by (simp only:)

lemma decode_group_depth: "size j < n \<Longrightarrow> size j < n' \<Longrightarrow> decode_group n j old = decode_group n' j old"
proof (induction n arbitrary: n' j old)
  case (Suc n)
  then obtain m where m: "n' = Suc m" by (cases n') auto
  have "decode_group n j' x = decode_group m j' x" if "size j' < size j" for j' x
    by (rule Suc.IH) (use that Suc.prems m in simp_all)
  then show ?case unfolding m decode_group.simps by (intro unmarshal_with_cong group_decoders_cong)
qed simp

text \<open>The bound on the depth never matters: a group is decoded with the method itself for the groups in it.\<close>

lemma Group_UnmarshalJSON_rec:
  "Group_UnmarshalJSON j old =
     unmarshal_with [''name'', ''type''] (dec_struct (group_decoders Group_UnmarshalJSON)) zero_group
       (\<lambda>raw plain. Some (group_defaults raw plain)) j old"
proof -
  have "decode_group (size j) j' x = Group_UnmarshalJSON j' x" if "size j' < size j" for j' x
    unfolding Group_UnmarshalJSON_def by (rule decode_group_depth) (use that in simp_all)
  then have "dec_struct (group_decoders (decode_group (size j))) j zero_group = dec_struct (group_decoders Group_UnmarshalJSON) j zero_group"
    by (rule group_decoders_cong)
  then show ?thesis unfolding Group_UnmarshalJSON_def [of j] decode_group.simps by (rule unmarshal_with_cong)
qed

section \<open>Fields that are checked\<close>

lemma expected_value_iff [simp]: "expected_value vals v \<longleftrightarrow> v \<in> set vals"
  by (induction vals) auto

lemma dec_enum_checked: "dec_enum vals j old = (v, False) \<Longrightarrow> v \<in> set vals"
  by (auto simp: dec_enum_def split: prod.splits bool.splits if_splits)

lemma pick_field_from: "(\<exists>n. (n, pick_field fs k) \<in> set fs) \<or> pick_field fs k = (\<lambda>_ x. (x, False))"
  by (auto simp: pick_field_def dest: map_of_SomeD split: option.splits list.splits)
    (metis filter_eq_Cons_iff in_set_conv_decomp)

text \<open>
  A field of a struct whose decoder accepts only certain values, and which no other field
  of the struct touches. After decoding without a mismatch it holds such a value, or the
  one it had before when no key is spelled like it.
\<close>

locale checked_field =
  fixes fs :: "(string \<times> 'a decoder) list" and n :: string and get :: "'a \<Rightarrow> 'b" and good :: "'b \<Rightarrow> bool"
  assumes own: "map_of fs n = Some d \<Longrightarrow> d j x = (y, False) \<Longrightarrow> good (get y)"
    and declared: "map_of fs n \<noteq> None"
    and others: "(k, d) \<in> set fs \<Longrightarrow> k \<noteq> n \<Longrightarrow> get (fst (d j x)) = get x"
    and once: "distinct (map fst fs)"
begin

lemma member_checked:
  assumes "pick_field fs k j x = (y, False)"
  shows "good (get y) \<or> get y = get x \<and> k \<noteq> n"
proof (cases "k = n")
  case True
  with declared assms own show ?thesis by (auto simp: pick_field_def split: option.splits)
next
  case False
  consider m where "(m, pick_field fs k) \<in> set fs" | "pick_field fs k = (\<lambda>_ x. (x, False))"
    using pick_field_from by blast
  then show ?thesis
  proof cases
    case (1 m)
    then have m: "map_of fs m = Some (pick_field fs k)" using once by simp
    show ?thesis
    proof (cases "m = n")
      case True
      with m assms own show ?thesis by blast
    next
      case False
      with others [OF 1] assms \<open>k \<noteq> n\<close> show ?thesis by (metis fst_conv)
    qed
  next
    case 2
    with assms False show ?thesis by simp
  qed
qed

lemma members_checked:
  "dec_members (pick_field fs) ms x = (y, False) \<Longrightarrow> good (get y) \<or> get y = get x \<and> n \<notin> fst ` set ms"
proof (induction ms arbitrary: x)
  case (Cons m ms)
  obtain k j where m: "m = (k, j)" by fastforce
  obtain z where z: "pick_field fs k j x = (z, False)" "dec_members (pick_field fs) ms z = (y, False)"
    using Cons.prems by (auto simp: m split: prod.splits)
  from Cons.IH [OF z(2)] member_checked [OF z(1)] show ?case by (auto simp: m)
qed simp

lemma struct_checked:
  assumes "dec_struct fs j x = (y, False)" "good (get x)"
  shows "good (get y)"
proof (cases j)
  case (JObject ms)
  with assms members_checked [of ms x y] show ?thesis by (auto simp: dec_struct_def)
qed (use assms in \<open>auto simp: dec_struct_def\<close>)

end

lemma has_key_member: "raw_map (JObject ms) = Some (Some r) \<Longrightarrow> r k \<noteq> None \<longleftrightarrow> k \<in> fst ` set ms"
  using map_of_eq_None_iff [of "rev ms" k] by (auto split: if_splits)

interpretation po_type: checked_field point_fields "''type''" po_Type "\<lambda>v. v \<in> set enumValues_PointType"
  by unfold_locales (auto simp: point_fields_def into_def PointType_UnmarshalJSON_def dest: dec_enum_checked split: prod.splits)

interpretation po_access: checked_field point_fields "''access''" po_Access "\<lambda>v. v \<in> set enumValues_PointAccess"
  by unfold_locales (auto simp: point_fields_def into_def PointAccess_UnmarshalJSON_def dest: dec_enum_checked split: prod.splits)

definition point_typed :: "PointJson \<Rightarrow> bool" where
  "point_typed p \<longleftrightarrow> po_Type p \<in> set enumValues_PointType \<and> po_Access p \<in> set enumValues_PointAccess"

text \<open>The point that null decodes to.\<close>

definition null_point :: PointJson where
  "null_point = zero_point_json\<lparr>po_Access := ''R'', po_Mandatory := ''O'', po_Static := ''D''\<rparr>"

lemma unmarshal_with_done:
  assumes "unmarshal_with ks dec zero finish j old = (x, False)"
  obtains raw plain where "raw_map j = Some raw" "has_keys ks raw" "dec j zero = (plain, False)" "finish raw plain = Some x"
  using assms by (auto simp: unmarshal_with_def split: option.splits if_splits prod.splits bool.splits)

lemma point_defaults_simps:
  "po_Type (point_defaults raw p) = po_Type p"
  "po_Access (point_defaults raw p) = (if absent ''access'' raw then ''R'' else po_Access p)"
  by (simp_all add: point_defaults_def Let_def)

lemma Point_decoded:
  assumes "Point_UnmarshalJSON j old = (p, False)"
  shows "if j = JNull then p = null_point else point_typed p"
proof -
  obtain raw plain where d: "raw_map j = Some raw" "has_keys [''name'', ''size'', ''type''] raw"
    "dec_struct point_fields j zero_point_json = (plain, False)" "p = point_defaults raw plain"
    using assms unfolding Point_UnmarshalJSON_def by (elim unmarshal_with_done) simp
  consider "j = JNull" "raw = None" | ms r where "j = JObject ms" "raw = Some r"
    using d(1) by (cases j) (auto split: if_splits)
  then show ?thesis
  proof cases
    case 1
    with d(3,4) show ?thesis
      by (simp add: dec_struct_def point_defaults_def absent_def null_point_def)
  next
    case (2 ms r)
    note key = has_key_member [of ms r, folded 2(1), OF d(1) [unfolded 2(2)]]
    have m: "dec_members (pick_field point_fields) ms zero_point_json = (plain, False)" using d(3) 2 by (simp add: dec_struct_def)
    have "''type'' \<in> fst ` set ms" using d(2) key [of "''type''"] 2 by (simp add: has_keys_def)
    then have "po_Type plain \<in> set enumValues_PointType" using po_type.members_checked [OF m] by blast
    moreover have "po_Access plain \<in> set enumValues_PointAccess" if "\<not> absent ''access'' raw"
      using that po_access.members_checked [OF m] key [of "''access''"] 2 by (auto simp: absent_def split: option.splits)
    ultimately show ?thesis using 2 by (simp add: d(4) point_typed_def point_defaults_simps) (simp add: enumValues_PointAccess_def)
  qed
qed

definition points_typed :: "PointJson list \<Rightarrow> bool" where
  "points_typed = list_all (\<lambda>p. p = null_point \<or> point_typed p)"

lemma dec_elems_typed: "dec_elems Point_UnmarshalJSON z js = (ps, False) \<Longrightarrow> points_typed ps"
proof (induction js arbitrary: ps)
  case (Cons j js)
  then show ?case using Point_decoded [of j z] by (auto simp: points_typed_def split: prod.splits if_splits)
qed (simp add: points_typed_def)

lemma dec_points_typed: "dec_slice Point_UnmarshalJSON z j old = (ps, False) \<Longrightarrow> points_typed ps"
  using dec_elems_typed by (cases j) (auto simp: points_typed_def)

lemma group_update_simps [simp]:
  "group_fields (in_group f g) = f (group_fields g)" "group_fields (set_groups h g) = group_fields g"
  by (cases g; simp)+

interpretation gr_points: checked_field "group_decoders rec" "''points''" "\<lambda>g. gr_Points (group_fields g)" points_typed for rec
  by unfold_locales
    (auto simp: group_decoders_def group_into_def into_def dest: dec_points_typed split: prod.splits)

definition group_typed :: "Group \<Rightarrow> bool" where
  "group_typed g = points_typed (gr_Points (group_fields g))"

lemma Group_decoded:
  assumes "Group_UnmarshalJSON j old = (g, False)"
  shows "group_typed g"
proof -
  obtain raw plain where d: "dec_struct (group_decoders Group_UnmarshalJSON) j zero_group = (plain, False)" "g = group_defaults raw plain"
    using assms unfolding Group_UnmarshalJSON_rec [of j] by (elim unmarshal_with_done) auto
  have "points_typed (gr_Points (group_fields plain))"
    by (rule gr_points.struct_checked [OF d(1)]) (simp add: zero_group_def points_typed_def)
  then show ?thesis by (simp add: d(2) group_typed_def group_defaults_def)
qed

interpretation mj_group: checked_field model_fields "''group''" mj_Group group_typed
  by unfold_locales (auto simp: model_fields_def into_def dest: Group_decoded split: prod.splits)

lemma model_typed_points:
  assumes "ReadModelSchema files i = Inr s"
  shows "\<forall>p \<in> set (sj_points s). sp_type p \<in> set enumValues_PointType \<and> sp_access p \<in> {''R'', ''RW''} \<or> p = schema_point null_point"
    "1 \<le> sj_id s" "sj_id s \<le> 65535"
proof -
  obtain j m where m: "SchemaJson_UnmarshalJSON j zero_model = (m, False)" "s = schema_model m"
    using assms by (auto simp: ReadModelSchema_def split: option.splits prod.splits bool.splits)
  obtain raw plain where d: "dec_struct model_fields j zero_model = (plain, False)"
    "(if 65535 < mj_Id plain \<or> 1 > mj_Id plain then None else Some plain) = Some m"
    using m(1) unfolding SchemaJson_UnmarshalJSON_def by (elim unmarshal_with_done)
  have "group_typed (mj_Group plain)"
    by (rule mj_group.struct_checked [OF d(1)]) (simp add: zero_model_def zero_group_def group_typed_def points_typed_def)
  with d(2) show "\<forall>p \<in> set (sj_points s). sp_type p \<in> set enumValues_PointType \<and> sp_access p \<in> {''R'', ''RW''} \<or> p = schema_point null_point"
    "1 \<le> sj_id s" "sj_id s \<le> 65535"
    by (auto simp: m(2) schema_model_def group_typed_def points_typed_def point_typed_def list_all_iff schema_point_def
        enumValues_PointAccess_def split: if_splits)
qed

text \<open>C21: a model that is read is well typed. Whatever the model files hold, a model the program gets has a number from 1 to 65535, and each of
  its points has one of the types and one of the kinds of access the schema lists, except that null in the list of points
  gives a point without name, type and size.\<close>

theorem model_well_typed:
  assumes "ReadModelSchema files i = Inr s"
  shows "1 \<le> sj_id s \<and> sj_id s \<le> 65535 \<and>
    (\<forall>p \<in> set (sj_points s). sp_type p \<in> set enumValues_PointType \<and> sp_access p \<in> {''R'', ''RW''} \<or> p = schema_point null_point)"
  using model_typed_points [OF assms] by blast

section \<open>Types without registers\<close>

text \<open>Types of the schema that Init of a register does not know.\<close>

definition types_without_register :: "string list" where
  "types_without_register =
     [''int64'', ''raw16'', ''uint64'', ''bitfield64'', ''float64'', ''sf'', ''ipaddr'', ''ipv6addr'', ''eui48'', ''count'']"

definition unsupported :: "SchemaPoint \<Rightarrow> bool" where
  "unsupported p \<longleftrightarrow> sp_type p \<in> set types_without_register \<or> sp_type p = ''string'' \<and> sp_size p \<notin> {8, 16} \<or> sp_type p = []"

lemma show_digit: "n < 10 \<Longrightarrow> of_char (char_of (48 + n) :: char) = 48 + (n :: nat)"
  by simp

lemma show_nat_nonempty: "show_nat n \<noteq> []"
  by (subst show_nat.simps) simp

lemma show_nat_single: "show_nat n = [c] \<longleftrightarrow> n < 10 \<and> c = char_of (48 + n)"
  by (subst show_nat.simps) (auto simp: show_nat_nonempty)

lemma show_nat_pair: "show_nat n = [c, d] \<longleftrightarrow> 10 \<le> n \<and> n < 100 \<and> c = char_of (48 + n div 10) \<and> d = char_of (48 + n mod 10)"
proof -
  have "show_nat n = [c, d] \<longleftrightarrow> 10 \<le> n \<and> show_nat (n div 10) = [c] \<and> d = char_of (48 + n mod 10)"
    by (subst show_nat.simps) (auto simp: append_eq_Cons_conv)
  moreover have "n div 10 < 10 \<longleftrightarrow> n < 100" by auto
  ultimately show ?thesis unfolding show_nat_single by blast
qed

lemma digit_of: "char_of (48 + n) = c \<Longrightarrow> n < 10 \<Longrightarrow> n = of_char c - (48 :: nat)"
  using show_digit [of n] by auto

lemma show_int_8: "show_int z = ''8'' \<longleftrightarrow> z = 8"
proof
  assume a: "show_int z = ''8''"
  then have "\<not> z < 0" by (auto simp: show_int_def)
  with a have "show_nat (nat z) = ''8''" by (simp add: show_int_def)
  then have "nat z < 10" "char_of (48 + nat z) = CHR ''8''" by (simp_all add: show_nat_single)
  from digit_of [OF this(2,1)] have "nat z = 8" by simp
  then show "z = 8" by simp
qed (simp add: show_int_def show_nat.simps char_of_def bit_iff_odd)

lemma show_int_16: "show_int z = ''16'' \<longleftrightarrow> z = 16"
proof
  assume a: "show_int z = ''16''"
  then have "\<not> z < 0" by (auto simp: show_int_def)
  with a have "show_nat (nat z) = ''16''" by (simp add: show_int_def)
  then have n: "nat z < 100" "char_of (48 + nat z div 10) = CHR ''1''" "char_of (48 + nat z mod 10) = CHR ''6''"
    unfolding show_nat_pair by simp_all
  have "nat z div 10 = 1" using digit_of [OF n(2)] n(1) by simp
  moreover have "nat z mod 10 = 6" using digit_of [OF n(3)] by simp
  ultimately have "nat z = 16" using div_mult_mod_eq [of "nat z" 10] by simp
  then show "z = 16" by simp
qed (simp add: show_int_def show_nat.simps char_of_def bit_iff_odd)

lemma string_count: "datatype_count (''string'' @ show_int z) = None \<longleftrightarrow> z \<notin> {8, 16}"
  using show_int_8 [of z] show_int_16 [of z] by (auto simp: datatype_count_def type_counts_def)

lemma counted_types:
  assumes "t \<in> set enumValues_PointType" "t \<noteq> ''string''"
  shows "datatype_count t = None \<longleftrightarrow> t \<in> set types_without_register"
  using assms by (auto simp: enumValues_PointType_def types_without_register_def datatype_count_def type_counts_def)

lemma unsupported_iff:
  assumes "sp_type p \<in> set enumValues_PointType \<or> p = schema_point null_point"
  shows "datatype_count (point_datatype p) = None \<longleftrightarrow> unsupported p"
proof (cases "sp_type p = ''string''")
  case True
  then show ?thesis using string_count [of "sp_size p"]
    by (auto simp: point_datatype_def unsupported_def types_without_register_def)
next
  case False
  show ?thesis
  proof (cases "p = schema_point null_point")
    case True
    then show ?thesis
      by (simp add: unsupported_def point_datatype_def schema_point_def null_point_def zero_point_json_def datatype_count_def type_counts_def)
  next
    case p: False
    with assms have "sp_type p \<in> set enumValues_PointType" by blast
    moreover from this have "sp_type p \<noteq> []" by (auto simp: enumValues_PointType_def)
    ultimately show ?thesis using counted_types [of "sp_type p"] False by (simp add: unsupported_def point_datatype_def)
  qed
qed

lemma point_register_refused:
  assumes "datatype_count (point_datatype p) = None"
  shows "\<exists>err. point_register i model p = Inl err"
proof -
  have "SS_Init r = Inl ''unknown data type''" if "ss_DataType r = point_datatype p" for r using assms that by (simp add: SS_Init_def)
  then show ?thesis by (auto simp: point_register_def Let_def scale_fields_def zero_register_def split: sf.splits)
qed

lemma add_points_refused:
  "p \<in> set ps \<Longrightarrow> datatype_count (point_datatype p) = None \<Longrightarrow> \<exists>err. add_points i model ps st = Inl err"
proof (induction ps arbitrary: st)
  case (Cons q ps)
  obtain a h s where st: "st = (a, h, s)" by (cases st)
  show ?case
  proof (cases "p = q")
    case True
    with point_register_refused [OF Cons.prems(2), of i model] show ?thesis by (auto simp: st)
  next
    case False
    with Cons show ?thesis by (auto simp: st Let_def split: sum.split)
  qed
qed simp

lemma sunspec_children_refused:
  "e \<in> set es \<Longrightarrow> (\<And>st. \<exists>err. sunspec_child sch e st = Inl err) \<Longrightarrow> \<exists>err. sunspec_children sch es st = Inl err"
proof (induction es arbitrary: st)
  case (Cons d es)
  show ?case
  proof (cases "e = d")
    case True
    with Cons.prems(2) [of st] show ?thesis by auto
  next
    case False
    with Cons show ?thesis by (auto split: sum.split)
  qed
qed simp

text \<open>C38: models with some types cannot be served. The schema of models lists types that Init of a register does not know, and strings
  of any size where it knows two. A server whose configuration names a model with such a point refuses its whole configuration, although
  the model was read without an error; points of all other types get a register of between one and sixteen words.\<close>

theorem unsupported_model_refused:
  assumes "ReadModelSchema files i = Inr m" "e \<in> set es" "Tag e = ''model''" "SelectAttr e ''id'' = Some x" "Atoi x = (i, True)" "p \<in> set (sj_points m)"
  shows "if unsupported p then \<exists>err. SunSpec_Configure (schemas_of files) es st = Inl err
    else \<exists>n. datatype_count (point_datatype p) = Some n \<and> 1 \<le> n \<and> n \<le> 16"
proof -
  have "sp_type p \<in> set enumValues_PointType \<or> p = schema_point null_point"
    using model_typed_points(1) [OF assms(1)] assms(6) by blast
  note iff = unsupported_iff [OF this]
  show ?thesis
  proof (cases "unsupported p")
    case True
    have "\<exists>err. sunspec_child (schemas_of files) e st = Inl err" for st
    proof -
      obtain b cfg where st: "st = (b, cfg)" by (cases st)
      obtain err where "add_points i m (sj_points m) cfg = Inl err"
        using add_points_refused [OF assms(6)] iff True by blast
      then show ?thesis using assms(1,3-5)
        by (auto simp: st sunspec_child_def add_model_def GetModelSchema_def schemas_of_def split: prod.splits)
    qed
    note refused = sunspec_children_refused [OF assms(2) this]
    obtain h s where st: "st = (h, s)" by (cases st)
    obtain err where "sunspec_children (schemas_of files) es (False, 40002, h, s\<lparr>sv_registers := (sv_registers s)(40000 \<mapsto> 0)\<rparr>) = Inl err"
      using refused by blast
    then show ?thesis using True by (simp add: SunSpec_Configure_def st)
  next
    case False
    then obtain n where "datatype_count (point_datatype p) = Some n" using iff by auto
    with False datatype_count_bounds show ?thesis by auto
  qed
qed

section \<open>A model file\<close>

text \<open>A small model with a point of a type that has no register.\<close>

definition demo_point_json :: "string \<Rightarrow> string \<Rightarrow> nat \<Rightarrow> json" where
  "demo_point_json n t k = JObject [(''name'', JString n), (''type'', JString t), (''size'', JNumber (Decimal False k 0 True))]"

definition demo_model_file :: json where
  "demo_model_file =
     JObject [(''id'', JNumber (Decimal False 1 0 True)),
       (''group'', JObject [(''name'', JString ''common''), (''type'', JString ''group''),
          (''points'', JArray [demo_point_json ''ID'' ''uint16'' 1, demo_point_json ''L'' ''uint16'' 1, demo_point_json ''Energy'' ''uint64'' 4])])]"

lemma small_number: "k < 2 ^ 53 \<Longrightarrow> number_float64 (Decimal False k 0 True) \<noteq> None"
  using f64_of_int_exact(2) [of "int k"] f64_finite_not_special [of "f64_of_int (int k)"]
  by (simp add: f64_of_decimal_def f64_of_int_def Let_def)

lemma demo_point_decoded:
  assumes "t \<in> set enumValues_PointType" "k < 2 ^ 53"
  shows "Point_UnmarshalJSON (demo_point_json n t k) old = (null_point\<lparr>po_Name := n, po_Type := t, po_Size := int k\<rparr>, False)"
proof -
  have "int k < 2 ^ 63" using assms(2) by simp
  then show ?thesis using assms(1) small_number [OF assms(2)]
    by (simp add: Point_UnmarshalJSON_def demo_point_json_def unmarshal_with_def has_keys_def dec_struct_def pick_field_def point_fields_def
      into_def PointType_UnmarshalJSON_def dec_enum_def point_defaults_def absent_def null_point_def zero_point_json_def Let_def)
qed

definition demo_files :: model_files where
  "demo_files = [1 \<mapsto> Some demo_model_file]"

definition demo_read_point :: "string \<Rightarrow> string \<Rightarrow> nat \<Rightarrow> PointJson" where
  "demo_read_point n t k = null_point\<lparr>po_Name := n, po_Type := t, po_Size := int k\<rparr>"

lemma demo_types: "''uint16'' \<in> set enumValues_PointType" "''uint64'' \<in> set enumValues_PointType"
  by (simp_all add: enumValues_PointType_def)

lemma demo_group_decoded:
  "\<exists>g. Group_UnmarshalJSON (JObject [(''name'', JString ''common''), (''type'', JString ''group''),
       (''points'', JArray [demo_point_json ''ID'' ''uint16'' 1, demo_point_json ''L'' ''uint16'' 1, demo_point_json ''Energy'' ''uint64'' 4])]) old = (g, False) \<and>
     gr_Points (group_fields g) = [demo_read_point ''ID'' ''uint16'' 1, demo_read_point ''L'' ''uint16'' 1, demo_read_point ''Energy'' ''uint64'' 4]"
proof -
  have n: "numbers_ok (demo_point_json n t 1)" "numbers_ok (demo_point_json n t 4)" for n t
    using small_number [of 1] small_number [of 4] by (simp_all add: demo_point_json_def)
  have d: "Point_UnmarshalJSON (demo_point_json n ''uint16'' 1) old = (demo_read_point n ''uint16'' 1, False)"
    "Point_UnmarshalJSON (demo_point_json n ''uint64'' 4) old = (demo_read_point n ''uint64'' 4, False)" for n old
    unfolding demo_read_point_def by (rule demo_point_decoded; simp add: demo_types)+
  show ?thesis
    by (subst Group_UnmarshalJSON_rec)
      (simp add: unmarshal_with_def has_keys_def dec_struct_def pick_field_def group_decoders_def group_into_def into_def n [unfolded One_nat_def] d [unfolded One_nat_def]
      GroupType_UnmarshalJSON_def dec_enum_def enumValues_GroupType_def zero_group_def group_defaults_def absent_def)
qed

lemma demo_model_read:
  "ReadModelSchema demo_files 1 =
     Inr \<lparr>sj_id = 1, sj_points = map schema_point [demo_read_point ''ID'' ''uint16'' 1, demo_read_point ''L'' ''uint16'' 1, demo_read_point ''Energy'' ''uint64'' 4]\<rparr>"
proof -
  have n: "numbers_ok (demo_point_json n t 1)" "numbers_ok (demo_point_json n t 4)" "number_float64 (Decimal False 1 0 True) \<noteq> None" for n t
    using small_number [of 1] small_number [of 4] by (simp_all add: demo_point_json_def)
  obtain g where g: "Group_UnmarshalJSON (JObject [(''name'', JString ''common''), (''type'', JString ''group''),
       (''points'', JArray [demo_point_json ''ID'' ''uint16'' 1, demo_point_json ''L'' ''uint16'' 1, demo_point_json ''Energy'' ''uint64'' 4])]) zero_group = (g, False)"
     "gr_Points (group_fields g) = [demo_read_point ''ID'' ''uint16'' 1, demo_read_point ''L'' ''uint16'' 1, demo_read_point ''Energy'' ''uint64'' 4]"
    using demo_group_decoded by blast
  have "SchemaJson_UnmarshalJSON demo_model_file zero_model = (zero_model\<lparr>mj_Id := 1, mj_Group := g\<rparr>, False)"
    using n [unfolded One_nat_def] g(1) [unfolded One_nat_def]
    by (simp add: SchemaJson_UnmarshalJSON_def demo_model_file_def unmarshal_with_def has_keys_def dec_struct_def pick_field_def model_fields_def
      into_def zero_model_def del: number_float64.simps)
  then show ?thesis by (simp add: ReadModelSchema_def demo_files_def schema_model_def g(2))
qed

theorem model_well_typed_witness:
  "\<exists>s. ReadModelSchema demo_files 1 = Inr s \<and> length (sj_points s) = 3 \<and>
     (\<forall>p \<in> set (sj_points s). sp_type p \<in> set enumValues_PointType \<and> sp_access p \<in> {''R'', ''RW''} \<or> p = schema_point null_point)"
  using model_well_typed [OF demo_model_read] demo_model_read by auto

theorem unsupported_model_refused_witness:
  "\<exists>err. SunSpec_Configure (schemas_of demo_files) [node ''model'' [(''id'', ''1'')] [] []] (package_heap, NewSunSpecServer ''s'' \<lparr>sock = (\<lambda>_. True), attempts = 0, sent = []\<rparr>) = Inl err"
proof -
  let ?p = "schema_point (demo_read_point ''Energy'' ''uint64'' 4)"
  have u: "unsupported ?p" by (simp add: unsupported_def schema_point_def demo_read_point_def types_without_register_def)
  have e: "node ''model'' [(''id'', ''1'')] [] [] \<in> set [node ''model'' [(''id'', ''1'')] [] []]" by simp
  from unsupported_model_refused [OF demo_model_read e, of "''1''" ?p] u show ?thesis by (simp add: Atoi_one)
qed

text \<open>Null is refused where the schema has a default for it, because the method of the enumeration is called with it; where
  no method is called it is accepted, even for the fields of a point as a whole.\<close>

lemma dec_members_error: "(k, j) \<in> set ms \<Longrightarrow> (\<And>x. snd (f k j x)) \<Longrightarrow> snd (dec_members f ms x)"
proof (induction ms arbitrary: x)
  case (Cons m ms)
  have "snd (dec_members f (m # ms) x) \<longleftrightarrow> snd (f (fst m) (snd m) x) \<or> snd (dec_members f ms (fst (f (fst m) (snd m) x)))"
    by (cases m) (simp split: prod.split)
  with Cons show ?case by auto
qed simp

lemma null_access_refused:
  assumes "(''access'', JNull) \<in> set ms"
  shows "snd (Point_UnmarshalJSON (JObject ms) old)"
proof -
  have "snd (pick_field point_fields ''access'' JNull x)" for x
    by (simp add: pick_field_def point_fields_def into_def PointAccess_UnmarshalJSON_def dec_enum_def enumValues_PointAccess_def)
  from dec_members_error [where f = "pick_field point_fields", OF assms this] have "snd (dec_struct point_fields (JObject ms) zero_point_json)"
    by (simp add: dec_struct_def)
  then show ?thesis
    by (auto simp: Point_UnmarshalJSON_def unmarshal_with_def split: option.splits prod.splits bool.splits if_splits)
qed

lemma null_point_accepted: "Point_UnmarshalJSON JNull old = (null_point, False)"
  by (simp add: Point_UnmarshalJSON_def unmarshal_with_def has_keys_def dec_struct_def point_defaults_def absent_def null_point_def)

end
