(* ===== verification/Cpu.thy ===== *)
theory Cpu
  imports Subscriber Etree Util
begin

text \<open>
  The CPU module (cpu/cpu.go, execute.go, internal.go): it starts the programs of the
  other modules as child processes, restarts them when they die, stops them at the end,
  and enables and disables them on request. Every started module has a goroutine; its
  statements are atomic steps on the state of the package, and the branches of its
  select statements are enabled by the state. A request is handled in one step.
\<close>

section \<open>State\<close>

record module =
  mod_ctx :: "Context option"
  mod_name :: string
  mod_path :: string
  mod_args :: "string list"
  mod_workDir :: string
  mod_env :: "string list"
  canceler :: "nat option"
  initialized :: bool

record log_file =
  Filename :: string
  MaxSize :: int
  MaxBackups :: int
  MaxAge :: int
  Compress :: bool

record CPU =
  cpu_name :: string
  cpu_pubEndpoint :: string
  cpu_pullEndpoint :: string
  apiEndpoint :: string
  apiCACert :: string
  apiCert :: string
  apiKey :: string
  elasticEndpoint :: string
  elasticIndex :: string
  lokiEndpoint :: string
  cpu_logOutput :: "log_file option"

definition NewCPU :: "string \<Rightarrow> CPU" where
  "NewCPU name =
     \<lparr>cpu_name = name, cpu_pubEndpoint = [], cpu_pullEndpoint = [], apiEndpoint = [], apiCACert = [], apiCert = [],
      apiKey = [], elasticEndpoint = [], elasticIndex = [], lokiEndpoint = [], cpu_logOutput = None\<rparr>"

definition NewCpuModule :: "element \<Rightarrow> CPU result" where
  "NewCpuModule e = Inr (NewCPU (SelectAttrValue e ''name'' ''cpu''))"

text \<open>Child processes, and where the goroutine of a module is in its loop: before the start of the
  process, after it, after making the channel to cancel it, in the select on the process and on the
  channel it read, in the final select, or gone. A process that was sent SIGKILL, which it cannot handle, is
  killed until the system has ended it, and then has the exit code -1.\<close>

datatype proc_status = Running | Killed | Exited int

fun ended :: "proc_status \<Rightarrow> bool" where
  "ended (Exited code) = True"
| "ended _ = False"

record process =
  proc_exe :: string
  proc_args :: "string list"
  proc_env :: "string list"
  proc_dir :: string
  proc_status :: proc_status
  sigterm_sent :: bool

datatype phase =
    Launch
  | Launched nat
  | Armed nat
  | Waiting nat "nat option"
  | Draining nat
  | Returned

record goroutine =
  go_mod :: string
  go_exe :: string
  go_phase :: phase

text \<open>The package: its modules, the channels made so far and those closed, the goroutines, the processes, the
  wait group of the program, whether its context is done, and the pusher.\<close>

record cpu_state =
  modules :: "string \<rightharpoonup> module"
  next_chan :: nat
  closed :: "nat set"
  goroutines :: "goroutine list"
  processes :: "process list"
  waiter :: int
  ctx_done :: bool
  cpu_pusher :: Pusher

text \<open>What the operating system provides: its environment variables and the search for executables.\<close>

record os_api =
  os_environ :: "string list"
  LookPath :: "string \<Rightarrow> string option"

section \<open>cpu.go: the configuration\<close>

definition api_child :: "element \<Rightarrow> CPU \<Rightarrow> CPU" where
  "api_child e c =
     (if Tag e = ''endpoint'' then c\<lparr>apiEndpoint := Text e\<rparr>
      else if Tag e = ''tls-key'' then c\<lparr>apiKey := Text e\<rparr>
      else if Tag e = ''tls-certificate'' then c\<lparr>apiCert := Text e\<rparr>
      else if Tag e = ''ca-certificate'' then c\<lparr>apiCACert := Text e\<rparr>
      else c)"

definition log_file_of :: "element \<Rightarrow> log_file result" where
  "log_file_of e =
     (case Atoi (SelectAttrValue e ''size'' ''5'') of
        (sz, ok) \<Rightarrow> if \<not> ok then Inl ''parsing size attribute for log rotation'' else
      (case Atoi (SelectAttrValue e ''backups'' ''1'') of
        (backups, ok) \<Rightarrow> if \<not> ok then Inl ''parsing backups attribute for log rotation'' else
      (case Atoi (SelectAttrValue e ''age'' ''1'') of
        (age, ok) \<Rightarrow> if \<not> ok then Inl ''parsing age attribute for log rotation'' else
      (case ParseBool (SelectAttrValue e ''compress'' ''true'') of
        None \<Rightarrow> Inl ''parsing compress attribute for log rotation''
      | Some compress \<Rightarrow>
          Inr \<lparr>Filename = Text e, MaxSize = sz, MaxBackups = backups, MaxAge = age, Compress = compress\<rparr>))))"

fun logs_children :: "element list \<Rightarrow> CPU \<Rightarrow> string option \<times> CPU" where
  "logs_children [] c = (None, c)"
| "logs_children (e # es) c =
     (if Tag e = ''file'' then
        (case log_file_of e of
           Inl err \<Rightarrow> (Some err, c)
         | Inr f \<Rightarrow> logs_children es (c\<lparr>cpu_logOutput := Some f\<rparr>))
      else if Tag e = ''elastic'' then
        logs_children es (c\<lparr>elasticEndpoint := Text e, elasticIndex := SelectAttrValue e ''index'' ''ot-sim-logs''\<rparr>)
      else if Tag e = ''loki'' then logs_children es (c\<lparr>lokiEndpoint := Text e\<rparr>)
      else logs_children es c)"

definition module_of :: "element \<Rightarrow> module" where
  "module_of e =
     \<lparr>mod_ctx = None, mod_name = SelectAttrValue e ''name'' (Text e), mod_path = Text e, mod_args = [],
      mod_workDir = SelectAttrValue e ''workingDir'' [], mod_env = split_char CHR '':'' (SelectAttrValue e ''env'' []),
      canceler = None, initialized = False\<rparr>"

text \<open>The loop over the children; what was read before an error stays.\<close>

fun cpu_children :: "element list \<Rightarrow> CPU \<times> (string \<rightharpoonup> module) \<Rightarrow> string option \<times> CPU \<times> (string \<rightharpoonup> module)" where
  "cpu_children [] s = (None, s)"
| "cpu_children (e # es) (c, mods) =
     (if Tag e = ''pub-endpoint'' then cpu_children es (c\<lparr>cpu_pubEndpoint := Text e\<rparr>, mods)
      else if Tag e = ''pull-endpoint'' then cpu_children es (c\<lparr>cpu_pullEndpoint := Text e\<rparr>, mods)
      else if Tag e = ''api-endpoint'' then
        cpu_children es (if apiEndpoint c = [] then c\<lparr>apiEndpoint := Text e\<rparr> else c, mods)
      else if Tag e = ''api'' then cpu_children es (fold api_child (ChildElements e) c, mods)
      else if Tag e = ''logs'' then
        (case logs_children (ChildElements e) c of
           (Some err, c') \<Rightarrow> (Some err, c', mods)
         | (None, c') \<Rightarrow> cpu_children es (c', mods))
      else if Tag e = ''module'' then
        cpu_children es (c, mods(mod_name (module_of e) \<mapsto> module_of e))
      else cpu_children es (c, mods))"

definition Cpu_Configure ::
  "element \<Rightarrow> CPU \<times> (string \<rightharpoonup> module) \<Rightarrow> string option \<times> CPU \<times> (string \<rightharpoonup> module)" where
  "Cpu_Configure e s = cpu_children (ChildElements e) s"

section \<open>execute.go: starting a module\<close>

definition module_init :: "Context \<Rightarrow> module \<Rightarrow> module outcome" where
  "module_init ctx m =
     (if initialized m then Done m
      else case MustConfigFile ctx of
             Done config \<Rightarrow>
               (let parts = split_char CHR '' '' (ReplaceAll (mod_path m) ''{{config_file}}'' config)
                in Done (m\<lparr>mod_ctx := Some ctx, mod_path := hd parts, mod_args := tl parts, initialized := True\<rparr>))
           | Panic \<Rightarrow> Panic
           | Diverge \<Rightarrow> Diverge)"

text \<open>The modules of the map are pointers: initialisation is seen there even when the executable is not found.\<close>

definition StartModule :: "os_api \<Rightarrow> Context \<Rightarrow> module \<Rightarrow> cpu_state \<Rightarrow> (string option \<times> cpu_state) outcome" where
  "StartModule os ctx m w =
     (case module_init ctx m of
        Done m' \<Rightarrow>
          (let w1 = w\<lparr>modules := (modules w)(mod_name m' \<mapsto> m')\<rparr>
           in case LookPath os (mod_path m') of
                None \<Rightarrow> Done (Some ''module executable does not exist'', w1)
              | Some exePath \<Rightarrow>
                  Done (None, w1\<lparr>waiter := waiter w1 + 1,
                    goroutines := goroutines w1 @ [\<lparr>go_mod = mod_name m', go_exe = exePath, go_phase = Launch\<rparr>]\<rparr>))
      | Panic \<Rightarrow> Panic
      | Diverge \<Rightarrow> Diverge)"

section \<open>execute.go: the goroutine of a module\<close>

definition goto :: "nat \<Rightarrow> phase \<Rightarrow> cpu_state \<Rightarrow> cpu_state" where
  "goto i ph w = w\<lparr>goroutines := (goroutines w)[i := (goroutines w ! i)\<lparr>go_phase := ph\<rparr>]\<rparr>"

definition go_return :: "nat \<Rightarrow> cpu_state \<Rightarrow> cpu_state" where
  "go_return i w = (goto i Returned w)\<lparr>waiter := waiter w - 1\<rparr>"

definition set_status :: "nat \<Rightarrow> proc_status \<Rightarrow> cpu_state \<Rightarrow> cpu_state" where
  "set_status p st w = w\<lparr>processes := (processes w)[p := (processes w ! p)\<lparr>proc_status := st\<rparr>]\<rparr>"

text \<open>The methods Kill and Signal of a process; a process that has ended is left alone.\<close>

definition kill :: "nat \<Rightarrow> cpu_state \<Rightarrow> cpu_state" where
  "kill p w = (if proc_status (processes w ! p) = Running then set_status p Killed w else w)"

definition send_sigterm :: "nat \<Rightarrow> cpu_state \<Rightarrow> cpu_state" where
  "send_sigterm p w = w\<lparr>processes := (processes w)[p := (processes w ! p)\<lparr>sigterm_sent := True\<rparr>]\<rparr>"

definition set_canceler :: "string \<Rightarrow> nat option \<Rightarrow> cpu_state \<Rightarrow> cpu_state" where
  "set_canceler n ch w = w\<lparr>modules := (modules w)(n := map_option (\<lambda>m. m\<lparr>canceler := ch\<rparr>) (modules w n))\<rparr>"

definition command :: "os_api \<Rightarrow> goroutine \<Rightarrow> module \<Rightarrow> process" where
  "command os g m =
     \<lparr>proc_exe = go_exe g, proc_args = mod_args m, proc_env = os_environ os @ mod_env m, proc_dir = mod_workDir m,
      proc_status = Running, sigterm_sent = False\<rparr>"

text \<open>The statement of the goroutine that is executed, with the choice that the system makes: the start of the
  process succeeds or fails; the new channel; entering the select statement, which reads the channel; its
  three branches; the two branches of the final select statement.\<close>

datatype branch = StartOk | StartFailed | MakeCanceler | EnterSelect | OnWait | OnCanceler | OnDone | OnExit | OnTimeout

fun module_branch :: "os_api \<Rightarrow> branch \<Rightarrow> nat \<Rightarrow> goroutine \<Rightarrow> module \<Rightarrow> cpu_state \<Rightarrow> cpu_state option" where
  "module_branch os StartOk i g m w =
     (if go_phase g = Launch
      then Some (goto i (Launched (length (processes w))) (w\<lparr>processes := processes w @ [command os g m]\<rparr>)) else None)"
| "module_branch os StartFailed i g m w = (if go_phase g = Launch then Some (go_return i w) else None)"
| "module_branch os MakeCanceler i g m w =
     (case go_phase g of
        Launched p \<Rightarrow> Some (goto i (Armed p) (set_canceler (go_mod g) (Some (next_chan w)) (w\<lparr>next_chan := next_chan w + 1\<rparr>)))
      | _ \<Rightarrow> None)"
| "module_branch os EnterSelect i g m w =
     (case go_phase g of Armed p \<Rightarrow> Some (goto i (Waiting p (canceler m)) w) | _ \<Rightarrow> None)"
| "module_branch os OnWait i g m w =
     (case go_phase g of
        Waiting p ch \<Rightarrow>
          (case proc_status (processes w ! p) of
             Exited code \<Rightarrow> if code = ExitNoRestart then Some (go_return i w) else Some (goto i Launch w)
           | _ \<Rightarrow> None)
      | _ \<Rightarrow> None)"
| "module_branch os OnCanceler i g m w =
     (case go_phase g of
        Waiting p (Some ch) \<Rightarrow>
          if ch \<in> closed w then Some (goto i (Draining p) (set_canceler (go_mod g) None (send_sigterm p w))) else None
      | _ \<Rightarrow> None)"
| "module_branch os OnDone i g m w =
     (case go_phase g of
        Waiting p ch \<Rightarrow> if ctx_done w then Some (goto i (Draining p) (send_sigterm p w)) else None
      | _ \<Rightarrow> None)"
| "module_branch os OnExit i g m w =
     (case go_phase g of
        Draining p \<Rightarrow> if ended (proc_status (processes w ! p)) then Some (go_return i w) else None
      | _ \<Rightarrow> None)"
| "module_branch os OnTimeout i g m w =
     (case go_phase g of Draining p \<Rightarrow> Some (go_return i (kill p w)) | _ \<Rightarrow> None)"

definition goroutine_step :: "os_api \<Rightarrow> branch \<Rightarrow> nat \<Rightarrow> cpu_state \<Rightarrow> cpu_state option" where
  "goroutine_step os b i w =
     (if i < length (goroutines w)
      then case modules w (go_mod (goroutines w ! i)) of
             None \<Rightarrow> None
           | Some m \<Rightarrow> module_branch os b i (goroutines w ! i) m w
      else None)"

section \<open>internal.go: requests to enable and disable modules\<close>

type_synonym answers = "(string \<times> string) list"

text \<open>Assignment to a key of a map.\<close>

definition put :: "'k \<Rightarrow> 'v \<Rightarrow> ('k \<times> 'v) list \<Rightarrow> ('k \<times> 'v) list" where
  "put k v xs = (k, v) # filter (\<lambda>(k', _). k' \<noteq> k) xs"

definition state_text :: "module \<Rightarrow> string" where
  "state_text m = (if canceler m = None then ''disabled'' else ''enabled'')"

text \<open>Listing visits the modules in any order, an argument.\<close>

definition list_modules :: "string list \<Rightarrow> cpu_state \<Rightarrow> answers" where
  "list_modules order w = fold (\<lambda>m. put (mod_name m) (state_text m)) (List.map_filter (modules w) order) []"

text \<open>A module that was initialised once is started with the context it has.\<close>

fun enable_loop ::
  "os_api \<Rightarrow> string list \<Rightarrow> answers \<Rightarrow> answers \<Rightarrow> cpu_state \<Rightarrow> (answers \<times> answers \<times> cpu_state) outcome" where
  "enable_loop os [] results errs w = Done (results, errs, w)"
| "enable_loop os (name # names) results errs w =
     (case modules w name of
        None \<Rightarrow> enable_loop os names results (put name ''does not exist'' errs) w
      | Some m \<Rightarrow>
          if canceler m = None then
            (case (case mod_ctx m of None \<Rightarrow> Panic | Some ctx \<Rightarrow> StartModule os ctx m w) of
               Done (None, w') \<Rightarrow> enable_loop os names (put (mod_name m) ''enabled'' results) errs w'
             | Done (Some err, w') \<Rightarrow> enable_loop os names results (put (mod_name m) err errs) w'
             | Panic \<Rightarrow> Panic
             | Diverge \<Rightarrow> Diverge)
          else enable_loop os names results (put (mod_name m) ''already enabled'' errs) w)"

text \<open>Closing a channel that is closed is a panic.\<close>

definition close_chan :: "nat \<Rightarrow> cpu_state \<Rightarrow> cpu_state outcome" where
  "close_chan ch w = (if ch \<in> closed w then Panic else Done (w\<lparr>closed := insert ch (closed w)\<rparr>))"

fun disable_loop ::
  "string list \<Rightarrow> answers \<Rightarrow> answers \<Rightarrow> cpu_state \<Rightarrow> (answers \<times> answers \<times> cpu_state) outcome" where
  "disable_loop [] results errs w = Done (results, errs, w)"
| "disable_loop (name # names) results errs w =
     (case modules w name of
        None \<Rightarrow> disable_loop names results (put name ''does not exist'' errs) w
      | Some m \<Rightarrow>
          (case canceler m of
             None \<Rightarrow> disable_loop names results (put (mod_name m) ''already disabled'' errs) w
           | Some ch \<Rightarrow>
               (case close_chan ch w of
                  Done w' \<Rightarrow> disable_loop names (put (mod_name m) ''disabled'' results) errs w'
                | Panic \<Rightarrow> Panic
                | Diverge \<Rightarrow> Diverge)))"

definition confirm_control :: "string \<Rightarrow> answers \<Rightarrow> answers \<Rightarrow> cpu_state \<Rightarrow> string option \<times> cpu_state" where
  "confirm_control confirm results errs w =
     (if confirm = [] then (None, w)
      else case NewEnvelope ''CPU'' (C_Confirmation \<lparr>cf_confirm = confirm, cf_results = map (map_prod id JString) results, cf_errors = errs\<rparr>) of
             Inl err \<Rightarrow> (Some ''creating new confirmation envelope'', w)
           | Inr env \<Rightarrow> (case Push ''INTERNAL'' env (cpu_pusher w) of (err, p) \<Rightarrow> (err, w\<lparr>cpu_pusher := p\<rparr>)))"

definition module_control :: "os_api \<Rightarrow> string list \<Rightarrow> ModuleControl \<Rightarrow> cpu_state \<Rightarrow> (string option \<times> cpu_state) outcome" where
  "module_control os order control w =
     (if mc_recipient control \<noteq> [] \<and> mc_recipient control \<noteq> ''CPU'' then Done (None, w)
      else case enable_loop os (mc_enable control) (if mc_list control then list_modules order w else []) [] w of
             Done (results, errs, w1) \<Rightarrow>
               (case disable_loop (mc_disable control) results errs w1 of
                  Done (results', errs', w2) \<Rightarrow> Done (confirm_control (mc_confirm control) results' errs' w2)
                | Panic \<Rightarrow> Panic
                | Diverge \<Rightarrow> Diverge)
           | Panic \<Rightarrow> Panic
           | Diverge \<Rightarrow> Diverge)"

definition internalHandler :: "os_api \<Rightarrow> string list \<Rightarrow> json option \<Rightarrow> cpu_state \<Rightarrow> (string option \<times> cpu_state) outcome" where
  "internalHandler os order msg w =
     (case ParseEnvelope msg of
        Inl err \<Rightarrow> Done (Some ''creating new envelope'', w)
      | Inr env \<Rightarrow>
          if env_kind env = ENVELOPE_MODULE_CONTROL then
            (case env_ModuleControl env of
               (control, Some ErrKind) \<Rightarrow> Done (None, w)
             | (control, Some ErrUnmarshal) \<Rightarrow> Done (Some ''getting module controls from envelope'', w)
             | (control, None) \<Rightarrow> module_control os order control w)
          else Done (None, w))"

section \<open>api.go: modules\<close>

datatype http_body = No_Body | Text_Body string | Json_Body json

text \<open>A reply has the status 200 when the handler writes a body and no status.\<close>

record http_reply =
  http_status :: int
  http_body :: http_body

definition http_error :: "string \<Rightarrow> int \<Rightarrow> http_reply" where
  "http_error msg code = \<lparr>http_status = code, http_body = Text_Body msg\<rparr>"

definition write_header :: "int \<Rightarrow> http_reply" where
  "write_header code = \<lparr>http_status = code, http_body = No_Body\<rparr>"

definition write_json :: "json \<Rightarrow> http_reply" where
  "write_json j = \<lparr>http_status = 200, http_body = Json_Body j\<rparr>"

definition handleModules :: "string list \<Rightarrow> cpu_state \<Rightarrow> http_reply" where
  "handleModules order w = write_json (enc_string_map (list_modules order w))"

definition handleEnableModule :: "os_api \<Rightarrow> string \<Rightarrow> cpu_state \<Rightarrow> (http_reply \<times> cpu_state) outcome" where
  "handleEnableModule os name w =
     (case modules w name of
        None \<Rightarrow> Done (http_error ''module not found'' 400, w)
      | Some m \<Rightarrow>
          if canceler m \<noteq> None then Done (http_error ''module already enabled'' 400, w)
          else case (case mod_ctx m of None \<Rightarrow> Panic | Some ctx \<Rightarrow> StartModule os ctx m w) of
                 Done (Some err, w') \<Rightarrow> Done (http_error ''failed to enable module'' 500, w')
               | Done (None, w') \<Rightarrow> Done (write_header 204, w')
               | Panic \<Rightarrow> Panic
               | Diverge \<Rightarrow> Diverge)"

definition handleDisableModule :: "string \<Rightarrow> cpu_state \<Rightarrow> (http_reply \<times> cpu_state) outcome" where
  "handleDisableModule name w =
     (case modules w name of
        None \<Rightarrow> Done (http_error ''module not found'' 400, w)
      | Some m \<Rightarrow>
          (case canceler m of
             None \<Rightarrow> Done (http_error ''module already disabled'' 400, w)
           | Some ch \<Rightarrow>
               (case close_chan ch w of
                  Done w' \<Rightarrow> Done (write_header 204, w')
                | Panic \<Rightarrow> Panic
                | Diverge \<Rightarrow> Diverge)))"

section \<open>cpu.go: starting the modules\<close>

text \<open>The loop of Run over the modules, in the order of the visit.\<close>

fun start_modules :: "os_api \<Rightarrow> CPU \<Rightarrow> string list \<Rightarrow> Context \<Rightarrow> cpu_state \<Rightarrow> (string option \<times> cpu_state) outcome" where
  "start_modules os c [] ctx w = Done (None, w)"
| "start_modules os c (n # ns) ctx w =
     (case modules w n of
        None \<Rightarrow> start_modules os c ns ctx w
      | Some m \<Rightarrow>
          (let ctx' = ctxSetLokiEndpoint (ctxSetElasticIndex (ctxSetElasticEndpoint ctx (elasticEndpoint c)) (elasticIndex c)) (lokiEndpoint c)
           in case StartModule os ctx' m w of
                Done (None, w') \<Rightarrow> start_modules os c ns ctx' w'
              | Done (Some err, w') \<Rightarrow> Done (Some ''failed to start module'', w')
              | Panic \<Rightarrow> Panic
              | Diverge \<Rightarrow> Diverge))"

text \<open>The endpoints Run uses: those of the configuration, if it has them.\<close>

definition cpu_endpoints :: "CPU \<Rightarrow> string \<Rightarrow> string \<Rightarrow> string \<times> string" where
  "cpu_endpoints c pub pull =
     (if cpu_pubEndpoint c \<noteq> [] then cpu_pubEndpoint c else pub,
      if cpu_pullEndpoint c \<noteq> [] then cpu_pullEndpoint c else pull)"

definition Cpu_Run ::
  "os_api \<Rightarrow> zmq_api \<Rightarrow> CPU \<Rightarrow> string list \<Rightarrow> Context \<Rightarrow> string \<Rightarrow> string \<Rightarrow> cpu_state \<Rightarrow> (string option \<times> cpu_state) outcome" where
  "Cpu_Run os zmq c order ctx pub pull w =
     (case start_modules os c order ctx w of
        Done (None, w1) \<Rightarrow>
          (case MustNewPusher zmq (snd (cpu_endpoints c pub pull)) of
             Done p \<Rightarrow> Done (None, w1\<lparr>cpu_pusher := p\<rparr>)
           | Panic \<Rightarrow> Panic
           | Diverge \<Rightarrow> Diverge)
      | r \<Rightarrow> r)"

end
