(* ===== verification/CpuCorrect.thy ===== *)
theory CpuCorrect
  imports Cpu
begin

text \<open>
  What the CPU module promises: every running child process has exactly one goroutine
  that watches it, the wait group counts the goroutines that are left, shutdown ends
  all of them, and modules that die are started again. The last section shows what
  happens to a module that is gone but still counts as enabled.
\<close>

section \<open>The running module\<close>

text \<open>A running process ends with any code, a killed one with -1. Everything that happens in the process: steps of the goroutines, the end of child processes, the end of the
  program's context, and requests over the bus and the HTTP interface.\<close>

fun may_exit :: "proc_status \<Rightarrow> int \<Rightarrow> bool" where
  "may_exit Running code = True"
| "may_exit Killed code = (code = - 1)"
| "may_exit (Exited c) code = False"

inductive cpu_step :: "os_api \<Rightarrow> cpu_state \<Rightarrow> cpu_state \<Rightarrow> bool" for os where
  goroutine: "goroutine_step os b i w = Some w' \<Longrightarrow> cpu_step os w w'"
| process_exit: "p < length (processes w) \<Longrightarrow> may_exit (proc_status (processes w ! p)) code \<Longrightarrow>
    cpu_step os w (set_status p (Exited code) w)"
| context_done: "cpu_step os w (w\<lparr>ctx_done := True\<rparr>)"
| control: "internalHandler os order msg w = Done (err, w') \<Longrightarrow> cpu_step os w w'"
| api_enable: "handleEnableModule os name w = Done (reply, w') \<Longrightarrow> cpu_step os w w'"
| api_disable: "handleDisableModule name w = Done (reply, w') \<Longrightarrow> cpu_step os w w'"

abbreviation cpu_steps :: "os_api \<Rightarrow> cpu_state \<Rightarrow> cpu_state \<Rightarrow> bool" where
  "cpu_steps os \<equiv> (cpu_step os)\<^sup>*\<^sup>*"

section \<open>The invariant\<close>

fun phase_proc :: "phase \<Rightarrow> nat option" where
  "phase_proc (Launched p) = Some p"
| "phase_proc (Armed p) = Some p"
| "phase_proc (Waiting p ch) = Some p"
| "phase_proc (Draining p) = Some p"
| "phase_proc _ = None"

text \<open>The goroutine with a number watches a process.\<close>

definition supervises :: "cpu_state \<Rightarrow> nat \<Rightarrow> nat \<Rightarrow> bool" where
  "supervises w i p \<longleftrightarrow> i < length (goroutines w) \<and> phase_proc (go_phase (goroutines w ! i)) = Some p"

definition live :: "cpu_state \<Rightarrow> nat" where
  "live w = length (filter (\<lambda>g. go_phase g \<noteq> Returned) (goroutines w))"

definition keys_ok :: "(string \<rightharpoonup> module) \<Rightarrow> bool" where
  "keys_ok mods \<longleftrightarrow> (\<forall>n m. mods n = Some m \<longrightarrow> mod_name m = n \<and> (mod_ctx m = None \<longrightarrow> \<not> initialized m))"

definition chans_ok :: "cpu_state \<Rightarrow> bool" where
  "chans_ok w \<longleftrightarrow> (\<forall>ch \<in> closed w. ch < next_chan w) \<and>
     (\<forall>n m ch. modules w n = Some m \<longrightarrow> canceler m = Some ch \<longrightarrow> ch < next_chan w)"

definition watched :: "cpu_state \<Rightarrow> bool" where
  "watched w \<longleftrightarrow>
     (\<forall>i p. supervises w i p \<longrightarrow> p < length (processes w)) \<and>
     (\<forall>i j p. supervises w i p \<longrightarrow> supervises w j p \<longrightarrow> i = j) \<and>
     (\<forall>p < length (processes w). proc_status (processes w ! p) = Running \<longrightarrow> (\<exists>i. supervises w i p))"

definition cpu_ok :: "cpu_state \<Rightarrow> bool" where
  "cpu_ok w \<longleftrightarrow> keys_ok (modules w) \<and> chans_ok w \<and> watched w \<and> waiter w = int (live w) \<and>
     (\<forall>g \<in> set (goroutines w). modules w (go_mod g) \<noteq> None)"

lemma cpu_okI:
  assumes "keys_ok (modules w)" "chans_ok w" "watched w" "waiter w = int (live w)"
    "\<forall>g \<in> set (goroutines w). modules w (go_mod g) \<noteq> None"
  shows "cpu_ok w"
  using assms by (simp add: cpu_ok_def)

lemma cpu_okD:
  assumes "cpu_ok w"
  shows "keys_ok (modules w)" "chans_ok w" "watched w" "waiter w = int (live w)"
    "g \<in> set (goroutines w) \<Longrightarrow> modules w (go_mod g) \<noteq> None"
  using assms by (simp_all add: cpu_ok_def)

section \<open>Requests\<close>

text \<open>
  What a request may do: start goroutines of known modules, each counted, and close
  channels; modules keep their names and channels.
\<close>

definition mod_kept :: "module option \<Rightarrow> module option \<Rightarrow> bool" where
  "mod_kept a b \<longleftrightarrow> (case (a, b) of
      (None, None) \<Rightarrow> True
    | (Some m, Some m') \<Rightarrow> mod_name m' = mod_name m \<and> canceler m' = canceler m \<and>
        ((mod_ctx m = None \<longrightarrow> \<not> initialized m) \<longrightarrow> mod_ctx m' = None \<longrightarrow> \<not> initialized m')
    | _ \<Rightarrow> False)"

definition request_effect :: "cpu_state \<Rightarrow> cpu_state \<Rightarrow> bool" where
  "request_effect w w' \<longleftrightarrow>
     processes w' = processes w \<and> next_chan w' = next_chan w \<and> ctx_done w' = ctx_done w \<and>
     closed w \<subseteq> closed w' \<and> (\<forall>ch \<in> closed w' - closed w. \<exists>n m. modules w n = Some m \<and> canceler m = Some ch) \<and>
     (\<forall>n. mod_kept (modules w n) (modules w' n)) \<and>
     (\<exists>new. goroutines w' = goroutines w @ new \<and> waiter w' = waiter w + int (length new) \<and>
        (\<forall>g \<in> set new. go_phase g = Launch \<and> modules w (go_mod g) \<noteq> None))"

lemma mod_kept_refl [simp]: "mod_kept a a"
  by (simp add: mod_kept_def split: option.split)

lemma mod_kept_None: "mod_kept a b \<Longrightarrow> b = None \<longleftrightarrow> a = None"
  by (auto simp: mod_kept_def split: option.splits)

lemma mod_kept_Some:
  "mod_kept (Some m) b \<Longrightarrow> \<exists>m'. b = Some m' \<and> mod_name m' = mod_name m \<and> canceler m' = canceler m"
  by (auto simp: mod_kept_def split: option.splits)

lemma mod_kept_trans: "mod_kept a b \<Longrightarrow> mod_kept b c \<Longrightarrow> mod_kept a c"
  by (cases a; cases b; cases c) (auto simp: mod_kept_def)

lemma request_effect_refl [simp]: "request_effect w w"
  by (auto simp: request_effect_def)

lemma request_effectD:
  assumes "request_effect w w'"
  shows "processes w' = processes w" "next_chan w' = next_chan w" "ctx_done w' = ctx_done w" "closed w \<subseteq> closed w'"
    "\<And>ch. ch \<in> closed w' \<Longrightarrow> ch \<notin> closed w \<Longrightarrow> \<exists>n m. modules w n = Some m \<and> canceler m = Some ch"
    "\<And>n. mod_kept (modules w n) (modules w' n)"
  using assms unfolding request_effect_def by blast+

lemma request_effect_new:
  assumes "request_effect w w'"
  obtains new where "goroutines w' = goroutines w @ new" "waiter w' = waiter w + int (length new)"
    "\<forall>g \<in> set new. go_phase g = Launch \<and> modules w (go_mod g) \<noteq> None"
  using assms unfolding request_effect_def by blast

lemma kept_canceler:
  assumes "mod_kept a b" "b = Some m'" "canceler m' = Some ch"
  shows "\<exists>m. a = Some m \<and> canceler m = Some ch"
  using assms by (auto simp: mod_kept_def split: option.splits)

lemma request_effect_trans:
  assumes a: "request_effect w1 w2" and b: "request_effect w2 w3"
  shows "request_effect w1 w3"
proof -
  obtain n1 where n1: "goroutines w2 = goroutines w1 @ n1" "waiter w2 = waiter w1 + int (length n1)"
    "\<forall>g \<in> set n1. go_phase g = Launch \<and> modules w1 (go_mod g) \<noteq> None" by (rule request_effect_new [OF a])
  obtain n2 where n2: "goroutines w3 = goroutines w2 @ n2" "waiter w3 = waiter w2 + int (length n2)"
    "\<forall>g \<in> set n2. go_phase g = Launch \<and> modules w2 (go_mod g) \<noteq> None" by (rule request_effect_new [OF b])
  have new: "\<exists>new. goroutines w3 = goroutines w1 @ new \<and> waiter w3 = waiter w1 + int (length new) \<and>
      (\<forall>g \<in> set new. go_phase g = Launch \<and> modules w1 (go_mod g) \<noteq> None)"
    by (rule exI [of _ "n1 @ n2"]) (use n1 n2 mod_kept_None [OF request_effectD(6) [OF a]] in auto)
  have closed: "\<exists>n m. modules w1 n = Some m \<and> canceler m = Some ch" if "ch \<in> closed w3" "ch \<notin> closed w1" for ch
  proof (cases "ch \<in> closed w2")
    case True
    with request_effectD(5) [OF a] that show ?thesis by blast
  next
    case False
    with request_effectD(5) [OF b] that obtain n m where "modules w2 n = Some m" "canceler m = Some ch" by blast
    with kept_canceler [OF request_effectD(6) [OF a]] show ?thesis by blast
  qed
  show ?thesis
    unfolding request_effect_def
    using new closed request_effectD(1-4) [OF a] request_effectD(1-4) [OF b]
      mod_kept_trans [OF request_effectD(6) [OF a] request_effectD(6) [OF b]]
    by (intro conjI) auto
qed

lemma live_append: "\<forall>g \<in> set new. go_phase g = Launch \<Longrightarrow> goroutines w' = goroutines w @ new \<Longrightarrow> live w' = live w + length new"
  by (simp add: live_def)

lemma supervises_append:
  assumes "goroutines w' = goroutines w @ new" "\<And>g. g \<in> set new \<Longrightarrow> go_phase g = Launch"
  shows "supervises w' i p \<longleftrightarrow> supervises w i p"
proof (cases "i < length (goroutines w)")
  case True
  then show ?thesis by (simp add: supervises_def assms(1) nth_append)
next
  case False
  have "go_phase (new ! (i - length (goroutines w))) = Launch" if "i < length (goroutines w) + length new"
    using that False by (intro assms(2) nth_mem) auto
  with False show ?thesis by (auto simp: supervises_def assms(1) nth_append)
qed

lemma watched_cong:
  assumes "processes w' = processes w" "\<And>i p. supervises w' i p \<longleftrightarrow> supervises w i p"
  shows "watched w' \<longleftrightarrow> watched w"
  by (simp add: watched_def assms)

lemma keys_ok_effect:
  assumes "keys_ok (modules w)" "request_effect w w'"
  shows "keys_ok (modules w')"
  unfolding keys_ok_def
proof (intro allI impI)
  fix n m' assume m': "modules w' n = Some m'"
  note k = request_effectD(6) [OF assms(2), of n]
  with m' obtain m where m: "modules w n = Some m" by (cases "modules w n") (auto simp: mod_kept_def)
  with assms(1) have "mod_name m = n" "mod_ctx m = None \<longrightarrow> \<not> initialized m" by (simp_all add: keys_ok_def)
  with k m m' show "mod_name m' = n \<and> (mod_ctx m' = None \<longrightarrow> \<not> initialized m')" by (simp add: mod_kept_def)
qed

text \<open>The interface of a request: whatever it answers, its effect is one of those above.\<close>

locale request =
  fixes handle :: "cpu_state \<Rightarrow> ('r \<times> cpu_state) outcome"
  assumes effect: "keys_ok (modules w) \<Longrightarrow> handle w = Done (r, w') \<Longrightarrow> request_effect w w'"
begin

lemma keeps_keys:
  assumes "keys_ok (modules w)" "handle w = Done (r, w')"
  shows "keys_ok (modules w')"
  using keys_ok_effect [OF assms(1) effect [OF assms]] .

lemma keeps_chans:
  assumes "keys_ok (modules w)" "chans_ok w" "handle w = Done (r, w')"
  shows "chans_ok w'"
proof -
  note e = effect [OF assms(1,3)]
  have old: "ch < next_chan w" if "modules w n = Some m" "canceler m = Some ch" for n m ch
    using assms(2) that by (simp add: chans_ok_def)
  have "ch < next_chan w'" if "ch \<in> closed w'" for ch
    using that assms(2) old request_effectD(2) [OF e] request_effectD(5) [OF e, of ch]
    by (cases "ch \<in> closed w") (auto simp: chans_ok_def)
  moreover have "ch < next_chan w'" if "modules w' n = Some m'" "canceler m' = Some ch" for n m' ch
    using kept_canceler [OF request_effectD(6) [OF e] that] old request_effectD(2) [OF e] by auto
  ultimately show ?thesis by (simp add: chans_ok_def)
qed

theorem keeps_ok:
  assumes ok: "cpu_ok w" and h: "handle w = Done (r, w')"
  shows "cpu_ok w'"
proof (rule cpu_okI)
  note e = effect [OF cpu_okD(1) [OF ok] h]
  obtain new where new: "goroutines w' = goroutines w @ new" "waiter w' = waiter w + int (length new)"
    "\<forall>g \<in> set new. go_phase g = Launch \<and> modules w (go_mod g) \<noteq> None" by (rule request_effect_new [OF e])
  show "keys_ok (modules w')" using keeps_keys [OF cpu_okD(1) [OF ok] h] .
  show "chans_ok w'" using keeps_chans [OF cpu_okD(1,2) [OF ok] h] .
  show "watched w'"
    using cpu_okD(3) [OF ok] watched_cong [OF request_effectD(1) [OF e] supervises_append [OF new(1)]] new(3) by blast
  show "waiter w' = int (live w')" using new(2,3) live_append [OF _ new(1)] cpu_okD(4) [OF ok] by simp
  show "\<forall>g \<in> set (goroutines w'). modules w' (go_mod g) \<noteq> None"
    using new(1,3) cpu_okD(5) [OF ok] mod_kept_None [OF request_effectD(6) [OF e]] by auto
qed

end

lemma module_init_kept:
  assumes "module_init ctx m = Done m'"
  shows "mod_name m' = mod_name m" "canceler m' = canceler m" "mod_kept (Some m) (Some m')"
  using assms by (auto simp: module_init_def mod_kept_def Let_def split: if_splits outcome.splits)

lemma StartModule_cases:
  assumes "StartModule os ctx m w = Done (err, w')"
  obtains (missing) m' where "module_init ctx m = Done m'" "err = Some ''module executable does not exist''"
      "w' = w\<lparr>modules := (modules w)(mod_name m \<mapsto> m')\<rparr>"
    | (started) m' exe where "module_init ctx m = Done m'" "LookPath os (mod_path m') = Some exe" "err = None"
      "w' = w\<lparr>modules := (modules w)(mod_name m \<mapsto> m'), waiter := waiter w + 1,
              goroutines := goroutines w @ [\<lparr>go_mod = mod_name m, go_exe = exe, go_phase = Launch\<rparr>]\<rparr>"
  using assms by (auto simp: StartModule_def Let_def module_init_kept(1) split: outcome.splits option.splits)

lemma StartModule_effect:
  assumes m: "modules w (mod_name m) = Some m" and st: "StartModule os ctx m w = Done (err, w')"
  shows "request_effect w w'"
  using st
proof (cases rule: StartModule_cases)
  case (missing m')
  with m module_init_kept(3) [OF missing(1)] show ?thesis by (auto simp: request_effect_def)
next
  case (started m' exe)
  with m module_init_kept(3) [OF started(1)] show ?thesis by (auto simp: request_effect_def)
qed

text \<open>What every start of a disabled module keeps, a request to enable modules keeps.\<close>

lemma enable_loop_keeps:
  assumes start: "\<And>w m ctx e w'. keys_ok (modules w) \<Longrightarrow> P w \<Longrightarrow> modules w (mod_name m) = Some m \<Longrightarrow> canceler m = None \<Longrightarrow>
      StartModule os ctx m w = Done (e, w') \<Longrightarrow> P w'"
  shows "keys_ok (modules w) \<Longrightarrow> P w \<Longrightarrow> enable_loop os names res errs w = Done (res', errs', w') \<Longrightarrow> P w'"
proof (induction names arbitrary: res errs w)
  case (Cons name names)
  show ?case
  proof (cases "\<exists>m ctx. modules w name = Some m \<and> canceler m = None \<and> mod_ctx m = Some ctx")
    case True
    then obtain m ctx where m: "modules w name = Some m" "canceler m = None" "mod_ctx m = Some ctx" by blast
    then have n: "modules w (mod_name m) = Some m" using Cons.prems(1) by (simp add: keys_ok_def)
    from Cons.prems(3) m obtain e w1 where e: "StartModule os ctx m w = Done (e, w1)" by (auto split: outcome.splits)
    have rest: "\<exists>res errs. enable_loop os names res errs w1 = Done (res', errs', w')"
      using Cons.prems(3) m e by (cases e) auto
    have "keys_ok (modules w1)" by (rule keys_ok_effect [OF Cons.prems(1) StartModule_effect [OF n e]])
    with rest Cons.IH start [OF Cons.prems(1,2) n m(2) e] show ?thesis by blast
  next
    case False
    with Cons.prems(3) have "\<exists>res errs. enable_loop os names res errs w = Done (res', errs', w')"
      by (auto split: option.splits if_splits)
    with Cons.IH Cons.prems(1,2) show ?thesis by blast
  qed
qed simp

lemma enable_loop_effect:
  assumes "keys_ok (modules w)" "enable_loop os names res errs w = Done (res', errs', w')"
  shows "request_effect w w'"
  by (rule enable_loop_keeps [OF _ assms(1) _ assms(2)]) (blast intro: request_effect_trans StartModule_effect request_effect_refl)+

lemma close_chan_effect:
  assumes "modules w n = Some m" "canceler m = Some ch" "close_chan ch w = Done w'"
  shows "request_effect w w'"
  using assms by (auto simp: close_chan_def request_effect_def split: if_splits intro!: exI [of _ n] exI [of _ m])

lemma disable_loop_effect:
  "disable_loop names res errs w = Done (res', errs', w') \<Longrightarrow> request_effect w w'"
proof (induction names arbitrary: res errs w)
  case (Cons name names)
  show ?case
  proof (cases "\<exists>m ch. modules w name = Some m \<and> canceler m = Some ch")
    case True
    then obtain m ch where m: "modules w name = Some m" "canceler m = Some ch" by blast
    with Cons.prems obtain w1 where w1: "close_chan ch w = Done w1"
      "disable_loop names (put (mod_name m) ''disabled'' res) errs w1 = Done (res', errs', w')"
      by (auto split: outcome.splits)
    from request_effect_trans [OF close_chan_effect [OF m w1(1)] Cons.IH [OF w1(2)]] show ?thesis .
  next
    case False
    with Cons show ?thesis by (cases "modules w name") auto
  qed
qed simp

lemma confirm_control_effect: "request_effect w (snd (confirm_control confirm results errs w))"
  by (auto simp: confirm_control_def request_effect_def split: sum.split prod.split)

lemma module_control_effect:
  assumes "keys_ok (modules w)" "module_control os order control w = Done (err, w')"
  shows "request_effect w w'"
proof (cases "mc_recipient control \<noteq> [] \<and> mc_recipient control \<noteq> ''CPU''")
  case True
  with assms(2) show ?thesis by (simp add: module_control_def)
next
  case False
  with assms(2) obtain r e w1 r' e' w2 where
    en: "enable_loop os (mc_enable control) (if mc_list control then list_modules order w else []) [] w = Done (r, e, w1)"
    and dis: "disable_loop (mc_disable control) r e w1 = Done (r', e', w2)"
    and w': "w' = snd (confirm_control (mc_confirm control) r' e' w2)"
    by (auto simp: module_control_def split: outcome.splits)
  show ?thesis
    unfolding w'
    by (rule request_effect_trans [OF enable_loop_effect [OF assms(1) en]
          request_effect_trans [OF disable_loop_effect [OF dis] confirm_control_effect]])
qed

interpretation ctl: request "internalHandler os order msg" for os order msg
  by unfold_locales
    (auto simp: internalHandler_def dest: module_control_effect split: sum.splits if_splits prod.splits option.splits access_error.splits)

interpretation api_en: request "handleEnableModule os name" for os name
  by unfold_locales
    (auto simp: handleEnableModule_def keys_ok_def dest!: StartModule_effect [rotated]
      split: option.splits if_splits outcome.splits prod.splits)

interpretation api_dis: request "handleDisableModule name" for name
  by unfold_locales
    (auto simp: handleDisableModule_def dest: close_chan_effect split: option.splits outcome.splits)

section \<open>Steps of the goroutines\<close>

lemma goto_simps [simp]:
  "modules (goto i ph w) = modules w" "processes (goto i ph w) = processes w" "closed (goto i ph w) = closed w"
  "next_chan (goto i ph w) = next_chan w" "waiter (goto i ph w) = waiter w" "ctx_done (goto i ph w) = ctx_done w"
  "length (goroutines (goto i ph w)) = length (goroutines w)"
  by (simp_all add: goto_def)

lemma go_return_simps [simp]:
  "modules (go_return i w) = modules w" "processes (go_return i w) = processes w" "closed (go_return i w) = closed w"
  "next_chan (go_return i w) = next_chan w" "waiter (go_return i w) = waiter w - 1" "ctx_done (go_return i w) = ctx_done w"
  "goroutines (go_return i w) = goroutines (goto i Returned w)"
  by (simp_all add: go_return_def)

lemma ended_not_running: "ended st \<Longrightarrow> st \<noteq> Running"
  by auto

lemma ended_iff: "ended st \<longleftrightarrow> (\<exists>code. st = Exited code)"
  by (cases st) auto

lemma set_status_simps [simp]:
  "modules (set_status p st w) = modules w" "closed (set_status p st w) = closed w" "next_chan (set_status p st w) = next_chan w"
  "waiter (set_status p st w) = waiter w" "ctx_done (set_status p st w) = ctx_done w" "goroutines (set_status p st w) = goroutines w"
  "length (processes (set_status p st w)) = length (processes w)"
  "q < length (processes w) \<Longrightarrow> proc_status (processes (set_status p st w) ! q) = (if q = p then st else proc_status (processes w ! q))"
  by (simp_all add: set_status_def nth_list_update)

lemma kill_simps [simp]:
  "modules (kill p w) = modules w" "closed (kill p w) = closed w" "next_chan (kill p w) = next_chan w" "waiter (kill p w) = waiter w"
  "ctx_done (kill p w) = ctx_done w" "goroutines (kill p w) = goroutines w" "length (processes (kill p w)) = length (processes w)"
  "q < length (processes w) \<Longrightarrow> proc_status (processes (kill p w) ! q) =
     (if q = p \<and> proc_status (processes w ! q) = Running then Killed else proc_status (processes w ! q))"
  by (auto simp: kill_def)

lemma send_sigterm_simps [simp]:
  "modules (send_sigterm p w) = modules w" "closed (send_sigterm p w) = closed w" "next_chan (send_sigterm p w) = next_chan w"
  "waiter (send_sigterm p w) = waiter w" "ctx_done (send_sigterm p w) = ctx_done w" "goroutines (send_sigterm p w) = goroutines w"
  "length (processes (send_sigterm p w)) = length (processes w)"
  "q < length (processes w) \<Longrightarrow> proc_status (processes (send_sigterm p w) ! q) = proc_status (processes w ! q)"
  by (simp_all add: send_sigterm_def) (cases "p = q"; simp)

lemma set_canceler_simps [simp]:
  "processes (set_canceler n ch w) = processes w" "closed (set_canceler n ch w) = closed w" "next_chan (set_canceler n ch w) = next_chan w"
  "waiter (set_canceler n ch w) = waiter w" "ctx_done (set_canceler n ch w) = ctx_done w" "goroutines (set_canceler n ch w) = goroutines w"
  "modules (set_canceler n ch w) k = None \<longleftrightarrow> modules w k = None"
  by (simp_all add: set_canceler_def)

lemma keys_ok_set_canceler [simp]: "keys_ok (modules (set_canceler n ch w)) \<longleftrightarrow> keys_ok (modules w)"
  unfolding keys_ok_def set_canceler_def by (auto split: if_splits)

lemma chans_ok_set_canceler:
  assumes "chans_ok w" "\<And>c. ch = Some c \<Longrightarrow> c < next_chan w"
  shows "chans_ok (set_canceler n ch w)"
  using assms unfolding chans_ok_def by (auto simp: set_canceler_def split: if_splits)

lemma chans_ok_cong:
  assumes "modules w' = modules w" "closed w' = closed w" "next_chan w \<le> next_chan w'" "chans_ok w"
  shows "chans_ok w'"
proof -
  have "ch < next_chan w'" if "ch < next_chan w" for ch using that assms(3) by simp
  with assms(4) show ?thesis unfolding chans_ok_def assms(1,2) by blast
qed

lemma supervises_goto:
  "supervises (goto i ph w) j p \<longleftrightarrow>
     (if j = i then i < length (goroutines w) \<and> phase_proc ph = Some p else supervises w j p)"
  by (auto simp: supervises_def goto_def)

lemma filter_update_count:
  assumes "i < length xs"
  shows "int (length (filter P (xs[i := y]))) =
    int (length (filter P xs)) - (if P (xs ! i) then 1 else 0) + (if P y then 1 else 0)"
proof -
  have "filter P xs = filter P (take i xs) @ filter P [xs ! i] @ filter P (drop (Suc i) xs)"
    using assms by (metis append_Cons append_Nil filter_append id_take_nth_drop)
  moreover have "filter P (xs[i := y]) = filter P (take i xs) @ filter P [y] @ filter P (drop (Suc i) xs)"
    using assms by (simp add: upd_conv_take_nth_drop)
  ultimately show ?thesis by simp
qed

lemma live_goto:
  assumes "i < length (goroutines w)"
  shows "int (live (goto i ph w)) = int (live w) - (if go_phase (goroutines w ! i) \<noteq> Returned then 1 else 0) + (if ph \<noteq> Returned then 1 else 0)"
  using filter_update_count [OF assms, of "\<lambda>g. go_phase g \<noteq> Returned"] by (simp add: live_def goto_def)

lemma live_cong: "goroutines w' = goroutines w \<Longrightarrow> live w' = live w"
  by (simp add: live_def)

lemma supervises_cong: "goroutines w' = goroutines w \<Longrightarrow> supervises w' i p \<longleftrightarrow> supervises w i p"
  by (simp add: supervises_def)

text \<open>A goroutine that goes on watching the same process, one that lets go of a process that has ended, and one
  that has just started one.\<close>

lemma watched_same:
  assumes w: "watched w" and g: "goroutines w' = goroutines (goto i ph w)"
    and q: "phase_proc ph = phase_proc (go_phase (goroutines w ! i))"
    and len: "length (processes w') = length (processes w)"
    and st: "\<And>p. p < length (processes w) \<Longrightarrow> proc_status (processes w' ! p) = Running \<Longrightarrow> proc_status (processes w ! p) = Running"
  shows "watched w'"
proof -
  have "supervises w' j p \<longleftrightarrow> supervises w j p" for j p
    unfolding supervises_cong [OF g] supervises_goto by (auto simp: supervises_def q)
  with w st show ?thesis unfolding watched_def len by blast
qed

lemma watched_release:
  assumes w: "watched w" and g: "goroutines w' = goroutines (goto i ph w)" and q: "phase_proc ph = None"
    and len: "length (processes w') = length (processes w)"
    and st: "\<And>p. p < length (processes w) \<Longrightarrow> proc_status (processes w' ! p) = Running \<Longrightarrow>
      proc_status (processes w ! p) = Running \<and> \<not> supervises w i p"
  shows "watched w'"
proof -
  have "supervises w' j p \<longleftrightarrow> j \<noteq> i \<and> supervises w j p" for j p
    unfolding supervises_cong [OF g] supervises_goto by (auto simp: q)
  with w st show ?thesis unfolding watched_def len by metis
qed

lemma watched_fresh:
  assumes w: "watched w" and g: "goroutines w' = goroutines (goto i (Launched (length (processes w))) w)"
    and i: "i < length (goroutines w)" "phase_proc (go_phase (goroutines w ! i)) = None"
    and pr: "processes w' = processes w @ [pr]"
  shows "watched w'"
proof -
  let ?n = "length (processes w)"
  have sup: "supervises w' j p \<longleftrightarrow> (if j = i then p = ?n else supervises w j p)" for j p
    unfolding supervises_cong [OF g] supervises_goto using i(1) by auto
  have no: "\<not> supervises w i p" for p using i(2) by (simp add: supervises_def)
  have bound: "p < ?n" if "supervises w j p" for j p using w that by (simp add: watched_def)
  have "\<exists>j. supervises w' j p" if "p < length (processes w')" "proc_status (processes w' ! p) = Running" for p
  proof (cases "p = ?n")
    case True
    then have "supervises w' i p" by (simp add: sup)
    then show ?thesis ..
  next
    case False
    with that pr have "p < ?n" "proc_status (processes w ! p) = Running" by (auto simp: nth_append split: if_splits)
    with w obtain j where "supervises w j p" unfolding watched_def by blast
    moreover from this no have "j \<noteq> i" by blast
    ultimately have "supervises w' j p" by (simp add: sup)
    then show ?thesis ..
  qed
  moreover have "p < length (processes w')" if "supervises w' j p" for j p
    using that sup bound [of j p] pr by (auto split: if_splits)
  moreover have "j = k" if "supervises w' j p" "supervises w' k p" for j k p
  proof (cases "p = ?n")
    case True
    then have "\<not> supervises w j p" for j using bound [of j p] by blast
    with that sup show ?thesis by (auto split: if_splits)
  next
    case False
    with that sup have "supervises w j p" "supervises w k p" by (auto split: if_splits)
    with w show ?thesis unfolding watched_def by blast
  qed
  ultimately show ?thesis unfolding watched_def by blast
qed

lemma waiter_goto:
  assumes "waiter w = int (live w)" "i < length (goroutines w)" "go_phase (goroutines w ! i) \<noteq> Returned"
    "goroutines w' = goroutines (goto i ph w)" "waiter w' = waiter w - (if ph = Returned then 1 else 0)"
  shows "waiter w' = int (live w')"
  using live_goto [OF assms(2), of ph] assms live_cong [OF assms(4)] by simp

lemma go_mods_goto:
  assumes "\<forall>g \<in> set (goroutines w). mods (go_mod g) \<noteq> None" "i < length (goroutines w)"
    "goroutines w' = goroutines (goto i ph w)"
  shows "\<forall>g \<in> set (goroutines w'). mods (go_mod g) \<noteq> None"
proof
  fix g assume "g \<in> set (goroutines w')"
  then have "g \<in> set (goroutines w) \<or> g = (goroutines w ! i)\<lparr>go_phase := ph\<rparr>"
    unfolding assms(3) goto_def using set_update_subset_insert by fastforce
  with assms(1,2) show "mods (go_mod g) \<noteq> None" by auto
qed

text \<open>One step changes the phase of one goroutine, and nothing else that the invariant speaks of but the status of
  its process and the channel of its module.\<close>

lemma cpu_ok_goto:
  assumes ok: "cpu_ok w" and i: "i < length (goroutines w)" "go_phase (goroutines w ! i) \<noteq> Returned"
    and g: "goroutines w' = goroutines (goto i ph w)" and wt: "waiter w' = waiter w - (if ph = Returned then 1 else 0)"
    and m: "\<And>n. modules w' n = None \<longleftrightarrow> modules w n = None" "keys_ok (modules w')" and c: "chans_ok w'" and wa: "watched w'"
  shows "cpu_ok w'"
proof (rule cpu_okI [OF m(2) c wa waiter_goto [OF cpu_okD(4) [OF ok] i g wt]])
  have "\<forall>g \<in> set (goroutines w). modules w' (go_mod g) \<noteq> None" using cpu_okD(5) [OF ok] m(1) by blast
  then show "\<forall>g \<in> set (goroutines w'). modules w' (go_mod g) \<noteq> None" by (rule go_mods_goto [OF _ i(1) g])
qed

lemma goroutine_step_elim:
  assumes "goroutine_step os b i w = Some w'"
  obtains m where "i < length (goroutines w)" "modules w (go_mod (goroutines w ! i)) = Some m"
    "module_branch os b i (goroutines w ! i) m w = Some w'"
  using assms by (auto simp: goroutine_step_def split: if_splits option.splits)

text \<open>A change that the goroutines do not see: the status of processes that end, and channels.\<close>

definition calm :: "cpu_state \<Rightarrow> cpu_state \<Rightarrow> bool" where
  "calm w w1 \<longleftrightarrow> goroutines w1 = goroutines w \<and> waiter w1 = waiter w \<and> keys_ok (modules w1) \<and> chans_ok w1 \<and>
     (\<forall>n. modules w1 n = None \<longleftrightarrow> modules w n = None) \<and> length (processes w1) = length (processes w) \<and>
     (\<forall>p < length (processes w). proc_status (processes w1 ! p) = Running \<longrightarrow> proc_status (processes w ! p) = Running)"

lemma calmD:
  assumes "calm w w1"
  shows "goroutines w1 = goroutines w" "waiter w1 = waiter w" "keys_ok (modules w1)" "chans_ok w1"
    "modules w1 n = None \<longleftrightarrow> modules w n = None" "length (processes w1) = length (processes w)"
    "p < length (processes w) \<Longrightarrow> proc_status (processes w1 ! p) = Running \<Longrightarrow> proc_status (processes w ! p) = Running"
  using assms by (simp_all add: calm_def)

lemma calm_refl: "cpu_ok w \<Longrightarrow> calm w w"
  by (simp add: calm_def cpu_ok_def)

lemma calm_sigterm: "cpu_ok w \<Longrightarrow> calm w (send_sigterm p w)"
  using chans_ok_cong [of "send_sigterm p w" w] by (auto simp: calm_def dest: cpu_okD)

lemma calm_stopped: "cpu_ok w \<Longrightarrow> st \<noteq> Running \<Longrightarrow> calm w (set_status p st w)"
  using chans_ok_cong [of "set_status p st w" w] by (auto simp: calm_def split: if_splits dest: cpu_okD)

lemma calm_exit: "cpu_ok w \<Longrightarrow> calm w (set_status p (Exited code) w)"
  by (rule calm_stopped) simp_all

lemma calm_kill: "cpu_ok w \<Longrightarrow> calm w (kill p w)"
  by (simp add: kill_def calm_refl calm_stopped)

lemma calm_canceler:
  assumes "calm w w1" "\<And>c. ch = Some c \<Longrightarrow> c < next_chan w1"
  shows "calm w (set_canceler n ch w1)"
  using assms chans_ok_set_canceler [OF _ assms(2)] by (simp add: calm_def)

lemma calm_next: "cpu_ok w \<Longrightarrow> calm w (w\<lparr>next_chan := Suc (next_chan w)\<rparr>)"
  using chans_ok_cong [of "w\<lparr>next_chan := Suc (next_chan w)\<rparr>" w] by (auto simp: calm_def dest: cpu_okD)

lemma calm_ok:
  assumes "cpu_ok w" "calm w w1"
  shows "cpu_ok w1"
proof (rule cpu_okI [OF calmD(3) [OF assms(2)] calmD(4) [OF assms(2)]])
  have "supervises w1 i p \<longleftrightarrow> supervises w i p" for i p by (rule supervises_cong [OF calmD(1) [OF assms(2)]])
  with cpu_okD(3) [OF assms(1)] calmD(6,7) [OF assms(2)] show "watched w1" unfolding watched_def by simp
  show "waiter w1 = int (live w1)"
    using cpu_okD(4) [OF assms(1)] calmD(2) [OF assms(2)] live_cong [OF calmD(1) [OF assms(2)]] by simp
  show "\<forall>g \<in> set (goroutines w1). modules w1 (go_mod g) \<noteq> None"
    using cpu_okD(5) [OF assms(1)] calmD(1,5) [OF assms(2)] by simp
qed

lemma goto_calm: "calm w w1 \<Longrightarrow> goroutines (goto i ph w1) = goroutines (goto i ph w)"
  by (simp add: goto_def calmD(1))

lemma calm_goto_ok:
  assumes ok: "cpu_ok w" and i: "i < length (goroutines w)" and ph: "phase_proc ph = phase_proc (go_phase (goroutines w ! i))" "phase_proc ph \<noteq> None"
    and c: "calm w w1"
  shows "cpu_ok (goto i ph w1)"
proof (rule cpu_ok_goto [OF ok i _ goto_calm [OF c]])
  show "go_phase (goroutines w ! i) \<noteq> Returned" using ph by auto
  show "waiter (goto i ph w1) = waiter w - (if ph = Returned then 1 else 0)" using ph(2) calmD(2) [OF c] by auto
  show "chans_ok (goto i ph w1)" by (rule chans_ok_cong [of _ w1]) (simp_all add: calmD(4) [OF c])
  show "watched (goto i ph w1)"
    by (rule watched_same [OF cpu_okD(3) [OF ok] goto_calm [OF c] ph(1)]) (simp_all add: calmD(6,7) [OF c])
qed (simp_all add: calmD(3,5) [OF c])

lemma calm_release_ok:
  assumes ok: "cpu_ok w" and i: "i < length (goroutines w)" "go_phase (goroutines w ! i) \<noteq> Returned" and c: "calm w w1"
    and st: "\<And>p. phase_proc (go_phase (goroutines w ! i)) = Some p \<Longrightarrow> p < length (processes w) \<Longrightarrow> proc_status (processes w1 ! p) \<noteq> Running"
  shows "cpu_ok (go_return i w1)" "cpu_ok (goto i Launch w1)"
proof -
  have "p < length (processes w) \<Longrightarrow> proc_status (processes w1 ! p) = Running \<Longrightarrow>
      proc_status (processes w ! p) = Running \<and> \<not> supervises w i p" for p
    using calmD(7) [OF c] st by (auto simp: supervises_def)
  note watched = watched_release [OF cpu_okD(3) [OF ok] _ _ _ this]
  show "cpu_ok (go_return i w1)"
  proof (rule cpu_ok_goto [OF ok i, of _ Returned])
    show g: "goroutines (go_return i w1) = goroutines (goto i Returned w)" by (simp add: goto_calm [OF c])
    show "chans_ok (go_return i w1)" by (rule chans_ok_cong [of _ w1]) (simp_all add: calmD(4) [OF c])
    show "watched (go_return i w1)" by (rule watched [OF g]) (simp_all add: calmD(6) [OF c])
  qed (simp_all add: calmD(2,3,5) [OF c])
  show "cpu_ok (goto i Launch w1)"
  proof (rule cpu_ok_goto [OF ok i goto_calm [OF c]])
    show "chans_ok (goto i Launch w1)" by (rule chans_ok_cong [of _ w1]) (simp_all add: calmD(4) [OF c])
    show "watched (goto i Launch w1)" by (rule watched [OF goto_calm [OF c]]) (simp_all add: calmD(6) [OF c])
  qed (simp_all add: calmD(2,3,5) [OF c])
qed

lemma start_process_ok:
  assumes ok: "cpu_ok w" and i: "i < length (goroutines w)" "go_phase (goroutines w ! i) = Launch"
  shows "cpu_ok (goto i (Launched (length (processes w))) (w\<lparr>processes := processes w @ [pr]\<rparr>))" (is "cpu_ok ?w")
proof (rule cpu_ok_goto [OF ok i(1), of _ "Launched (length (processes w))"])
  show g: "goroutines ?w = goroutines (goto i (Launched (length (processes w))) w)" by (simp add: goto_def)
  show "chans_ok ?w" by (rule chans_ok_cong [of _ w]) (simp_all add: cpu_okD(2) [OF ok])
  show "watched ?w" by (rule watched_fresh [OF cpu_okD(3) [OF ok] g i(1)]) (simp_all add: i(2))
qed (simp_all add: i(2) cpu_okD(1) [OF ok])

lemma goroutine_step_ok:
  assumes ok: "cpu_ok w" and st: "goroutine_step os b i w = Some w'"
  shows "cpu_ok w'"
proof -
  obtain m where i: "i < length (goroutines w)" and mb: "module_branch os b i (goroutines w ! i) m w = Some w'"
    by (rule goroutine_step_elim [OF st])
  note step = calm_goto_ok [OF ok i] and release = calm_release_ok [OF ok i]
  note calm = calm_refl [OF ok] calm_sigterm [OF ok] calm_kill [OF ok] calm_canceler [OF calm_sigterm [OF ok]] calm_canceler [OF calm_next [OF ok]]
  show ?thesis
  proof (cases b)
    case StartOk
    with mb start_process_ok [OF ok i] show ?thesis by (auto split: if_splits)
  next
    case StartFailed
    with mb release(1) [OF _ calm(1)] show ?thesis by (auto split: if_splits)
  next
    case MakeCanceler
    with mb show ?thesis by (auto split: phase.splits intro!: step calm(5))
  next
    case EnterSelect
    with mb show ?thesis by (auto split: phase.splits intro!: step calm(1))
  next
    case OnWait
    with mb release [OF _ calm(1)] show ?thesis by (auto split: phase.splits proc_status.splits if_splits)
  next
    case OnCanceler
    with mb show ?thesis by (auto split: phase.splits option.splits if_splits intro!: step calm(4))
  next
    case OnDone
    with mb show ?thesis by (auto split: phase.splits if_splits intro!: step calm(2))
  next
    case OnExit
    with mb release(1) [OF _ calm(1)] show ?thesis by (auto dest: ended_not_running split: phase.splits if_splits)
  next
    case OnTimeout
    with mb show ?thesis by (auto split: phase.splits if_splits intro!: release(1) calm(3))
  qed
qed

lemma cpu_step_ok:
  assumes "cpu_step os w w'" "cpu_ok w"
  shows "cpu_ok w'"
  using assms(1)
proof (cases rule: cpu_step.cases)
  case (goroutine b i)
  show ?thesis by (rule goroutine_step_ok [OF assms(2) goroutine])
next
  case (process_exit p code)
  show ?thesis unfolding process_exit(1) by (rule calm_ok [OF assms(2) calm_exit [OF assms(2)]])
next
  case context_done
  show ?thesis
    unfolding context_done
    by (rule calm_ok [OF assms(2)])
      (use assms(2) chans_ok_cong [of "w\<lparr>ctx_done := True\<rparr>" w] in \<open>auto simp: calm_def dest: cpu_okD\<close>)
next
  case (control order msg err)
  show ?thesis by (rule ctl.keeps_ok [OF assms(2) control])
next
  case (api_enable name reply)
  show ?thesis by (rule api_en.keeps_ok [OF assms(2) api_enable])
next
  case (api_disable name reply)
  show ?thesis by (rule api_dis.keeps_ok [OF assms(2) api_disable])
qed

section \<open>Reachable states\<close>

definition fresh_cpu :: "(string \<rightharpoonup> module) \<Rightarrow> Pusher \<Rightarrow> cpu_state" where
  "fresh_cpu mods p =
     \<lparr>modules = mods, next_chan = 0, closed = {}, goroutines = [], processes = [], waiter = 0, ctx_done = False, cpu_pusher = p\<rparr>"

text \<open>A CPU module that was configured, whose Run succeeded, and what may happen after that.\<close>

definition cpu_reachable :: "os_api \<Rightarrow> cpu_state \<Rightarrow> bool" where
  "cpu_reachable os w \<longleftrightarrow>
     (\<exists>e name c mods p zmq order ctx pub pull w0. Cpu_Configure e (NewCPU name, Map.empty) = (None, c, mods) \<and>
        Cpu_Run os zmq c order ctx pub pull (fresh_cpu mods p) = Done (None, w0) \<and> cpu_steps os w0 w)"

lemma cpu_children_modules:
  assumes "cpu_children es (c, mods) = (err, c', mods')" "\<And>n m. mods n = Some m \<Longrightarrow> \<exists>e. m = module_of e \<and> mod_name m = n"
  shows "mods' n = Some m \<Longrightarrow> \<exists>e. m = module_of e \<and> mod_name m = n"
  using assms
proof (induction es arbitrary: c mods)
  case (Cons e es)
  show ?case
  proof (cases "Tag e = ''logs''")
    case True
    obtain lerr lc where l: "logs_children (ChildElements e) c = (lerr, lc)" by (cases "logs_children (ChildElements e) c")
    with True Cons show ?thesis by (cases lerr) auto
  next
    case False
    with Cons.prems obtain c1 mods1 where rec: "cpu_children es (c1, mods1) = (err, c', mods')"
      "mods1 = mods \<or> mods1 = mods(mod_name (module_of e) \<mapsto> module_of e)"
      by (auto split: if_splits)
    with Cons.prems(3) have "mods1 n = Some m \<Longrightarrow> \<exists>e. m = module_of e \<and> mod_name m = n" for n m
      by (auto split: if_splits)
    with Cons.IH [OF Cons.prems(1) rec(1)] show ?thesis by blast
  qed
qed simp

lemma configured_keys_ok:
  assumes "Cpu_Configure e (NewCPU name, Map.empty) = (err, c, mods)"
  shows "keys_ok mods" "mods n = Some m \<Longrightarrow> canceler m = None"
  using cpu_children_modules [of "ChildElements e" "NewCPU name" Map.empty err c mods] assms
  by (fastforce simp: Cpu_Configure_def keys_ok_def module_of_def)+

lemma fresh_cpu_ok: "keys_ok mods \<Longrightarrow> (\<And>n m. mods n = Some m \<Longrightarrow> canceler m = None) \<Longrightarrow> cpu_ok (fresh_cpu mods p)"
  by (simp add: cpu_ok_def fresh_cpu_def chans_ok_def watched_def supervises_def live_def)

interpretation starting: request "start_modules os c order ctx" for os c order ctx
proof unfold_locales
  show "request_effect w w'" if "keys_ok (modules w)" "start_modules os c order ctx w = Done (err, w')" for w err w'
    using that
  proof (induction order arbitrary: ctx w)
    case (Cons n ns)
    show ?case
    proof (cases "modules w n")
      case (Some m)
      then have n: "modules w (mod_name m) = Some m" using Cons.prems(1) by (simp add: keys_ok_def)
      let ?ctx = "ctxSetLokiEndpoint (ctxSetElasticIndex (ctxSetElasticEndpoint ctx (elasticEndpoint c)) (elasticIndex c)) (lokiEndpoint c)"
      obtain e w1 where st: "StartModule os ?ctx m w = Done (e, w1)"
        using Cons.prems(2) Some by (auto simp: Let_def split: outcome.splits)
      note eff = StartModule_effect [OF n st]
      show ?thesis
      proof (cases e)
        case None
        with Cons.prems(2) Some st have "start_modules os c ns ?ctx w1 = Done (err, w')" by (simp add: Let_def)
        from request_effect_trans [OF eff Cons.IH [OF keys_ok_effect [OF Cons.prems(1) eff] this]] show ?thesis .
      next
        case (Some x)
        with Cons.prems(2) \<open>modules w n = Some m\<close> st have "w' = w1" by (simp add: Let_def)
        with eff show ?thesis by simp
      qed
    qed (use Cons in simp)
  qed simp
qed

lemma cpu_steps_ok: "cpu_steps os w w' \<Longrightarrow> cpu_ok w \<Longrightarrow> cpu_ok w'"
  by (induction rule: rtranclp_induct) (blast intro: cpu_step_ok)+

lemma cpu_reachable_ok:
  assumes "cpu_reachable os w"
  shows "cpu_ok w"
proof -
  obtain e name c mods p zmq order ctx pub pull w0 where conf: "Cpu_Configure e (NewCPU name, Map.empty) = (None, c, mods)"
    and run: "Cpu_Run os zmq c order ctx pub pull (fresh_cpu mods p) = Done (None, w0)" and steps: "cpu_steps os w0 w"
    using assms unfolding cpu_reachable_def by blast
  from run obtain w1 p' where w1: "start_modules os c order ctx (fresh_cpu mods p) = Done (None, w1)" "w0 = w1\<lparr>cpu_pusher := p'\<rparr>"
    by (auto simp: Cpu_Run_def split: outcome.splits prod.splits option.splits)
  have ok1: "cpu_ok w1" by (rule starting.keeps_ok [OF fresh_cpu_ok [OF configured_keys_ok [OF conf]] w1(1)])
  have "cpu_ok w0"
    by (rule calm_ok [OF ok1])
      (use ok1 w1(2) chans_ok_cong [of "w1\<lparr>cpu_pusher := p'\<rparr>" w1] in \<open>auto simp: calm_def dest: cpu_okD\<close>)
  with cpu_steps_ok [OF steps] show ?thesis by blast
qed

section \<open>Supervision\<close>

lemma supervised_bound:
  assumes "cpu_ok w" "i < length (goroutines w)" "phase_proc (go_phase (goroutines w ! i)) = Some p"
  shows "p < length (processes w)"
  using cpu_okD(3) [OF assms(1)] assms(2,3) unfolding watched_def supervises_def by blast

lemma no_live_none_running:
  assumes "cpu_ok w" "live w = 0" "p < length (processes w)"
  shows "proc_status (processes w ! p) \<noteq> Running"
proof
  assume "proc_status (processes w ! p) = Running"
  with assms(1,3) obtain i where i: "supervises w i p" using cpu_okD(3) unfolding watched_def by blast
  then have "goroutines w ! i \<in> set (goroutines w)" "go_phase (goroutines w ! i) \<noteq> Returned" by (auto simp: supervises_def)
  with assms(2) show False by (simp add: live_def filter_empty_conv)
qed

text \<open>C6: no child process is lost. In every state the CPU module reaches, a running process has exactly one
  goroutine that watches it, the program's wait group counts the goroutines that have not returned, and when the
  program stops waiting for them no process it started is running any more: each has ended or was killed.\<close>

theorem children_supervised:
  assumes "cpu_reachable os w"
  shows "(\<forall>p < length (processes w). proc_status (processes w ! p) = Running \<longrightarrow> (\<exists>!i. supervises w i p)) \<and>
    waiter w = int (length (filter (\<lambda>g. go_phase g \<noteq> Returned) (goroutines w))) \<and>
    (waiter w = 0 \<longrightarrow> (\<forall>p < length (processes w). proc_status (processes w ! p) \<noteq> Running))"
proof -
  note ok = cpu_reachable_ok [OF assms]
  have "\<exists>!i. supervises w i p" if "p < length (processes w)" "proc_status (processes w ! p) = Running" for p
    using cpu_okD(3) [OF ok] that unfolding watched_def by blast
  moreover have "waiter w = int (length (filter (\<lambda>g. go_phase g \<noteq> Returned) (goroutines w)))"
    using cpu_okD(4) [OF ok] by (simp add: live_def)
  moreover have "waiter w = 0 \<longrightarrow> (\<forall>p < length (processes w). proc_status (processes w ! p) \<noteq> Running)"
    using no_live_none_running [OF ok] cpu_okD(4) [OF ok] by simp
  ultimately show ?thesis by blast
qed

section \<open>Shutdown\<close>























section \<open>Modules that die\<close>

lemma dead_process_step:
  assumes "i < length (goroutines w)" "modules w (go_mod (goroutines w ! i)) = Some m"
    "go_phase (goroutines w ! i) = Waiting p ch" "proc_status (processes w ! p) = Exited code"
  shows "if code = ExitNoRestart
    then goroutine_step os OnWait i w = Some (go_return i w)
    else \<exists>w1 w2. goroutine_step os OnWait i w = Some w1 \<and> goroutine_step os StartOk i w1 = Some w2 \<and>
      processes w2 = processes w @ [command os (goroutines w ! i) m] \<and> supervises w2 i (length (processes w)) \<and>
      (\<forall>j q. j \<noteq> i \<longrightarrow> supervises w2 j q = supervises w j q) \<and> waiter w2 = waiter w"
proof (cases "code = ExitNoRestart")
  case True
  with assms show ?thesis by (simp add: goroutine_step_def)
next
  case False
  let ?w1 = "goto i Launch w"
  let ?w2 = "goto i (Launched (length (processes w))) (?w1\<lparr>processes := processes w @ [command os (goroutines w ! i) m]\<rparr>)"
  have "goroutine_step os OnWait i w = Some ?w1" using assms False by (simp add: goroutine_step_def)
  moreover have "goroutine_step os StartOk i ?w1 = Some ?w2" using assms by (simp add: goroutine_step_def goto_def command_def)
  moreover have "supervises ?w2 i (length (processes w))" using assms(1) by (simp add: supervises_goto)
  moreover have "supervises ?w2 j q = supervises w j q" if "j \<noteq> i" for j q
    using that by (simp add: supervises_goto) (simp add: supervises_def goto_def)
  ultimately show ?thesis using False by (auto intro!: exI [of _ ?w1] exI [of _ ?w2])
qed

text \<open>C31: a module that dies is started again. When the process of a module has ended, its goroutine may return only
  if the exit code asks not to be restarted; with any other code it starts the same command again, which it then
  watches, and it keeps the other goroutines and processes as they are.\<close>

theorem dead_module_restarted:
  assumes "i < length (goroutines w)" "modules w (go_mod (goroutines w ! i)) = Some m"
    "go_phase (goroutines w ! i) = Waiting p ch" "proc_status (processes w ! p) = Exited code"
  shows "if code = ExitNoRestart
    then goroutine_step os OnWait i w = Some (go_return i w)
    else \<exists>w1 w2. goroutine_step os OnWait i w = Some w1 \<and> goroutine_step os StartOk i w1 = Some w2 \<and>
      processes w2 = processes w @ [command os (goroutines w ! i) m] \<and> supervises w2 i (length (processes w)) \<and>
      (\<forall>j q. j \<noteq> i \<longrightarrow> supervises w2 j q = supervises w j q) \<and> waiter w2 = waiter w"
  using assms by (rule dead_process_step)

text \<open>A module that counts as enabled, with a channel, but has no goroutine left.\<close>

definition abandoned :: "string \<Rightarrow> nat \<Rightarrow> cpu_state \<Rightarrow> bool" where
  "abandoned n ch w \<longleftrightarrow> (\<exists>m. modules w n = Some m \<and> canceler m = Some ch) \<and>
     (\<forall>g \<in> set (goroutines w). go_mod g = n \<longrightarrow> go_phase g = Returned)"

lemma StartModule_abandoned:
  assumes ab: "abandoned n ch w" and m: "modules w (mod_name m) = Some m" "canceler m = None"
    and st: "StartModule os ctx m w = Done (e, w')"
  shows "abandoned n ch w'"
proof -
  have "mod_name m \<noteq> n" using ab m by (auto simp: abandoned_def)
  with ab st show ?thesis
    by (elim StartModule_cases) (auto simp: abandoned_def)
qed

text \<open>Requests that do not disable the module leave it so, whatever they ask for.\<close>

lemma enable_loop_abandoned:
  assumes "keys_ok (modules w)" "abandoned n ch w" "enable_loop os names res errs w = Done (res', errs', w')"
  shows "abandoned n ch w'"
  by (rule enable_loop_keeps [where P = "abandoned n ch", OF _ assms]) (rule StartModule_abandoned)

lemma abandoned_cong: "modules w' = modules w \<Longrightarrow> goroutines w' = goroutines w \<Longrightarrow> abandoned n ch w' \<longleftrightarrow> abandoned n ch w"
  by (simp add: abandoned_def)

lemma disable_loop_frame:
  "disable_loop names res errs w = Done (res', errs', w') \<Longrightarrow> modules w' = modules w \<and> goroutines w' = goroutines w"
  by (induction names arbitrary: res errs w) (auto simp: close_chan_def split: option.splits if_splits)

lemma internalHandler_abandoned:
  assumes "keys_ok (modules w)" "abandoned n ch w" "internalHandler os order msg w = Done (err, w')"
  shows "abandoned n ch w'"
proof -
  have "abandoned n ch w'" if mc: "module_control os order control w = Done (err, w')" "\<not> (mc_recipient control \<noteq> [] \<and> mc_recipient control \<noteq> ''CPU'')" for control
  proof -
    obtain r e w1 r' e' w2 where
      en: "enable_loop os (mc_enable control) (if mc_list control then list_modules order w else []) [] w = Done (r, e, w1)"
      and dis: "disable_loop (mc_disable control) r e w1 = Done (r', e', w2)"
      and w': "w' = snd (confirm_control (mc_confirm control) r' e' w2)"
      using mc by (auto simp: module_control_def split: outcome.splits)
    have "modules w' = modules w2" "goroutines w' = goroutines w2"
      by (simp_all add: w' confirm_control_def split: sum.split prod.split)
    with enable_loop_abandoned [OF assms(1,2) en] disable_loop_frame [OF dis] abandoned_cong show ?thesis by metis
  qed
  with assms(2,3) show ?thesis
    by (auto simp: internalHandler_def module_control_def split: sum.splits if_splits prod.splits option.splits access_error.splits)
qed

lemma module_branch_modules:
  assumes "module_branch os b i g m w = Some w'" "k \<noteq> go_mod g"
  shows "modules w' k = modules w k"
  using assms by (cases b) (auto simp: set_canceler_def split: phase.splits if_splits option.splits proc_status.splits)

lemma module_branch_goroutines:
  assumes "module_branch os b i g m w = Some w'"
  shows "\<exists>ph. goroutines w' = goroutines (goto i ph w)" "go_phase g \<noteq> Returned"
  using assms by (cases b; auto simp: goto_def split: phase.splits if_splits option.splits proc_status.splits)+

lemma goroutine_step_abandoned:
  assumes ab: "abandoned n ch w" and st: "goroutine_step os b i w = Some w'"
  shows "abandoned n ch w'"
proof -
  obtain m where i: "i < length (goroutines w)" and mb: "module_branch os b i (goroutines w ! i) m w = Some w'"
    by (rule goroutine_step_elim [OF st])
  have other: "n \<noteq> go_mod (goroutines w ! i)"
    using ab i module_branch_goroutines(2) [OF mb] by (auto simp: abandoned_def)
  obtain ph where "goroutines w' = (goroutines w)[i := (goroutines w ! i)\<lparr>go_phase := ph\<rparr>]"
    using module_branch_goroutines(1) [OF mb] by (auto simp: goto_def)
  then have "g \<in> set (goroutines w) \<or> go_mod g \<noteq> n" if "g \<in> set (goroutines w')" for g
    using that other set_update_subset_insert [of "goroutines w" i] by fastforce
  with ab module_branch_modules [OF mb other] show ?thesis by (auto simp: abandoned_def)
qed

lemma cpu_step_abandoned:
  assumes "cpu_step os w w'" "cpu_ok w" "abandoned n ch w"
  shows "abandoned n ch w'" "closed w \<subseteq> closed w'"
proof -
  note keys = cpu_okD(1) [OF assms(2)]
  have "abandoned n ch w' \<and> closed w \<subseteq> closed w'"
    using assms(1)
  proof (cases rule: cpu_step.cases)
    case (goroutine b i)
    obtain m where "module_branch os b i (goroutines w ! i) m w = Some w'" by (rule goroutine_step_elim [OF goroutine])
    then have "closed w' = closed w" by (cases b) (auto split: phase.splits if_splits option.splits proc_status.splits)
    with goroutine_step_abandoned [OF assms(3) goroutine] show ?thesis by simp
  next
    case (control order msg err)
    with internalHandler_abandoned [OF keys assms(3) control] request_effectD(4) [OF ctl.effect [OF keys control]] show ?thesis by blast
  next
    case (api_enable name reply)
    then have "abandoned n ch w'"
      using assms(3) keys
      by (auto simp: handleEnableModule_def keys_ok_def split: option.splits if_splits outcome.splits prod.splits intro: StartModule_abandoned [rotated 3])
    with request_effectD(4) [OF api_en.effect [OF keys api_enable]] show ?thesis by blast
  next
    case (api_disable name reply)
    then have "modules w' = modules w" "goroutines w' = goroutines w"
      by (auto simp: handleDisableModule_def close_chan_def split: option.splits if_splits outcome.splits)
    with assms(3) request_effectD(4) [OF api_dis.effect [OF keys api_disable]] abandoned_cong show ?thesis by blast
  qed (use assms(3) in \<open>auto simp: abandoned_def\<close>)
  then show "abandoned n ch w'" "closed w \<subseteq> closed w'" by blast+
qed

lemma cpu_steps_abandoned:
  "cpu_steps os w w' \<Longrightarrow> cpu_ok w \<Longrightarrow> abandoned n ch w \<Longrightarrow> cpu_ok w' \<and> abandoned n ch w' \<and> closed w \<subseteq> closed w'"
proof (induction rule: rtranclp_induct)
  case (step w1 w2)
  then show ?case using cpu_step_ok [OF step(2)] cpu_step_abandoned [OF step(2)] by blast
qed simp

lemma state_text_abandoned:
  assumes "abandoned n ch w"
  shows "\<exists>m. modules w n = Some m \<and> state_text m = ''enabled''"
    "handleEnableModule os n w = Done (http_error ''module already enabled'' 400, w)"
    "handleDisableModule n w = (if ch \<in> closed w then Panic else Done (write_header 204, w\<lparr>closed := insert ch (closed w)\<rparr>))"
    "ch \<in> closed w \<Longrightarrow> disable_loop (n # names) res errs w = Panic"
  using assms by (auto simp: abandoned_def state_text_def handleEnableModule_def handleDisableModule_def close_chan_def)

text \<open>C35: a module that ended for good can bring the CPU module down. When the process of a module exits with the
  code that asks not to be restarted, its goroutine returns but the module keeps its channel. From then on, whatever
  happens, the module is listed as enabled and a request to enable it is refused; the first request to disable it
  is confirmed and changes nothing, and the next one, at any time, over HTTP or over the bus, closes the same
  channel again, which is a panic.\<close>

theorem ended_module_crashes_cpu:
  assumes "cpu_reachable os w" "i < length (goroutines w)" "goroutines w ! i = \<lparr>go_mod = n, go_exe = exe, go_phase = Waiting p (Some ch)\<rparr>"
    "modules w n = Some m" "canceler m = Some ch"
    "\<forall>j < length (goroutines w). j \<noteq> i \<longrightarrow> go_mod (goroutines w ! j) = n \<longrightarrow> go_phase (goroutines w ! j) = Returned"
    "proc_status (processes w ! p) = Exited ExitNoRestart"
  shows "\<exists>w1. goroutine_step os OnWait i w = Some w1 \<and>
    (\<forall>w2. cpu_steps os w1 w2 \<longrightarrow>
      (\<exists>m2. modules w2 n = Some m2 \<and> state_text m2 = ''enabled'') \<and>
      handleEnableModule os n w2 = Done (http_error ''module already enabled'' 400, w2) \<and>
      (\<forall>reply w3 w4. handleDisableModule n w2 = Done (reply, w3) \<longrightarrow> cpu_steps os w3 w4 \<longrightarrow>
        http_status reply = 204 \<and> (\<exists>m4. modules w4 n = Some m4 \<and> state_text m4 = ''enabled'') \<and>
        handleDisableModule n w4 = Panic \<and> disable_loop (n # names) res errs w4 = Panic))"
proof (rule exI [of _ "go_return i w"], intro conjI allI impI)
  let ?w1 = "go_return i w"
  show st: "goroutine_step os OnWait i w = Some ?w1"
    using assms by (simp add: goroutine_step_def)
  have "go_phase (goroutines ?w1 ! j) = Returned" if "j < length (goroutines w)" "go_mod (goroutines ?w1 ! j) = n" for j
    using that assms(2,3,6) by (cases "j = i") (simp_all add: goto_def)
  then have ab: "abandoned n ch ?w1"
    unfolding abandoned_def using assms(4,5) by (auto simp: in_set_conv_nth)
  have ok: "cpu_ok ?w1" by (rule goroutine_step_ok [OF cpu_reachable_ok [OF assms(1)] st])
  fix w2 assume w2: "cpu_steps os ?w1 w2"
  note a2 = cpu_steps_abandoned [OF w2 ok ab]
  show "\<exists>m2. modules w2 n = Some m2 \<and> state_text m2 = ''enabled''" using state_text_abandoned(1) a2 by blast
  show "handleEnableModule os n w2 = Done (http_error ''module already enabled'' 400, w2)"
    using state_text_abandoned(2) a2 by blast
  fix reply w3 w4 assume dis: "handleDisableModule n w2 = Done (reply, w3)" and w4: "cpu_steps os w3 w4"
  have r: "reply = write_header 204" and ch: "ch \<in> closed w3"
    using dis state_text_abandoned(3) [of n ch w2] a2 by (auto split: if_splits)
  then show "http_status reply = 204" by (simp add: write_header_def)
  have "cpu_step os w2 w3" by (rule cpu_step.api_disable [OF dis])
  then have "cpu_steps os w2 w4" using w4 by (rule converse_rtranclp_into_rtranclp)
  then have a4: "abandoned n ch w4" using cpu_steps_abandoned [of os w2 w4] a2 by blast
  have "cpu_ok w3" "abandoned n ch w3" using cpu_steps_abandoned [OF r_into_rtranclp [of "cpu_step os", OF \<open>cpu_step os w2 w3\<close>]] a2 by blast+
  then have c4: "ch \<in> closed w4" using cpu_steps_abandoned [OF w4] ch by blast
  show "\<exists>m4. modules w4 n = Some m4 \<and> state_text m4 = ''enabled''" using state_text_abandoned(1) [OF a4] .
  show "handleDisableModule n w4 = Panic" using state_text_abandoned(3) [OF a4] c4 by simp
  show "disable_loop (n # names) res errs w4 = Panic" using state_text_abandoned(4) [OF a4 c4] .
qed

section \<open>Disabling and enabling\<close>

text \<open>What a request to enable a module leads to: a new goroutine, which starts the command of the module as a new process and watches it,
  and then lists the module as enabled, as long as the system can start the process.\<close>

definition runs_again :: "os_api \<Rightarrow> string \<Rightarrow> string \<Rightarrow> module \<Rightarrow> cpu_state \<Rightarrow> cpu_state \<Rightarrow> bool" where
  "runs_again os n path m w w' \<longleftrightarrow>
     (let g = \<lparr>go_mod = n, go_exe = path, go_phase = Launch\<rparr>; j = length (goroutines w)
      in goroutines w' = goroutines w @ [g] \<and> processes w' = processes w \<and> waiter w' = waiter w + 1 \<and>
         (\<exists>w1 w2 m2. goroutine_step os StartOk j w' = Some w1 \<and> goroutine_step os MakeCanceler j w1 = Some w2 \<and>
            processes w2 = processes w @ [command os g m] \<and> supervises w2 j (length (processes w)) \<and>
            modules w2 n = Some m2 \<and> state_text m2 = ''enabled''))"

lemma handleEnableModule_runs:
  assumes "modules w n = Some m" "canceler m = None" "mod_name m = n" "mod_ctx m \<noteq> None" "initialized m" "LookPath os (mod_path m) = Some path"
  shows "\<exists>w'. handleEnableModule os n w = Done (write_header 204, w') \<and> runs_again os n path m w w'"
proof -
  let ?g = "\<lparr>go_mod = n, go_exe = path, go_phase = Launch\<rparr>" and ?j = "length (goroutines w)"
  obtain w' where w': "handleEnableModule os n w = Done (write_header 204, w')" "goroutines w' = goroutines w @ [?g]"
    "processes w' = processes w" "waiter w' = waiter w + 1" "modules w' n = Some m" "next_chan w' = next_chan w"
    using assms by (auto simp: handleEnableModule_def StartModule_def module_init_def)
  let ?w1 = "goto ?j (Launched (length (processes w))) (w'\<lparr>processes := processes w @ [command os ?g m]\<rparr>)"
  let ?w2 = "goto ?j (Armed (length (processes w))) (set_canceler n (Some (next_chan ?w1)) (?w1\<lparr>next_chan := next_chan ?w1 + 1\<rparr>))"
  have s1: "goroutine_step os StartOk ?j w' = Some ?w1" using w' by (simp add: goroutine_step_def)
  have g1: "goroutines ?w1 ! ?j = ?g\<lparr>go_phase := Launched (length (processes w))\<rparr>" "?j < length (goroutines ?w1)" "modules ?w1 n = Some m"
    using w' by (simp_all add: goto_def)
  then have s2: "goroutine_step os MakeCanceler ?j ?w1 = Some ?w2" by (simp add: goroutine_step_def)
  have "supervises ?w2 ?j (length (processes w))" using g1(2) by (simp add: supervises_goto)
  moreover have "modules ?w2 n = Some (m\<lparr>canceler := Some (next_chan ?w1)\<rparr>)" using g1(3) by (simp add: set_canceler_def)
  moreover have "processes ?w2 = processes w @ [command os ?g m]" by simp
  ultimately have "runs_again os n path m w w'"
    unfolding runs_again_def Let_def using w'(2-4) s1 s2 by (auto simp: state_text_def)
  with w'(1) show ?thesis by blast
qed

text \<open>C32: a module can be disabled and enabled again. A request to disable a running module is accepted; its
  goroutine then sends SIGTERM to the process, the module is listed as disabled, and when the goroutine returns,
  because the process ended or was killed after ten seconds, the process is not running. A request to enable the
  module is then accepted and starts one goroutine for it; when the system can start the process, this runs the command of the module as a new
  process, watches it, and the module is listed as enabled.\<close>

theorem disable_then_enable:
  assumes "cpu_reachable os w" "i < length (goroutines w)" "goroutines w ! i = \<lparr>go_mod = n, go_exe = exe, go_phase = Waiting p (Some ch)\<rparr>"
    "modules w n = Some m" "canceler m = Some ch" "ch \<notin> closed w" "initialized m" "LookPath os (mod_path m) = Some path"
  shows "\<exists>w1 w2. handleDisableModule n w = Done (write_header 204, w1) \<and> goroutine_step os OnCanceler i w1 = Some w2 \<and>
    sigterm_sent (processes w2 ! p) \<and> (\<exists>m2. modules w2 n = Some m2 \<and> state_text m2 = ''disabled'') \<and>
    (\<exists>w3. goroutine_step os OnTimeout i w2 = Some w3) \<and>
    (\<forall>b w3. goroutine_step os b i w2 = Some w3 \<longrightarrow> proc_status (processes w3 ! p) \<noteq> Running \<and> waiter w3 = waiter w - 1 \<and>
      (\<exists>w4. handleEnableModule os n w3 = Done (write_header 204, w4) \<and> runs_again os n path m w3 w4))"
proof -
  note ok = cpu_reachable_ok [OF assms(1)]
  have p: "p < length (processes w)" by (rule supervised_bound [OF ok assms(2)]) (simp add: assms(3))
  have keys: "keys_ok (modules w)" using cpu_okD(1) [OF ok] .
  then have nm: "mod_name m = n" "mod_ctx m \<noteq> None" using assms(4,7) by (auto simp: keys_ok_def)
  let ?w1 = "w\<lparr>closed := insert ch (closed w)\<rparr>"
  define w2 where "w2 = goto i (Draining p) (set_canceler n None (send_sigterm p ?w1))"
  have d: "handleDisableModule n w = Done (write_header 204, ?w1)"
    using assms(4-6) by (simp add: handleDisableModule_def close_chan_def)
  have c: "goroutine_step os OnCanceler i ?w1 = Some w2" using assms(2-4) by (simp add: goroutine_step_def w2_def)
  have sig: "sigterm_sent (processes w2 ! p)" using p by (simp add: send_sigterm_def w2_def)
  have m2: "modules w2 n = Some (m\<lparr>canceler := None\<rparr>)" using assms(4) by (simp add: set_canceler_def w2_def)
  have g2: "goroutines w2 ! i = \<lparr>go_mod = n, go_exe = exe, go_phase = Draining p\<rparr>" "i < length (goroutines w2)"
    and p2: "p < length (processes w2)" "waiter w2 = waiter w"
    using assms(2,3) p by (simp_all add: goto_def w2_def)
  have st: "goroutine_step os b i w2 = module_branch os b i \<lparr>go_mod = n, go_exe = exe, go_phase = Draining p\<rparr> (m\<lparr>canceler := None\<rparr>) w2" for b
    by (simp add: goroutine_step_def g2 m2)
  have again: "proc_status (processes w3 ! p) \<noteq> Running \<and> waiter w3 = waiter w - 1 \<and> modules w3 = modules w2"
    if "goroutine_step os b i w2 = Some w3" for b w3
    using that p2 unfolding st by (cases b) (auto split: if_splits)
  have same: "runs_again os n path (m\<lparr>canceler := None\<rparr>) v v' = runs_again os n path m v v'" for v v'
    by (simp add: runs_again_def command_def)
  have en: "\<exists>w4. handleEnableModule os n w3 = Done (write_header 204, w4) \<and> runs_again os n path m w3 w4" if "modules w3 = modules w2" for w3
    using handleEnableModule_runs [of w3 n "m\<lparr>canceler := None\<rparr>" os path] that m2 nm assms(7,8) by (simp add: same)
  have timeout: "\<exists>w3. goroutine_step os OnTimeout i w2 = Some w3" by (simp add: st)
  have dis: "\<exists>m2. modules w2 n = Some m2 \<and> state_text m2 = ''disabled''" using m2 by (simp add: state_text_def)
  have "proc_status (processes w3 ! p) \<noteq> Running \<and> waiter w3 = waiter w - 1 \<and>
      (\<exists>w4. handleEnableModule os n w3 = Done (write_header 204, w4) \<and> runs_again os n path m w3 w4)"
    if "goroutine_step os b i w2 = Some w3" for b w3
    using again [OF that] en [of w3] by auto
  with d c sig dis timeout show ?thesis by blast
qed

section \<open>Instances\<close>

text \<open>A configuration with one module, and its states: started, waiting for the process, and after the process ended.\<close>

definition demo_os :: os_api where
  "demo_os = \<lparr>os_environ = [], LookPath = (\<lambda>path. Some path)\<rparr>"

definition demo_cpu_config :: element where
  "demo_cpu_config = node ''cpu'' [] [] [node ''module'' [(''name'', ''m'')] ''prog {{config_file}}'' []]"

definition demo_ctx :: Context where
  "demo_ctx = \<lparr>configFileKey = Some ''f'', elasticEndpointKey = Some [], elasticIndexKey = Some [], lokiEndpointKey = Some []\<rparr>"

definition demo_module :: "nat option \<Rightarrow> module" where
  "demo_module ch = \<lparr>mod_ctx = Some demo_ctx, mod_name = ''m'', mod_path = ''prog'', mod_args = [''f''], mod_workDir = [], mod_env = [[]],
     canceler = ch, initialized = True\<rparr>"

definition demo_process :: "proc_status \<Rightarrow> process" where
  "demo_process st = \<lparr>proc_exe = ''prog'', proc_args = [''f''], proc_env = [[]], proc_dir = [], proc_status = st, sigterm_sent = False\<rparr>"

definition demo_socket :: Pusher where "demo_socket = \<lparr>sock = (\<lambda>_. True), attempts = 0, sent = []\<rparr>"

definition demo_cpu :: "nat option \<Rightarrow> nat \<Rightarrow> phase \<Rightarrow> process list \<Rightarrow> bool \<Rightarrow> cpu_state" where
  "demo_cpu ch k ph ps d = \<lparr>modules = [''m'' \<mapsto> demo_module ch], next_chan = k, closed = {},
     goroutines = [\<lparr>go_mod = ''m'', go_exe = ''prog'', go_phase = ph\<rparr>], processes = ps, waiter = 1, ctx_done = d, cpu_pusher = demo_socket\<rparr>"

lemmas demo_cpu_defs = demo_os_def demo_cpu_config_def demo_ctx_def demo_module_def demo_process_def demo_socket_def demo_cpu_def

lemma demo_cpu_started:
  "\<exists>c mods. Cpu_Configure demo_cpu_config (NewCPU ''cpu'', Map.empty) = (None, c, mods) \<and>
     Cpu_Run demo_os \<lparr>zmq_context = True, zmq_socket = True, zmq_connect = (\<lambda>_. True), zmq_linger = True, zmq_sends = (\<lambda>_. True)\<rparr>
       c [''m''] (SetConfigFile Background ''f'') [] [] (fresh_cpu mods demo_socket) = Done (None, demo_cpu None 0 Launch [] False)"
  by (simp add: Cpu_Configure_def demo_cpu_defs NewCPU_def module_of_def Cpu_Run_def Let_def StartModule_def module_init_def
      ctx_defs Background_def fresh_cpu_def cpu_endpoints_def MustNewPusher_def NewPusher_def ReplaceAll_def)

lemma demo_cpu_steps:
  "goroutine_step demo_os StartOk 0 (demo_cpu None 0 Launch [] False) = Some (demo_cpu None 0 (Launched 0) [demo_process Running] False)"
  "goroutine_step demo_os MakeCanceler 0 (demo_cpu None 0 (Launched 0) [demo_process Running] False) = Some (demo_cpu (Some 0) 1 (Armed 0) [demo_process Running] False)"
  "goroutine_step demo_os EnterSelect 0 (demo_cpu (Some 0) 1 (Armed 0) [demo_process Running] False) = Some (demo_cpu (Some 0) 1 (Waiting 0 (Some 0)) [demo_process Running] False)"
  "set_status 0 (Exited code) (demo_cpu (Some 0) 1 (Waiting 0 (Some 0)) [demo_process Running] False) = demo_cpu (Some 0) 1 (Waiting 0 (Some 0)) [demo_process (Exited code)] False"
  "(demo_cpu (Some 0) 1 (Waiting 0 (Some 0)) [demo_process Running] False)\<lparr>ctx_done := True\<rparr> = demo_cpu (Some 0) 1 (Waiting 0 (Some 0)) [demo_process Running] True"
  by (simp_all add: goroutine_step_def demo_cpu_defs goto_def command_def set_canceler_def set_status_def)

lemma demo_cpu_reachable:
  "cpu_reachable demo_os (demo_cpu (Some 0) 1 (Waiting 0 (Some 0)) [demo_process Running] False)"
  "cpu_reachable demo_os (demo_cpu (Some 0) 1 (Waiting 0 (Some 0)) [demo_process (Exited code)] False)"
  "cpu_reachable demo_os (demo_cpu (Some 0) 1 (Waiting 0 (Some 0)) [demo_process Running] True)"
proof -
  have steps: "cpu_reachable demo_os w" if "cpu_steps demo_os (demo_cpu None 0 Launch [] False) w" for w
    unfolding cpu_reachable_def using demo_cpu_started that by blast
  note s = rtranclp.rtrancl_into_rtrancl [of "cpu_step demo_os"]
  have wait: "cpu_steps demo_os (demo_cpu None 0 Launch [] False) (demo_cpu (Some 0) 1 (Waiting 0 (Some 0)) [demo_process Running] False)"
    by (rule s [OF s [OF s [OF rtranclp.rtrancl_refl cpu_step.goroutine [OF demo_cpu_steps(1)]] cpu_step.goroutine [OF demo_cpu_steps(2)]]
          cpu_step.goroutine [OF demo_cpu_steps(3)]])
  from steps [OF wait] show "cpu_reachable demo_os (demo_cpu (Some 0) 1 (Waiting 0 (Some 0)) [demo_process Running] False)" .
  have "cpu_step demo_os (demo_cpu (Some 0) 1 (Waiting 0 (Some 0)) [demo_process Running] False)
      (demo_cpu (Some 0) 1 (Waiting 0 (Some 0)) [demo_process (Exited code)] False)"
    unfolding demo_cpu_steps(4) [symmetric] by (rule cpu_step.process_exit) (simp_all add: demo_cpu_defs)
  from steps [OF s [OF wait this]] show "cpu_reachable demo_os (demo_cpu (Some 0) 1 (Waiting 0 (Some 0)) [demo_process (Exited code)] False)" .
  have "cpu_step demo_os (demo_cpu (Some 0) 1 (Waiting 0 (Some 0)) [demo_process Running] False)
      (demo_cpu (Some 0) 1 (Waiting 0 (Some 0)) [demo_process Running] True)"
    unfolding demo_cpu_steps(5) [symmetric] by (rule cpu_step.context_done)
  from steps [OF s [OF wait this]] show "cpu_reachable demo_os (demo_cpu (Some 0) 1 (Waiting 0 (Some 0)) [demo_process Running] True)" .
qed

theorem children_supervised_witness:
  "proc_status (demo_process Running) = Running \<and>
   (\<exists>!i. supervises (demo_cpu (Some 0) 1 (Waiting 0 (Some 0)) [demo_process Running] False) i 0)"
proof -
  have "processes (demo_cpu (Some 0) 1 (Waiting 0 (Some 0)) [demo_process Running] False) = [demo_process Running]"
    "proc_status (demo_process Running) = Running" by (simp_all add: demo_cpu_defs)
  with children_supervised [OF demo_cpu_reachable(1)] show ?thesis by simp
qed


theorem dead_module_restarted_witness:
  "\<exists>w1 w2. goroutine_step demo_os OnWait 0 (demo_cpu (Some 0) 1 (Waiting 0 (Some 0)) [demo_process (Exited 1)] False) = Some w1 \<and>
     goroutine_step demo_os StartOk 0 w1 = Some w2 \<and> processes w2 = [demo_process (Exited 1), demo_process Running]"
  using dead_module_restarted [of 0 "demo_cpu (Some 0) 1 (Waiting 0 (Some 0)) [demo_process (Exited 1)] False" "demo_module (Some 0)" 0 "Some 0" 1 demo_os]
  by (auto simp: demo_cpu_defs ExitNoRestart_def command_def)

theorem ended_module_crashes_cpu_witness:
  "\<exists>w1 w2. goroutine_step demo_os OnWait 0 (demo_cpu (Some 0) 1 (Waiting 0 (Some 0)) [demo_process (Exited ExitNoRestart)] False) = Some w1 \<and>
     handleDisableModule ''m'' w1 = Done (write_header 204, w2) \<and> handleDisableModule ''m'' w2 = Panic"
proof -
  let ?w = "demo_cpu (Some 0) 1 (Waiting 0 (Some 0)) [demo_process (Exited ExitNoRestart)] False"
  obtain w1 where w1: "goroutine_step demo_os OnWait 0 ?w = Some w1"
    "\<forall>reply w3. handleDisableModule ''m'' w1 = Done (reply, w3) \<longrightarrow> handleDisableModule ''m'' w3 = Panic"
    using ended_module_crashes_cpu [OF demo_cpu_reachable(2) [of ExitNoRestart], of 0 "''m''" "''prog''" 0 0 "demo_module (Some 0)" "[]" "[]" "[]"]
    by (auto simp: demo_cpu_defs)
  then have "\<exists>w2. handleDisableModule ''m'' w1 = Done (write_header 204, w2)"
    by (auto simp: goroutine_step_def demo_cpu_defs go_return_def goto_def handleDisableModule_def close_chan_def)
  with w1 show ?thesis by blast
qed

theorem disable_then_enable_witness:
  "\<exists>w1 w2 w3 w4. handleDisableModule ''m'' (demo_cpu (Some 0) 1 (Waiting 0 (Some 0)) [demo_process Running] False) = Done (write_header 204, w1) \<and>
     goroutine_step demo_os OnCanceler 0 w1 = Some w2 \<and> goroutine_step demo_os OnTimeout 0 w2 = Some w3 \<and>
     handleEnableModule demo_os ''m'' w3 = Done (write_header 204, w4) \<and> runs_again demo_os ''m'' ''prog'' (demo_module (Some 0)) w3 w4"
proof -
  let ?w = "demo_cpu (Some 0) 1 (Waiting 0 (Some 0)) [demo_process Running] False"
  have "0 < length (goroutines ?w)" "goroutines ?w ! 0 = \<lparr>go_mod = ''m'', go_exe = ''prog'', go_phase = Waiting 0 (Some 0)\<rparr>"
    "modules ?w ''m'' = Some (demo_module (Some 0))" "canceler (demo_module (Some 0)) = Some 0" "0 \<notin> closed ?w"
    "initialized (demo_module (Some 0))" "LookPath demo_os (mod_path (demo_module (Some 0))) = Some ''prog''"
    by (simp_all add: demo_cpu_defs)
  from disable_then_enable [OF demo_cpu_reachable(1) this] show ?thesis by blast
qed

end
