(* ===== verification/CpuBus.thy ===== *)
theory CpuBus
  imports CpuCorrect
begin

text \<open>
  How the CPU module listens to the bus: the monitor of one topic (cpu/monitor.go), the
  metrics it exports (cpu/metrics.go), and the monitors that Run starts. The Prometheus
  library is a parameter.
\<close>

section \<open>metrics.go\<close>

text \<open>The registry of the library: making a counter or a gauge with a name and a help text, and changing its value.
  Each of them may panic.\<close>

record 'r prom_api =
  prom_NewCounter :: "string \<Rightarrow> string \<Rightarrow> 'r \<Rightarrow> (nat \<times> 'r) outcome"
  prom_NewGauge :: "string \<Rightarrow> string \<Rightarrow> 'r \<Rightarrow> (nat \<times> 'r) outcome"
  prom_Add :: "nat \<Rightarrow> float64 \<Rightarrow> 'r \<Rightarrow> 'r outcome"
  prom_Set :: "nat \<Rightarrow> float64 \<Rightarrow> 'r \<Rightarrow> 'r outcome"

record 'r metrics_state =
  counters :: "string \<rightharpoonup> nat"
  gauges :: "string \<rightharpoonup> nat"
  registry :: 'r

definition no_metrics :: "'r \<Rightarrow> 'r metrics_state" where
  "no_metrics r = \<lparr>counters = Map.empty, gauges = Map.empty, registry = r\<rparr>"

text \<open>The name in the registry: dashes, colons and dots become underscores.\<close>

definition metric_name :: "string \<Rightarrow> string" where
  "metric_name s = map (\<lambda>c. if c \<in> set ''-:.'' then CHR ''_'' else c) s"

definition use_counter :: "'r prom_api \<Rightarrow> Metric \<Rightarrow> 'r metrics_state \<Rightarrow> (nat \<times> 'r metrics_state) outcome" where
  "use_counter api m s =
     (case counters s (m_name m) of
        Some c \<Rightarrow> Done (c, s)
      | None \<Rightarrow>
          (case prom_NewCounter api (metric_name (m_name m)) (m_desc m) (registry s) of
             Done (c, r) \<Rightarrow> Done (c, s\<lparr>counters := (counters s)(m_name m \<mapsto> c), registry := r\<rparr>)
           | Panic \<Rightarrow> Panic
           | Diverge \<Rightarrow> Diverge))"

definition use_gauge :: "'r prom_api \<Rightarrow> Metric \<Rightarrow> 'r metrics_state \<Rightarrow> (nat \<times> 'r metrics_state) outcome" where
  "use_gauge api m s =
     (case gauges s (m_name m) of
        Some g \<Rightarrow> Done (g, s)
      | None \<Rightarrow>
          (case prom_NewGauge api (metric_name (m_name m)) (m_desc m) (registry s) of
             Done (g, r) \<Rightarrow> Done (g, s\<lparr>gauges := (gauges s)(m_name m \<mapsto> g), registry := r\<rparr>)
           | Panic \<Rightarrow> Panic
           | Diverge \<Rightarrow> Diverge))"

definition record_with ::
  "(nat \<Rightarrow> float64 \<Rightarrow> 'r \<Rightarrow> 'r outcome) \<Rightarrow> float64 \<Rightarrow> (nat \<times> 'r metrics_state) outcome \<Rightarrow> 'r metrics_state outcome" where
  "record_with change v used =
     (case used of
        Done (c, s) \<Rightarrow>
          (case change c v (registry s) of Done r \<Rightarrow> Done (s\<lparr>registry := r\<rparr>) | Panic \<Rightarrow> Panic | Diverge \<Rightarrow> Diverge)
      | Panic \<Rightarrow> Panic
      | Diverge \<Rightarrow> Diverge)"

definition apply_metric :: "'r prom_api \<Rightarrow> Metric \<Rightarrow> 'r metrics_state \<Rightarrow> 'r metrics_state outcome" where
  "apply_metric api m s =
     (if m_kind m = METRIC_COUNTER then record_with (prom_Add api) (m_value m) (use_counter api m s)
      else if m_kind m = METRIC_GAUGE then record_with (prom_Set api) (m_value m) (use_gauge api m s)
      else Done s)"

fun metric_loop :: "'r prom_api \<Rightarrow> Metric list \<Rightarrow> 'r metrics_state \<Rightarrow> 'r metrics_state outcome" where
  "metric_loop api [] s = Done s"
| "metric_loop api (m # ms) s =
     (case apply_metric api m s of Done s' \<Rightarrow> metric_loop api ms s' | Panic \<Rightarrow> Panic | Diverge \<Rightarrow> Diverge)"

definition metricsHandler :: "'r prom_api \<Rightarrow> json option \<Rightarrow> 'r metrics_state \<Rightarrow> (string option \<times> 'r metrics_state) outcome" where
  "metricsHandler api msg s =
     (case ParseEnvelope msg of
        Inl err \<Rightarrow> Done (Some ''creating new envelope'', s)
      | Inr env \<Rightarrow>
          (case env_Metrics env of
             (ms, Some ErrKind) \<Rightarrow> Done (None, s)
           | (ms, Some ErrUnmarshal) \<Rightarrow> Done (Some ''getting metrics from envelope'', s)
           | (ms, None) \<Rightarrow>
               (case metric_loop api ms s of Done s' \<Rightarrow> Done (None, s') | Panic \<Rightarrow> Panic | Diverge \<Rightarrow> Diverge)))"

section \<open>monitor.go\<close>

text \<open>A handler gets the topic and the message, works on the state of the program, and may return an error.\<close>

type_synonym 's msg_handler = "string \<Rightarrow> frame \<Rightarrow> 's \<Rightarrow> (string option \<times> 's) outcome"

fun run_msg_handlers :: "'s msg_handler list \<Rightarrow> string \<Rightarrow> frame \<Rightarrow> 's \<Rightarrow> (string option \<times> 's) outcome" where
  "run_msg_handlers [] topic msg s = Done (None, s)"
| "run_msg_handlers (h # hs) topic msg s =
     (case h topic msg s of
        Done (None, s') \<Rightarrow> run_msg_handlers hs topic msg s'
      | Done (Some err, s') \<Rightarrow> Done (Some ''running handler'', s')
      | Panic \<Rightarrow> Panic
      | Diverge \<Rightarrow> Diverge)"

text \<open>What an iteration of the loop finds: the context is done, or what the socket returns. The monitor goes on or
  returns, with an error or without.\<close>

datatype mon_input = CtxDone | Recv received

datatype mon_result = Continue | Return "string option"

fun monitor_iteration :: "string \<Rightarrow> 's msg_handler list \<Rightarrow> mon_input \<Rightarrow> 's \<Rightarrow> (mon_result \<times> 's) outcome" where
  "monitor_iteration topic hs CtxDone s = Done (Return None, s)"
| "monitor_iteration topic hs (Recv RecvError) s = Done (Return (Some ''receiving message from publisher''), s)"
| "monitor_iteration topic hs (Recv (RecvMessage [])) s = Panic"
| "monitor_iteration topic hs (Recv (RecvMessage [(t, _)])) s = (if t \<noteq> topic \<or> hs = [] then Done (Continue, s) else Panic)"
| "monitor_iteration topic hs (Recv (RecvMessage ((t, _) # msg # fs))) s =
     (if t \<noteq> topic then Done (Continue, s)
      else case run_msg_handlers hs topic msg s of
             Done (None, s') \<Rightarrow> Done (Continue, s')
           | Done (Some err, s') \<Rightarrow> Done (Return (Some err), s')
           | Panic \<Rightarrow> Panic
           | Diverge \<Rightarrow> Diverge)"

fun monitor_loop :: "string \<Rightarrow> 's msg_handler list \<Rightarrow> mon_input list \<Rightarrow> 's \<Rightarrow> (mon_result \<times> mon_input list \<times> 's) outcome" where
  "monitor_loop topic hs [] s = Done (Continue, [], s)"
| "monitor_loop topic hs (x # xs) s =
     (case monitor_iteration topic hs x s of
        Done (Continue, s') \<Rightarrow> monitor_loop topic hs xs s'
      | Done (Return err, s') \<Rightarrow> Done (Return err, xs, s')
      | Panic \<Rightarrow> Panic
      | Diverge \<Rightarrow> Diverge)"

definition MonitorMsgBusChannel ::
  "zmq_api \<Rightarrow> string \<Rightarrow> string \<Rightarrow> 's msg_handler list \<Rightarrow> mon_input list \<Rightarrow> 's \<Rightarrow> (mon_result \<times> mon_input list \<times> 's) outcome" where
  "MonitorMsgBusChannel zmq endpoint topic hs inputs s =
     (if \<not> zmq_socket zmq then Done (Return (Some ''creating new SUB socket''), inputs, s)
      else if \<not> zmq_connect zmq endpoint then Done (Return (Some ''connecting to publisher''), inputs, s)
      else monitor_loop topic hs inputs s)"

section \<open>cpu.go: the monitors\<close>

text \<open>The monitor of a topic and the goroutine of Run that waits on its error channel: an error starts it again. A
  monitor without a channel is gone after an error. The second component is whether it is still there.\<close>

fun supervise :: "zmq_api \<Rightarrow> string \<Rightarrow> string \<Rightarrow> bool \<Rightarrow> 's msg_handler list \<Rightarrow> nat \<Rightarrow> mon_input list \<Rightarrow> 's \<Rightarrow> (bool \<times> 's) outcome" where
  "supervise zmq endpoint topic errors hs 0 inputs s = Diverge"
| "supervise zmq endpoint topic errors hs (Suc n) inputs s =
     (case MonitorMsgBusChannel zmq endpoint topic hs inputs s of
        Done (Continue, rest, s') \<Rightarrow> Done (True, s')
      | Done (Return None, rest, s') \<Rightarrow> Done (False, s')
      | Done (Return (Some err), rest, s') \<Rightarrow>
          if errors then supervise zmq endpoint topic errors hs n rest s' else Done (False, s')
      | Panic \<Rightarrow> Panic
      | Diverge \<Rightarrow> Diverge)"

text \<open>Every restart but one after a failed connection consumes an input, so their number is fuel enough.\<close>

definition monitored :: "zmq_api \<Rightarrow> string \<Rightarrow> string \<Rightarrow> bool \<Rightarrow> 's msg_handler list \<Rightarrow> mon_input list \<Rightarrow> 's \<Rightarrow> (bool \<times> 's) outcome" where
  "monitored zmq endpoint topic errors hs inputs s = supervise zmq endpoint topic errors hs (Suc (length inputs)) inputs s"

text \<open>The state that the handlers of Run share: the supervision of modules, the metrics, and the log.\<close>

record 'r cpu_program =
  prog_cpu :: cpu_state
  prog_metrics :: "'r metrics_state"
  prog_log :: "(string \<times> string) list"

definition logger :: "'r cpu_program msg_handler" where
  "logger topic msg s = Done (None, s\<lparr>prog_log := prog_log s @ [(topic, fst msg)]\<rparr>)"

definition health_handler :: "'r prom_api \<Rightarrow> 'r cpu_program msg_handler" where
  "health_handler api topic msg s =
     (case metricsHandler api (snd msg) (prog_metrics s) of
        Done (err, ms) \<Rightarrow> Done (err, s\<lparr>prog_metrics := ms\<rparr>)
      | Panic \<Rightarrow> Panic
      | Diverge \<Rightarrow> Diverge)"

definition internal_handler :: "os_api \<Rightarrow> string list \<Rightarrow> 'r cpu_program msg_handler" where
  "internal_handler os order topic msg s =
     (case internalHandler os order (snd msg) (prog_cpu s) of
        Done (err, w) \<Rightarrow> Done (err, s\<lparr>prog_cpu := w\<rparr>)
      | Panic \<Rightarrow> Panic
      | Diverge \<Rightarrow> Diverge)"

text \<open>The topics Run listens to, whether errors are waited for, and the handlers.\<close>

definition cpu_monitors :: "os_api \<Rightarrow> string list \<Rightarrow> 'r prom_api \<Rightarrow> (string \<times> bool \<times> 'r cpu_program msg_handler list) list" where
  "cpu_monitors os order api =
     [(''LOG'', True, [logger]), (''HEALTH'', True, [health_handler api]), (''RUNTIME'', True, [logger]),
      (''INTERNAL'', False, [internal_handler os order])]"

definition cpu_listens ::
  "os_api \<Rightarrow> string list \<Rightarrow> 'r prom_api \<Rightarrow> zmq_api \<Rightarrow> string \<Rightarrow> string \<Rightarrow> mon_input list \<Rightarrow> 'r cpu_program \<Rightarrow> (bool \<times> 'r cpu_program) outcome" where
  "cpu_listens os order api zmq endpoint topic inputs s =
     (case map_of (cpu_monitors os order api) topic of
        None \<Rightarrow> Done (False, s)
      | Some (errors, hs) \<Rightarrow> monitored zmq endpoint topic errors hs inputs s)"

section \<open>What the monitors survive\<close>

definition granted :: "zmq_api \<Rightarrow> bool" where
  "granted zmq \<longleftrightarrow> zmq_socket zmq \<and> (\<forall>e. zmq_connect zmq e)"

lemma Monitor_granted: "granted zmq \<Longrightarrow> MonitorMsgBusChannel zmq endpoint topic hs inputs s = monitor_loop topic hs inputs s"
  by (simp add: MonitorMsgBusChannel_def granted_def)

lemma monitor_loop_append:
  "monitor_loop topic hs (xs @ ys) s =
     (case monitor_loop topic hs xs s of
        Done (Continue, rest, s') \<Rightarrow> monitor_loop topic hs ys s'
      | Done (Return err, rest, s') \<Rightarrow> Done (Return err, rest @ ys, s')
      | Panic \<Rightarrow> Panic
      | Diverge \<Rightarrow> Diverge)"
  by (induction xs arbitrary: s) (simp_all split: outcome.split prod.split mon_result.split)

lemma monitor_loop_rest: "monitor_loop topic hs xs s = Done (Return err, rest, s') \<Longrightarrow> length rest < length xs"
  by (induction xs arbitrary: s) (auto split: outcome.splits prod.splits mon_result.splits dest: less_SucI)

lemma monitor_loop_continue: "monitor_loop topic hs xs s = Done (Continue, rest, s') \<Longrightarrow> rest = []"
  by (induction xs arbitrary: s) (auto split: outcome.splits prod.splits mon_result.splits)

text \<open>More fuel than inputs changes nothing.\<close>

lemma supervise_fuel:
  assumes "granted zmq"
  shows "length inputs < n \<Longrightarrow> supervise zmq endpoint topic errors hs n inputs s = monitored zmq endpoint topic errors hs inputs s"
proof (induction n arbitrary: inputs s rule: less_induct)
  case (less n)
  then obtain k where n: "n = Suc k" by (cases n) auto
  show ?case
  proof (cases "\<exists>err rest s'. monitor_loop topic hs inputs s = Done (Return (Some err), rest, s') \<and> errors")
    case True
    then obtain err rest s' where l: "monitor_loop topic hs inputs s = Done (Return (Some err), rest, s')" "errors" by blast
    have r: "length rest < length inputs" by (rule monitor_loop_rest [OF l(1)])
    have "supervise zmq endpoint topic errors hs k rest s' = monitored zmq endpoint topic errors hs rest s'"
      by (rule less.IH) (use less.prems n r in auto)
    moreover have "supervise zmq endpoint topic errors hs (length inputs) rest s' = monitored zmq endpoint topic errors hs rest s'"
    proof (cases "length inputs < n")
      case True
      then show ?thesis by (rule less.IH) (use r in simp)
    qed (use less.prems in simp)
    ultimately show ?thesis using l n by (simp add: monitored_def Monitor_granted [OF assms])
  next
    case False
    then show ?thesis
      unfolding n monitored_def supervise.simps Monitor_granted [OF assms]
      by (cases "monitor_loop topic hs inputs s") (auto split: mon_result.split option.split)
  qed
qed

lemma monitored_unfold:
  assumes "granted zmq"
  shows "monitored zmq endpoint topic errors hs inputs s =
    (case monitor_loop topic hs inputs s of
       Done (Continue, rest, s') \<Rightarrow> Done (True, s')
     | Done (Return None, rest, s') \<Rightarrow> Done (False, s')
     | Done (Return (Some err), rest, s') \<Rightarrow> if errors then monitored zmq endpoint topic errors hs rest s' else Done (False, s')
     | Panic \<Rightarrow> Panic
     | Diverge \<Rightarrow> Diverge)"
proof -
  have "supervise zmq endpoint topic errors hs (length inputs) rest s' = monitored zmq endpoint topic errors hs rest s'"
    if "monitor_loop topic hs inputs s = Done (Return err, rest, s')" for rest s' err
    by (rule supervise_fuel [OF assms monitor_loop_rest [OF that]])
  then show ?thesis
    unfolding monitored_def [of _ _ _ _ _ inputs] supervise.simps Monitor_granted [OF assms]
    by (auto split: outcome.split prod.split mon_result.split option.split)
qed

lemma monitored_step:
  assumes "granted zmq"
  shows "monitored zmq endpoint topic errors hs (x # xs) s =
    (case monitor_iteration topic hs x s of
       Done (Continue, s') \<Rightarrow> monitored zmq endpoint topic errors hs xs s'
     | Done (Return (Some err), s') \<Rightarrow> if errors then monitored zmq endpoint topic errors hs xs s' else Done (False, s')
     | Done (Return None, s') \<Rightarrow> Done (False, s')
     | Panic \<Rightarrow> Panic
     | Diverge \<Rightarrow> Diverge)"
proof (cases "\<exists>s'. monitor_iteration topic hs x s = Done (Continue, s')")
  case True
  then obtain s' where "monitor_iteration topic hs x s = Done (Continue, s')" by blast
  then have "monitor_loop topic hs (x # xs) s = monitor_loop topic hs xs s'" by simp
  with \<open>monitor_iteration topic hs x s = Done (Continue, s')\<close> show ?thesis
    by (simp add: monitored_unfold [OF assms, of _ _ _ _ "x # xs"] monitored_unfold [OF assms, of _ _ _ _ xs s'])
next
  case False
  then show ?thesis
    unfolding monitored_unfold [OF assms, of _ _ _ _ "x # xs"] monitor_loop.simps
    by (auto split: outcome.split prod.split mon_result.split option.split)
qed

text \<open>A message that is no envelope.\<close>

definition garbage :: "string \<Rightarrow> string \<Rightarrow> mon_input" where
  "garbage topic text = Recv (RecvMessage [(topic, None), (text, None)])"

lemma cpu_listens_garbage:
  assumes "granted zmq"
  shows "cpu_listens os order api zmq endpoint ''INTERNAL'' (garbage ''INTERNAL'' text # inputs) s = Done (False, s)"
    "cpu_listens os order api zmq endpoint ''HEALTH'' (garbage ''HEALTH'' text # inputs) s =
       cpu_listens os order api zmq endpoint ''HEALTH'' inputs s"
    "topic = ''LOG'' \<or> topic = ''RUNTIME'' \<Longrightarrow> cpu_listens os order api zmq endpoint topic (garbage topic text # inputs) s =
       cpu_listens os order api zmq endpoint topic inputs (s\<lparr>prog_log := prog_log s @ [(topic, text)]\<rparr>)"
  using assms
  by (auto simp: cpu_listens_def cpu_monitors_def monitored_step garbage_def internal_handler_def internalHandler_def
      health_handler_def metricsHandler_def ParseEnvelope_def logger_def)

lemma cpu_listens_error:
  assumes "granted zmq" "topic \<in> {''LOG'', ''HEALTH'', ''RUNTIME'', ''INTERNAL''}"
  shows "cpu_listens os order api zmq endpoint topic (Recv RecvError # inputs) s =
    (if topic = ''INTERNAL'' then Done (False, s) else cpu_listens os order api zmq endpoint topic inputs s)"
  using assms by (auto simp: cpu_listens_def cpu_monitors_def monitored_step)

lemma monitored_append:
  assumes "granted zmq"
  shows "monitored zmq endpoint topic errors hs xs s = Done (True, s1) \<Longrightarrow>
    monitored zmq endpoint topic errors hs (xs @ ys) s = monitored zmq endpoint topic errors hs ys s1"
proof (induction xs arbitrary: s)
  case Nil
  then show ?case by (simp add: monitored_unfold [OF assms, of _ _ _ _ "[]"])
next
  case (Cons x xs)
  from Cons.prems Cons.IH show ?case
    by (auto simp: monitored_step [OF assms] split: outcome.splits prod.splits mon_result.splits option.splits if_splits)
qed

lemma cpu_listens_append:
  assumes "granted zmq" "cpu_listens os order api zmq endpoint topic xs s = Done (True, s1)"
  shows "cpu_listens os order api zmq endpoint topic (xs @ ys) s = cpu_listens os order api zmq endpoint topic ys s1"
  using assms(2) monitored_append [OF assms(1)]
  by (auto simp: cpu_listens_def split: option.splits prod.splits)

text \<open>C36: one malformed message ends the control of modules. Run has four monitors. After a message on its topic that is no envelope, the one
  that receives requests to enable and disable modules is gone, and no later message has any effect. On the other topics the same message does no such harm: the
  monitor of metrics ends with an error and is started again, those of logs and of measurements write the text to the log and go on. Likewise, after an
  error of the socket each of the three is started again and the first is gone.\<close>

theorem internal_monitor_dies:
  assumes "granted zmq" "topic \<in> {''LOG'', ''HEALTH'', ''RUNTIME'', ''INTERNAL''}"
    "cpu_listens os order api zmq endpoint topic before s = Done (True, s1)"
  shows "cpu_listens os order api zmq endpoint topic (before @ garbage topic text # later) s =
      (if topic = ''INTERNAL'' then Done (False, s1)
       else if topic = ''HEALTH'' then cpu_listens os order api zmq endpoint topic later s1
       else cpu_listens os order api zmq endpoint topic later (s1\<lparr>prog_log := prog_log s1 @ [(topic, text)]\<rparr>)) \<and>
    cpu_listens os order api zmq endpoint topic (before @ Recv RecvError # later) s =
      (if topic = ''INTERNAL'' then Done (False, s1) else cpu_listens os order api zmq endpoint topic later s1)"
  unfolding cpu_listens_append [OF assms(1,3)] cpu_listens_error [OF assms(1,2)]
  using assms(2) by (auto simp: cpu_listens_garbage [OF assms(1)])

section \<open>Counters\<close>

text \<open>What the documentation of the Prometheus library says: a new counter is zero, and adding a value that is not negative
  adds it.\<close>

definition prometheus_counts :: "'r prom_api \<Rightarrow> ('r \<Rightarrow> nat \<Rightarrow> float64) \<Rightarrow> bool" where
  "prometheus_counts api read \<longleftrightarrow>
     (\<forall>n d r c r'. prom_NewCounter api n d r = Done (c, r') \<longrightarrow> read r' c = f64_zero) \<and>
     (\<forall>c v r. \<not> f64_sign v \<longrightarrow> (\<exists>r'. prom_Add api c v r = Done r' \<and> read r' c = f64_add (read r c) v))"

lemma env_Metrics_roundtrip:
  assumes "NewMetricEnvelope name ms = Inr env"
  shows "ParseEnvelope (Some (enc_envelope env)) = Inr env" "env_Metrics env = (ms, None)"
proof -
  have fin: "list_all (\<lambda>m. f64_finite (m_value m)) ms" using assms by (simp add: NewMetricEnvelope_def split: if_splits)
  have "dec_slice dec_metric zero_metric (enc_slice enc_metric ms) [] = (ms, False)"
    using json_metric.elems [OF fin] by (auto simp: enc_slice_def)
  with assms fin show "env_Metrics env = (ms, None)"
    by (auto simp: NewMetricEnvelope_def env_Metrics_def access_def dec_simps split: if_splits)
  from assms show "ParseEnvelope (Some (enc_envelope env)) = Inr env"
    by (auto simp: NewMetricEnvelope_def ParseEnvelope_def enc_envelope_def dec_envelope_def dec_simps
        dec_string_map_def enc_string_map_def zero_envelope_def split: if_splits)
qed

text \<open>The envelope of a tick of the metrics pusher with one counter, as the monitor receives it.\<close>

lemma health_iteration:
  assumes env: "NewMetricEnvelope name [m] = Inr env" and k: "m_kind m = METRIC_COUNTER"
  shows "monitor_iteration ''HEALTH'' [health_handler api] (Recv (on_topic ''HEALTH'' env)) s =
    (case record_with (prom_Add api) (m_value m) (use_counter api m (prog_metrics s)) of
       Done ms \<Rightarrow> Done (Continue, s\<lparr>prog_metrics := ms\<rparr>) | Panic \<Rightarrow> Panic | Diverge \<Rightarrow> Diverge)"
  by (simp add: on_topic_def health_handler_def metricsHandler_def env_Metrics_roundtrip [OF env] apply_metric_def k split: outcome.split)

lemma add_times: "((\<lambda>x. f64_add x v) ^^ t) (f64_add z v) = f64_add (((\<lambda>x. f64_add x v) ^^ t) z) v"
  using funpow_swap1 [of "\<lambda>x. f64_add x v" t z] by simp

lemma cpu_listens_health:
  "cpu_listens os order api zmq endpoint ''HEALTH'' inputs s = monitored zmq endpoint ''HEALTH'' True [health_handler api] inputs s"
  by (simp add: cpu_listens_def cpu_monitors_def)

lemma health_counts:
  assumes zmq: "granted zmq" and prom: "prometheus_counts api read"
    and env: "NewMetricEnvelope name [m] = Inr env" and m: "m_kind m = METRIC_COUNTER" "\<not> f64_sign (m_value m)"
  shows "counters (prog_metrics s) (m_name m) = Some c \<Longrightarrow> read (registry (prog_metrics s)) c = v \<Longrightarrow>
    \<exists>s'. monitored zmq endpoint ''HEALTH'' True [health_handler api] (replicate t (Recv (on_topic ''HEALTH'' env))) s = Done (True, s') \<and>
      counters (prog_metrics s') (m_name m) = Some c \<and> read (registry (prog_metrics s')) c = ((\<lambda>x. f64_add x (m_value m)) ^^ t) v"
proof (induction t arbitrary: s v)
  case 0
  then show ?case by (simp add: monitored_unfold [OF zmq])
next
  case (Suc t)
  obtain r where r: "prom_Add api c (m_value m) (registry (prog_metrics s)) = Done r" "read r c = f64_add v (m_value m)"
    using prom m(2) Suc.prems(2) unfolding prometheus_counts_def by blast
  let ?s = "s\<lparr>prog_metrics := (prog_metrics s)\<lparr>registry := r\<rparr>\<rparr>"
  have "monitor_iteration ''HEALTH'' [health_handler api] (Recv (on_topic ''HEALTH'' env)) s = Done (Continue, ?s)"
    by (simp add: health_iteration [OF env m(1)] record_with_def use_counter_def Suc.prems(1) r(1))
  with Suc.IH [of ?s "f64_add v (m_value m)"] Suc.prems(1) r(2) show ?case
    by (simp add: monitored_step [OF zmq] add_times)
qed

text \<open>Exported counters run ahead. A module publishes the total of each of its counters with every tick, and the CPU
  module adds what it receives to the exported counter. After a number of ticks in which the counter of the module did
  not change, the exported one is the sum of that many copies of it.\<close>

lemma counters_overcounted:
  assumes zmq: "granted zmq" and prom: "prometheus_counts api read" and t: "0 < t"
    and m: "ms = [k \<mapsto> m]" "m_kind m = METRIC_COUNTER" "\<not> f64_sign (m_value m)"
    and env: "NewMetricEnvelope name (metric_updates name [k] ms) = Inr env"
    and new: "counters (prog_metrics s) (m_name (prefixed name m)) = None"
      "prom_NewCounter api (metric_name (m_name (prefixed name m))) (m_desc m) (registry (prog_metrics s)) = Done (c, r)"
  shows "\<exists>s'. cpu_listens os order api zmq endpoint ''HEALTH'' (replicate t (Recv (on_topic ''HEALTH'' env))) s = Done (True, s') \<and>
    counters (prog_metrics s') (m_name (prefixed name m)) = Some c \<and>
    read (registry (prog_metrics s')) c = ((\<lambda>x. f64_add x (m_value m)) ^^ t) f64_zero"
proof -
  let ?m = "prefixed name m"
  have e: "NewMetricEnvelope name [?m] = Inr env" using env m(1) by (simp add: metric_updates_def List.map_filter_def)
  have pm: "m_kind ?m = METRIC_COUNTER" "\<not> f64_sign (m_value ?m)" "m_value ?m = m_value m" "m_desc ?m = m_desc m"
    using m(2,3) by (simp_all add: prefixed_def Let_def)
  have z: "read r c = f64_zero" using prom new(2) unfolding prometheus_counts_def by blast
  obtain r' where r': "prom_Add api c (m_value m) r = Done r'" "read r' c = f64_add f64_zero (m_value m)"
    using prom m(3) z unfolding prometheus_counts_def by metis
  obtain n where n: "t = Suc n" using t by (cases t) auto
  let ?s = "s\<lparr>prog_metrics := (prog_metrics s)\<lparr>counters := (counters (prog_metrics s))(m_name ?m \<mapsto> c), registry := r'\<rparr>\<rparr>"
  have "monitor_iteration ''HEALTH'' [health_handler api] (Recv (on_topic ''HEALTH'' env)) s = Done (Continue, ?s)"
    using new r'(1) by (simp add: health_iteration [OF e pm(1)] record_with_def use_counter_def pm)
  moreover have "counters (prog_metrics ?s) (m_name ?m) = Some c" "read (registry (prog_metrics ?s)) c = f64_add f64_zero (m_value m)"
    using r'(2) by simp_all
  from health_counts [OF zmq prom e pm(1,2) this, of endpoint n]
  obtain s' where "monitored zmq endpoint ''HEALTH'' True [health_handler api] (replicate n (Recv (on_topic ''HEALTH'' env))) ?s = Done (True, s')"
    "counters (prog_metrics s') (m_name ?m) = Some c"
    "read (registry (prog_metrics s')) c = ((\<lambda>x. f64_add x (m_value m)) ^^ n) (f64_add f64_zero (m_value m))"
    unfolding pm(3) by blast
  ultimately show ?thesis by (simp add: cpu_listens_health n monitored_step [OF zmq] add_times)
qed

section \<open>Instances\<close>

definition demo_zmq :: zmq_api where
  "demo_zmq = \<lparr>zmq_context = True, zmq_socket = True, zmq_connect = (\<lambda>_. True), zmq_linger = True, zmq_sends = (\<lambda>_. True)\<rparr>"

text \<open>A registry that numbers its counters and keeps their values.\<close>

definition demo_prom :: "(nat \<times> (nat \<Rightarrow> float64)) prom_api" where
  "demo_prom = \<lparr>prom_NewCounter = (\<lambda>n d (k, f). Done (k, (k + 1, f(k := f64_zero)))),
     prom_NewGauge = (\<lambda>n d (k, f). Done (k, (k + 1, f(k := f64_zero)))),
     prom_Add = (\<lambda>c v (k, f). Done (k, f(c := f64_add (f c) v))), prom_Set = (\<lambda>c v (k, f). Done (k, f(c := v)))\<rparr>"

definition demo_program :: "(nat \<times> (nat \<Rightarrow> float64)) cpu_program" where
  "demo_program = \<lparr>prog_cpu = demo_cpu None 0 Launch [] False, prog_metrics = no_metrics (0, \<lambda>_. f64_zero), prog_log = []\<rparr>"

lemma demo_prom_counts: "prometheus_counts demo_prom (\<lambda>r c. snd r c)"
  by (auto simp: prometheus_counts_def demo_prom_def split: prod.splits)

theorem internal_monitor_dies_witness:
  "granted demo_zmq \<and> cpu_listens demo_os [''m''] demo_prom demo_zmq [] ''INTERNAL''
     [garbage ''INTERNAL'' ''x'', garbage ''INTERNAL'' ''y''] demo_program = Done (False, demo_program)"
proof -
  have g: "granted demo_zmq" by (simp add: granted_def demo_zmq_def)
  have "cpu_listens demo_os [''m''] demo_prom demo_zmq [] ''INTERNAL'' [] demo_program = Done (True, demo_program)"
    by (simp add: cpu_listens_def cpu_monitors_def monitored_unfold [OF g])
  from internal_monitor_dies [OF g _ this, of "''x''" "[garbage ''INTERNAL'' ''y'']"] g show ?thesis by simp
qed

lemma zero_add:
  assumes "f64_finite x" "\<not> f64_sign x" "0 < f64_mant x" "- 1074 \<le> f64_exp x"
  shows "f64_add f64_zero x = x"
proof -
  have z: "f64_sign f64_zero = False" "f64_mant f64_zero = 0" "f64_exp f64_zero = - 1074" "\<not> f64_is_nan f64_zero" "\<not> f64_is_inf f64_zero"
    by (simp_all add: fp_eval cong: let_weak_cong)
  let ?k = "nat (f64_exp x + 1074)"
  have "f64_pack False (f64_mant x * 2 ^ ?k) (f64_exp x - int ?k) = x"
    using f64_pack_unpack [OF assms(1)] assms(2) by (simp only: f64_pack_scale)
  moreover have "f64_exp x - int ?k = - 1074" using assms(4) by simp
  moreover have "0 < f64_mant x * 2 ^ ?k" using assms(3) by simp
  ultimately show ?thesis
    using assms(2,4) f64_finite_not_special [OF assms(1)]
    by (simp del: of_nat_mult of_nat_power add: f64_add_def Let_def z min_def)
qed

lemma one_facts:
  "f64_finite f64_one" "\<not> f64_sign f64_one" "f64_add f64_zero f64_one = f64_one" "f64_add f64_one f64_one = f64_of_int 2"
proof -
  show fin: "f64_finite f64_one" "\<not> f64_sign f64_one" "f64_add f64_one f64_one = f64_of_int 2"
    by (simp_all add: fp_eval cong: let_weak_cong)
  show "f64_add f64_zero f64_one = f64_one" by (rule zero_add [OF fin(1,2)]) (simp_all add: f64_one_fields)
qed

text \<open>A counter that was raised once and published twice.\<close>

lemma counters_overcounted_witness:
  "\<exists>env s' c. NewMetricEnvelope ''rtu'' (metric_updates ''rtu'' [''n''] (IncrMetric ''n'' (NewMetric METRIC_COUNTER ''n'' [] Map.empty))) = Inr env \<and>
     cpu_listens demo_os [''m''] demo_prom demo_zmq [] ''HEALTH'' (replicate 2 (Recv (on_topic ''HEALTH'' env))) demo_program = Done (True, s') \<and>
     counters (prog_metrics s') ''rtu_n'' = Some c \<and> snd (registry (prog_metrics s')) c = f64_of_int 2"
proof -
  let ?m = "\<lparr>m_kind = METRIC_COUNTER, m_name = ''n'', m_desc = [], m_value = f64_one\<rparr>"
  note one = one_facts(3,4,1,2)
  have ms: "IncrMetric ''n'' (NewMetric METRIC_COUNTER ''n'' [] Map.empty) = [''n'' \<mapsto> ?m]"
    by (simp add: IncrMetric_def NewMetric_def one(1))
  have pn: "m_name (prefixed ''rtu'' ?m) = ''rtu_n''" by (simp add: prefixed_def)
  obtain env where env: "NewMetricEnvelope ''rtu'' (metric_updates ''rtu'' [''n''] [''n'' \<mapsto> ?m]) = Inr env"
    using one(3) by (simp add: NewMetricEnvelope_def metric_updates_def List.map_filter_def prefixed_def)
  have g: "granted demo_zmq" by (simp add: granted_def demo_zmq_def)
  have new: "counters (prog_metrics demo_program) (m_name (prefixed ''rtu'' ?m)) = None"
    "prom_NewCounter demo_prom (metric_name (m_name (prefixed ''rtu'' ?m))) (m_desc ?m) (registry (prog_metrics demo_program)) =
      Done (0, (1, (\<lambda>_. f64_zero)(0 := f64_zero)))"
    by (simp_all add: demo_program_def no_metrics_def demo_prom_def)
  have two: "((\<lambda>x. f64_add x (m_value ?m)) ^^ 2) f64_zero = f64_of_int 2" by (simp add: numeral_2_eq_2 one)
  from counters_overcounted [OF g demo_prom_counts _ refl _ _ env new, of 2 demo_os "[''m'']" "[]"] env
  show ?thesis unfolding ms two pn using one(4) by auto
qed

end
