(* ===== verification/CpuLogs.thy ===== *)
theory CpuLogs
  imports CpuCorrect
begin

text \<open>
  How the CPU module ships the output of its child processes to log services
  (cpu/execute.go): lines are collected and posted in batches of ten to Elasticsearch
  and to Loki, where they are configured. HTTP requests are recorded, not answered.
\<close>

section \<open>Text\<close>

definition show_int :: "int \<Rightarrow> string" where
  "show_int i = (if i < 0 then CHR ''-'' # show_nat (nat (- i)) else show_nat (nat i))"

definition quot :: "int \<Rightarrow> int \<Rightarrow> int" where
  "quot a b = (if 0 \<le> a then a div b else - ((- a) div b))"

fun join :: "string \<Rightarrow> string list \<Rightarrow> string" where
  "join sep [] = []"
| "join sep [s] = s"
| "join sep (s # t # ss) = s @ sep @ join sep (t # ss)"

section \<open>Bodies of the requests\<close>

text \<open>A line with the time it was read, in nanoseconds, as text.\<close>

type_synonym log_value = "string \<times> string"

definition elastic_doc :: "string \<Rightarrow> string \<Rightarrow> string \<Rightarrow> log_value \<Rightarrow> string" where
  \<open>elastic_doc hostname name ty val =
     ''{"@timestamp": '' @ show_int (quot (fst (Atoi (fst val))) 1000000) @ '', "host": '' @ hostname @ '', "module": '' @ name @
     '', "type": '' @ ty @ '', "log": '' @ snd val @ ''}''\<close>

definition buildElasticBulk :: "string \<Rightarrow> string \<Rightarrow> string \<Rightarrow> log_value list \<Rightarrow> string" where
  \<open>buildElasticBulk hostname name ty vals =
     join ''\<newline>'' (concat (map (\<lambda>val. [''{"index":{}}'', elastic_doc hostname name ty val]) vals))\<close>

definition buildLokiStream :: "string \<Rightarrow> string \<Rightarrow> string \<Rightarrow> log_value list \<Rightarrow> json" where
  "buildLokiStream hostname name ty vals =
     JObject [(''streams'', JArray [JObject
       [(''stream'', JObject [(''host'', JString hostname), (''module'', JString name), (''type'', JString ty)]),
        (''values'', enc_slice (\<lambda>(ts, text). JArray [JString ts, JString text]) vals)]])]"

section \<open>The scanners\<close>

record log_clients =
  elasticURL :: "string option"
  lokiURL :: "string option"

definition log_clients_of :: "Context \<Rightarrow> log_clients" where
  "log_clients_of ctx =
     \<lparr>elasticURL = (let e = ctxGetElasticEndpoint ctx in if e \<noteq> [] then Some (e @ ''/'' @ ctxGetElasticIndex ctx @ ''/_bulk'') else None),
      lokiURL = (let e = ctxGetLokiEndpoint ctx in if e \<noteq> [] then Some (e @ ''/loki/api/v1/push'') else None)\<rparr>"

record http_post =
  post_url :: string
  post_type :: string
  post_body :: http_body

text \<open>The requests for one batch.\<close>

definition post_batch :: "string \<Rightarrow> string \<Rightarrow> string \<Rightarrow> log_clients \<Rightarrow> log_value list \<Rightarrow> http_post list" where
  "post_batch hostname name ty lc vals =
     (case elasticURL lc of
        None \<Rightarrow> []
      | Some url \<Rightarrow> [\<lparr>post_url = url, post_type = ''application/x-ndjson'', post_body = Text_Body (buildElasticBulk hostname name ty vals)\<rparr>]) @
     (case lokiURL lc of
        None \<Rightarrow> []
      | Some url \<Rightarrow> [\<lparr>post_url = url, post_type = ''application/json'', post_body = Json_Body (buildLokiStream hostname name ty vals)\<rparr>])"

text \<open>The body of the loop over the lines of stdout (ty is log) or stderr (ty is error); a line comes with the time at
  which it was read.\<close>

definition scan_line ::
  "string \<Rightarrow> string \<Rightarrow> string \<Rightarrow> log_clients \<Rightarrow> int \<times> string \<Rightarrow> log_value list \<times> http_post list \<Rightarrow> log_value list \<times> http_post list" where
  "scan_line hostname name ty lc line s =
     (if elasticURL lc \<noteq> None \<or> lokiURL lc \<noteq> None
      then let vals = fst s @ [(show_int (fst line), snd line)]
           in if 10 \<le> length vals then ([], snd s @ post_batch hostname name ty lc vals) else (vals, snd s)
      else s)"

definition scan_output ::
  "string \<Rightarrow> string \<Rightarrow> string \<Rightarrow> log_clients \<Rightarrow> (int \<times> string) list \<Rightarrow> log_value list \<times> http_post list" where
  "scan_output hostname name ty lc lines = fold (scan_line hostname name ty lc) lines ([], [])"

section \<open>Batches\<close>

lemma scan_batches:
  assumes "elasticURL lc \<noteq> None \<or> lokiURL lc \<noteq> None" "length vals < 10"
  shows "\<exists>bs rest. fold (scan_line hostname name ty lc) lines (vals, posts) =
      (rest, posts @ concat (map (post_batch hostname name ty lc) bs)) \<and>
    vals @ map (\<lambda>(t, text). (show_int t, text)) lines = concat bs @ rest \<and> (\<forall>b \<in> set bs. length b = 10) \<and> length rest < 10"
  using assms(2)
proof (induction lines arbitrary: vals posts)
  case Nil
  then show ?case by (intro exI [of _ "[]"] exI [of _ vals]) simp
next
  case (Cons line lines)
  let ?vs = "vals @ [(show_int (fst line), snd line)]"
  show ?case
  proof (cases "10 \<le> length ?vs")
    case True
    then have step: "scan_line hostname name ty lc line (vals, posts) = ([], posts @ post_batch hostname name ty lc ?vs)"
      using assms(1) unfolding scan_line_def Let_def fst_conv snd_conv by (simp only: if_True)
    from Cons.IH [of "[]" "posts @ post_batch hostname name ty lc ?vs"]
    obtain bs rest where rec: "fold (scan_line hostname name ty lc) lines ([], posts @ post_batch hostname name ty lc ?vs) =
        (rest, (posts @ post_batch hostname name ty lc ?vs) @ concat (map (post_batch hostname name ty lc) bs))"
      "[] @ map (\<lambda>(t, text). (show_int t, text)) lines = concat bs @ rest" "\<forall>b \<in> set bs. length b = 10" "length rest < 10" by auto
    have "length ?vs = 10" using True Cons.prems by simp
    with rec step show ?thesis
      by (intro exI [of _ "?vs # bs"] exI [of _ rest]) (cases line, simp)
  next
    case False
    then have step: "scan_line hostname name ty lc line (vals, posts) = (?vs, posts)"
      using assms(1) unfolding scan_line_def Let_def fst_conv snd_conv by (simp only: if_True if_False)
    from False Cons.IH [of ?vs posts]
    obtain bs rest where "fold (scan_line hostname name ty lc) lines (?vs, posts) = (rest, posts @ concat (map (post_batch hostname name ty lc) bs))"
      "?vs @ map (\<lambda>(t, text). (show_int t, text)) lines = concat bs @ rest" "\<forall>b \<in> set bs. length b = 10" "length rest < 10" by auto
    with step show ?thesis by (intro exI [of _ bs] exI [of _ rest]) (cases line, simp)
  qed
qed

lemma length_batches: "\<forall>b \<in> set bs. length b = 10 \<Longrightarrow> length (concat bs) = 10 * length bs"
  by (induction bs) simp_all

text \<open>C37: log lines are shipped in batches of ten, and the rest is lost. Where a log service is configured, the lines of
  a process are posted in order, ten at a time, once to each service; never more than nine lines wait. The lines
  after the last full batch, as many as the remainder by ten, are in no request: those of a process that has
  ended, its last words, are never sent.\<close>

theorem log_lines_in_tens:
  assumes "elasticURL lc \<noteq> None \<or> lokiURL lc \<noteq> None" "scan_output hostname name ty lc lines = (waiting, posts)"
  shows "length waiting = length lines mod 10 \<and>
    (\<exists>batches. posts = concat (map (post_batch hostname name ty lc) batches) \<and> length batches = length lines div 10 \<and>
      (\<forall>b \<in> set batches. length b = 10) \<and>
      map (\<lambda>(t, text). (show_int t, text)) lines = concat batches @ waiting)"
proof -
  from scan_batches [OF assms(1), of "[]" hostname name ty lines "[]"] assms(2)
  obtain bs where bs: "posts = concat (map (post_batch hostname name ty lc) bs)"
    "map (\<lambda>(t, text). (show_int t, text)) lines = concat bs @ waiting" "\<forall>b \<in> set bs. length b = 10" "length waiting < 10"
    by (auto simp: scan_output_def)
  have "length lines = 10 * length bs + length waiting"
    using arg_cong [OF bs(2), of length] length_batches [OF bs(3)] by simp
  with bs(4) have "length waiting = length lines mod 10" "length bs = length lines div 10" by simp_all
  with bs show ?thesis by blast
qed

text \<open>The documents for Elasticsearch hold the names and the line without quotation marks, so they are no JSON.\<close>

lemma elastic_documents_unquoted:
  \<open>buildElasticBulk ''host'' ''rtu'' ''log'' [(''1000000'', ''started'')] =
     ''{"index":{}}'' @ ''\<newline>'' @ ''{"@timestamp": 1, "host": host, "module": rtu, "type": log, "log": started}''\<close>
  by (simp add: buildElasticBulk_def elastic_doc_def quot_def show_int_def Atoi_def digits_val_def digit_val_def is_digit_def show_nat.simps char_of_def bit_0)

section \<open>Instances\<close>

theorem log_lines_in_tens_witness:
  "length (fst (scan_output ''h'' ''m'' ''log'' \<lparr>elasticURL = None, lokiURL = Some ''u''\<rparr> (replicate 12 (0, ''x'')))) = 2"
  using log_lines_in_tens [of "\<lparr>elasticURL = None, lokiURL = Some ''u''\<rparr>" "''h''" "''m''" "''log''" "replicate 12 (0, ''x'')"
      "fst (scan_output ''h'' ''m'' ''log'' \<lparr>elasticURL = None, lokiURL = Some ''u''\<rparr> (replicate 12 (0, ''x'')))"
      "snd (scan_output ''h'' ''m'' ''log'' \<lparr>elasticURL = None, lokiURL = Some ''u''\<rparr> (replicate 12 (0, ''x'')))"]
  by simp

end
