(* ===== verification/CpuApi.thy ===== *)
theory CpuApi
  imports CpuCorrect
begin

text \<open>
  The HTTP interface of the CPU module (cpu/api.go) to the measurements on the bus. The
  router is not part of the program: a handler gets the variables of the path, empty
  when the path has none. What the handlers of modules do is in Cpu.
\<close>

section \<open>State\<close>

record APIServer =
  points :: "string \<rightharpoonup> Point"
  api_pusher :: Pusher

definition NewAPIServer :: "zmq_api \<Rightarrow> string \<Rightarrow> string \<Rightarrow> APIServer outcome" where
  "NewAPIServer zmq pull pub =
     (case MustNewSubscriber zmq pub () of
        Done b \<Rightarrow>
          (case MustNewPusher zmq pull of
             Done p \<Rightarrow> Done \<lparr>points = Map.empty, api_pusher = p\<rparr>
           | Panic \<Rightarrow> Panic
           | Diverge \<Rightarrow> Diverge)
      | Panic \<Rightarrow> Panic
      | Diverge \<Rightarrow> Diverge)"

text \<open>How Start listens. Reading the file of the certificate authority may fail; then nothing is started.\<close>

datatype listener = Plain | With_TLS | Mutual_TLS

definition api_listener :: "(string \<Rightarrow> bool) \<Rightarrow> string \<Rightarrow> string \<Rightarrow> string \<Rightarrow> listener result" where
  "api_listener readable cert key ca =
     (if cert \<noteq> [] \<and> key \<noteq> [] then
        (if ca \<noteq> [] then (if readable ca then Inr Mutual_TLS else Inl ''building config for mutual TLS'')
         else Inr With_TLS)
      else Inr Plain)"

section \<open>Handlers\<close>

text \<open>A status that could not be decoded in full is logged and still applied as far as it was.\<close>

definition HandleMsgBusStatus :: "Envelope \<Rightarrow> APIServer \<Rightarrow> APIServer" where
  "HandleMsgBusStatus env s =
     (case env_Status env of
        (status, Some ErrKind) \<Rightarrow> s
      | (status, _) \<Rightarrow> s\<lparr>points := fold (\<lambda>p m. m(pt_tag p \<mapsto> p)) (Measurements status) (points s)\<rparr>)"

definition marshal_points :: "Point list \<Rightarrow> json result" where
  "marshal_points ps =
     (if points_finite ps then Inr (JObject [(''points'', enc_slice enc_point ps)]) else Inl ''unsupported value'')"

definition marshal_point :: "Point \<Rightarrow> json result" where
  "marshal_point p = (if f64_finite (pt_value p) then Inr (enc_point p) else Inl ''unsupported value'')"

definition json_reply :: "json result \<Rightarrow> http_reply" where
  "json_reply r = (case r of Inl err \<Rightarrow> write_header 500 | Inr body \<Rightarrow> write_json body)"

definition handleQuery :: "string list \<Rightarrow> string \<Rightarrow> APIServer \<Rightarrow> http_reply" where
  "handleQuery order tag s =
     (if tag = [] then json_reply (marshal_points (List.map_filter (points s) order))
      else case points s tag of
             Some p \<Rightarrow> json_reply (marshal_point p)
           | None \<Rightarrow> write_header 400)"

text \<open>Pushing a status and then an update; the first failure ends it.\<close>

definition push_both :: "Status \<Rightarrow> Update \<Rightarrow> APIServer \<Rightarrow> http_reply \<times> APIServer" where
  "push_both status update s =
     (case NewEnvelope ''cpu-api'' (C_Status status) of
        Inl err \<Rightarrow> (write_header 500, s)
      | Inr env \<Rightarrow>
          (case Push ''RUNTIME'' env (api_pusher s) of
             (Some err, p) \<Rightarrow> (write_header 500, s\<lparr>api_pusher := p\<rparr>)
           | (None, p) \<Rightarrow>
               (case NewEnvelope ''cpu-api'' (C_Update update) of
                  Inl err \<Rightarrow> (write_header 500, s\<lparr>api_pusher := p\<rparr>)
                | Inr env' \<Rightarrow>
                    (case Push ''RUNTIME'' env' p of
                       (Some err, p') \<Rightarrow> (write_header 500, s\<lparr>api_pusher := p'\<rparr>)
                     | (None, p') \<Rightarrow> (write_header 204, s\<lparr>api_pusher := p'\<rparr>)))))"

text \<open>The body of the request: an error of reading it, or its JSON value, if it is JSON.\<close>

definition handleWrite :: "string \<Rightarrow> string \<Rightarrow> json option result \<Rightarrow> APIServer \<Rightarrow> http_reply \<times> APIServer" where
  "handleWrite tag val body s =
     (if tag \<noteq> [] \<and> val \<noteq> [] then
        (case ParseFloat val of
           None \<Rightarrow> (write_header 400, s)
         | Some v \<Rightarrow>
             (let p = \<lparr>pt_tag = tag, pt_value = v, pt_ts = 0\<rparr>
              in push_both \<lparr>Measurements = [p]\<rparr> \<lparr>Updates = [p], up_recipient = [], up_confirm = []\<rparr> s))
      else
        (case body of
           Inl err \<Rightarrow> (write_header 500, s)
         | Inr None \<Rightarrow> (write_header 400, s)
         | Inr (Some j) \<Rightarrow>
             (case dec_update j \<lparr>Updates = [], up_recipient = [], up_confirm = []\<rparr> of
                (update, True) \<Rightarrow> (write_header 400, s)
              | (update, False) \<Rightarrow> push_both \<lparr>Measurements = Updates update\<rparr> update s)))"

section \<open>The web socket\<close>

text \<open>The writer pings, and publishes all points, each with its own timer, until a message cannot be built or written.\<close>

datatype ws_tick = PingTick | PubTick

datatype ws_message = PingMessage | TextMessage json

definition ws_build :: "ws_tick \<Rightarrow> string list \<Rightarrow> APIServer \<Rightarrow> ws_message option" where
  "ws_build tick order s =
     (case tick of
        PingTick \<Rightarrow> Some PingMessage
      | PubTick \<Rightarrow> (case marshal_points (List.map_filter (points s) order) of Inl err \<Rightarrow> None | Inr body \<Rightarrow> Some (TextMessage body)))"

fun wsWriter :: "(nat \<Rightarrow> bool) \<Rightarrow> (ws_tick \<times> string list \<times> APIServer) list \<Rightarrow> ws_message list \<Rightarrow> bool \<times> ws_message list" where
  "wsWriter ok [] out = (True, out)"
| "wsWriter ok ((tick, order, s) # ticks) out =
     (case ws_build tick order s of
        None \<Rightarrow> (False, out)
      | Some m \<Rightarrow> if ok (length out) then wsWriter ok ticks (out @ [m]) else (False, out))"

text \<open>The reader closes the connection at the first error of a read; it ignores what it reads. True while it goes on.\<close>

fun wsReader :: "string result list \<Rightarrow> bool" where
  "wsReader [] = True"
| "wsReader (Inl err # msgs) = False"
| "wsReader (Inr msg # msgs) = wsReader msgs"

section \<open>Starting the interface\<close>

text \<open>The interface subscribes to the measurements only when it listens. The CPU module starts it when it has an
  endpoint for it; an error is logged and the CPU module goes on without it.\<close>

definition APIServer_Start ::
  "(string \<Rightarrow> bool) \<Rightarrow> string \<Rightarrow> string \<Rightarrow> string \<Rightarrow> APIServer bus \<Rightarrow> string option \<times> listener option \<times> APIServer bus" where
  "APIServer_Start readable cert key ca b =
     (case api_listener readable cert key ca of
        Inl err \<Rightarrow> (Some err, None, b)
      | Inr l \<Rightarrow> (None, Some l, Subscriber_Start ''RUNTIME'' (AddStatusHandler HandleMsgBusStatus b)))"

definition cpu_api :: "zmq_api \<Rightarrow> (string \<Rightarrow> bool) \<Rightarrow> CPU \<Rightarrow> string \<Rightarrow> string \<Rightarrow> (listener option \<times> APIServer bus) option outcome" where
  "cpu_api zmq readable c pull pub =
     (if apiEndpoint c = [] then Done None
      else case NewAPIServer zmq pull pub of
             Done s \<Rightarrow>
               (case APIServer_Start readable (apiCert c) (apiKey c) (apiCACert c) (empty_subscriber s) of
                  (err, l, b) \<Rightarrow> Done (Some (l, b)))
           | Panic \<Rightarrow> Panic
           | Diverge \<Rightarrow> Diverge)"

section \<open>A write comes back\<close>

lemma push_both_ok:
  assumes "NewEnvelope ''cpu-api'' (C_Status status) = Inr env" "NewEnvelope ''cpu-api'' (C_Update update) = Inr env'"
    "sock (api_pusher s) (attempts (api_pusher s))" "sock (api_pusher s) (attempts (api_pusher s) + 1)"
  shows "\<exists>s1. push_both status update s = (write_header 204, s1) \<and> points s1 = points s \<and>
    sent (api_pusher s1) = sent (api_pusher s) @ [(''RUNTIME'', P_Envelope env), (''RUNTIME'', P_Envelope env')]"
  using assms by (auto simp: push_both_def Push_def SendMessage_def)

text \<open>A value written over HTTP can be read back. Writing a finite number to a tag is answered with 204 after a
  status and an update with that point were pushed; when the bus delivers the status to the interface again, a query
  for the tag returns the number, and other tags are as they were. Text that is no number is refused with 400, a number
  that is not finite with 500, and then nothing is pushed.\<close>

lemma api_write_then_query:
  assumes "tag \<noteq> []" "val \<noteq> []" "sock (api_pusher s) (attempts (api_pusher s))" "sock (api_pusher s) (attempts (api_pusher s) + 1)"
  defines "p \<equiv> \<lambda>v. \<lparr>pt_tag = tag, pt_value = v, pt_ts = 0\<rparr>"
  shows "case ParseFloat val of
      None \<Rightarrow> handleWrite tag val body s = (write_header 400, s)
    | Some v \<Rightarrow>
        if f64_finite v then
          \<exists>s1 env env'. handleWrite tag val body s = (write_header 204, s1) \<and>
            NewEnvelope ''cpu-api'' (C_Status \<lparr>Measurements = [p v]\<rparr>) = Inr env \<and>
            NewEnvelope ''cpu-api'' (C_Update \<lparr>Updates = [p v], up_recipient = [], up_confirm = []\<rparr>) = Inr env' \<and>
            sent (api_pusher s1) = sent (api_pusher s) @ [(''RUNTIME'', P_Envelope env), (''RUNTIME'', P_Envelope env')] \<and>
            handleQuery order tag (HandleMsgBusStatus env s1) = write_json (enc_point (p v)) \<and>
            (\<forall>t. t \<noteq> tag \<longrightarrow> t \<noteq> [] \<longrightarrow> handleQuery order t (HandleMsgBusStatus env s1) = handleQuery order t s)
        else handleWrite tag val body s = (write_header 500, s)"
proof (cases "ParseFloat val")
  case None
  with assms(1,2) show ?thesis by (simp add: handleWrite_def)
next
  case (Some v)
  let ?st = "\<lparr>Measurements = [p v]\<rparr>" and ?up = "\<lparr>Updates = [p v], up_recipient = [], up_confirm = []\<rparr>"
  have w: "handleWrite tag val body s = push_both ?st ?up s" using Some assms(1,2) by (simp add: handleWrite_def p_def Let_def)
  show ?thesis
  proof (cases "f64_finite v")
    case True
    then have fin: "points_finite (Measurements ?st)" "points_finite (Updates ?up)" by (simp_all add: points_finite_def p_def)
    obtain env env' where env: "NewEnvelope ''cpu-api'' (C_Status ?st) = Inr env" "NewEnvelope ''cpu-api'' (C_Update ?up) = Inr env'"
      using fin NewEnvelope_fails_iff(1,2) by blast
    obtain s1 where s1: "push_both ?st ?up s = (write_header 204, s1)" "points s1 = points s"
      "sent (api_pusher s1) = sent (api_pusher s) @ [(''RUNTIME'', P_Envelope env), (''RUNTIME'', P_Envelope env')]"
      using push_both_ok [OF env assms(3,4)] by blast
    have pts: "points (HandleMsgBusStatus env s1) = (points s)(tag \<mapsto> p v)"
      using env_Status_NewEnvelope [OF env(1)] s1(2) by (simp add: HandleMsgBusStatus_def p_def)
    have "handleQuery order tag (HandleMsgBusStatus env s1) = write_json (enc_point (p v))"
      using True assms(1) by (simp add: handleQuery_def pts marshal_point_def json_reply_def) (simp add: p_def)
    moreover have "handleQuery order t (HandleMsgBusStatus env s1) = handleQuery order t s" if "t \<noteq> tag" "t \<noteq> []" for t
      using that by (simp add: handleQuery_def pts)
    ultimately show ?thesis using Some True w s1 env by auto
  next
    case False
    then have "\<not> points_finite (Measurements ?st)" by (simp add: points_finite_def p_def)
    then obtain err where "NewEnvelope ''cpu-api'' (C_Status ?st) = Inl err"
      using NewEnvelope_fails_iff(1) [of "''cpu-api''" ?st] by (cases "NewEnvelope ''cpu-api'' (C_Status ?st)") auto
    with Some False w show ?thesis by (simp add: push_both_def)
  qed
qed

text \<open>A configuration with a key, a certificate and a certificate authority never listens without checking clients.\<close>

lemma mutual_tls_enforced:
  "cert \<noteq> [] \<Longrightarrow> key \<noteq> [] \<Longrightarrow> ca \<noteq> [] \<Longrightarrow> api_listener readable cert key ca = Inr l \<Longrightarrow> l = Mutual_TLS"
  by (simp add: api_listener_def split: if_splits)

text \<open>The writer of a web socket sends a ping or the points for every tick, in order, up to the first that fails.\<close>

lemma wsWriter_prefix:
  "wsWriter ok ticks out = (alive, out') \<Longrightarrow>
     \<exists>n \<le> length ticks. map Some (drop (length out) out') = map (\<lambda>(t, order, s). ws_build t order s) (take n ticks) \<and>
       take (length out) out' = out \<and> (alive \<longrightarrow> n = length ticks)"
proof (induction ok ticks out rule: wsWriter.induct)
  case (2 ok tick order s ticks out)
  show ?case
  proof (cases "\<exists>m. ws_build tick order s = Some m \<and> ok (length out)")
    case True
    then obtain m where m: "ws_build tick order s = Some m" "ok (length out)" by blast
    with 2 obtain n where n: "n \<le> length ticks" "map Some (drop (length (out @ [m])) out') = map (\<lambda>(t, order, s). ws_build t order s) (take n ticks)"
      "take (length (out @ [m])) out' = out @ [m]" "alive \<longrightarrow> n = length ticks" by auto
    have o: "out' = out @ m # drop (Suc (length out)) out'"
      using n(3) append_take_drop_id [of "Suc (length out)" out'] by simp
    then have d: "drop (length out) out' = m # drop (Suc (length out)) out'" "take (length out) out' = out"
      by (metis append_eq_conv_conj)+
    show ?thesis by (rule exI [of _ "Suc n"]) (use n m d in simp)
  next
    case False
    with 2 show ?thesis by (intro exI [of _ 0]) (auto split: option.splits if_splits)
  qed
qed simp

section \<open>Instances\<close>

lemma parse_five: "ParseFloat ''5'' = Some (f64_of_decimal False 5 0)" "f64_finite (f64_of_decimal False 5 0)"
proof -
  have five: "f64_finite (f64_of_decimal False 5 0)" "\<not> f64_is_inf (f64_of_decimal False 5 0)"
    by (simp_all add: f64_of_decimal_def fp_eval cong: let_weak_cong)
  have "read_float ''5'' = Some (5, 0, False)"
    by (simp add: read_float_def is_digit_def digit_val_def lower_def to_lower_char_def Let_def)
  then show "ParseFloat ''5'' = Some (f64_of_decimal False 5 0)"
    using five(2) by (simp add: ParseFloat_def EqualFold_def to_lower_char_def Let_def)
  show "f64_finite (f64_of_decimal False 5 0)" by (rule five)
qed

text \<open>Without a readable certificate of the authority a configuration for mutual TLS leaves no interface at all: nothing
  listens, and no measurement is received.\<close>

lemma api_closed_without_ca:
  assumes "cpu_api zmq readable c pull pub = Done (Some (l, b))" "apiCert c \<noteq> []" "apiKey c \<noteq> []" "apiCACert c \<noteq> []" "\<not> readable (apiCACert c)"
  shows "l = None \<and> run_iteration ev b = Done b"
  using assms
  by (auto simp: cpu_api_def APIServer_Start_def api_listener_def empty_subscriber_def run_iteration_def split: if_splits outcome.splits)

end
