(* ===== verification/CpuRoutes.thy ===== *)
theory CpuRoutes
  imports CpuApi
begin

text \<open>
  The routes of the HTTP interface of the CPU module (cpu/api.go): the table that Start registers with the router, the upgrade to a
  web socket, and the certificates of clients. The router is a parameter; what is relied on of it is that it takes the first route
  whose method and path match.
\<close>

section \<open>Routes\<close>

datatype segment = Lit string | Var string

datatype api_handler = HandleQuery | HandleQueryWS | HandleWrite | HandleModules | HandleEnableModule | HandleDisableModule

type_synonym route = "segment list \<times> string \<times> api_handler"

definition api_routes :: "route list" where
  "api_routes =
     [([Lit ''query''], ''GET'', HandleQuery),
      ([Lit ''query'', Lit ''ws''], ''GET'', HandleQueryWS),
      ([Lit ''query'', Var ''tag''], ''GET'', HandleQuery),
      ([Lit ''write''], ''POST'', HandleWrite),
      ([Lit ''write'', Var ''tag'', Var ''value''], ''POST'', HandleWrite),
      ([Lit ''modules''], ''GET'', HandleModules),
      ([Lit ''modules'', Var ''name''], ''POST'', HandleEnableModule),
      ([Lit ''modules'', Var ''name''], ''DELETE'', HandleDisableModule)]"

text \<open>A router gets the table, the method and the path below the prefix of the interface, and gives the handler with the variables of the path,
  or none.\<close>

type_synonym router = "route list \<Rightarrow> string \<Rightarrow> string list \<Rightarrow> (api_handler \<times> (string \<rightharpoonup> string)) option"

fun path_vars :: "segment list \<Rightarrow> string list \<Rightarrow> (string \<rightharpoonup> string) option" where
  "path_vars [] [] = Some Map.empty"
| "path_vars (Lit x # ss) (y # ys) = (if x = y then path_vars ss ys else None)"
| "path_vars (Var v # ss) (y # ys) = (if y = [] then None else map_option (\<lambda>m. m(v \<mapsto> y)) (path_vars ss ys))"
| "path_vars _ _ = None"

definition route_match :: "string \<Rightarrow> string list \<Rightarrow> route \<Rightarrow> (api_handler \<times> (string \<rightharpoonup> string)) option" where
  "route_match meth path r =
     (case r of (pat, m, h) \<Rightarrow> if m = meth then map_option (Pair h) (path_vars pat path) else None)"

definition first_match :: "router \<Rightarrow> bool" where
  "first_match router \<longleftrightarrow>
     (\<forall>routes meth path. router routes meth path =
        (case filter (\<lambda>r. route_match meth path r \<noteq> None) routes of [] \<Rightarrow> None | r # _ \<Rightarrow> route_match meth path r))"

section \<open>Requests\<close>

text \<open>What the client sees: a response, a web socket, or nothing but what the upgrader answered itself.\<close>

datatype api_answer = Response http_reply | WebSocket | Upgrade_Refused | No_Route

definition handleQueryWS :: "bool \<Rightarrow> api_answer" where
  "handleQueryWS upgraded = (if upgraded then WebSocket else Upgrade_Refused)"

record http_request =
  rq_method :: string
  rq_path :: "string list"
  rq_body :: "json option result"
  rq_upgrade :: bool

definition api_serve ::
  "router \<Rightarrow> os_api \<Rightarrow> string list \<Rightarrow> string list \<Rightarrow> http_request \<Rightarrow> APIServer \<times> cpu_state \<Rightarrow> (api_answer \<times> APIServer \<times> cpu_state) outcome" where
  "api_serve router os tags names rq st =
     (case st of (s, w) \<Rightarrow>
        (case router api_routes (rq_method rq) (rq_path rq) of
           None \<Rightarrow> Done (No_Route, s, w)
         | Some (h, vars) \<Rightarrow>
             (case h of
                HandleQuery \<Rightarrow> Done (Response (handleQuery tags (lookup0 [] vars ''tag'') s), s, w)
              | HandleQueryWS \<Rightarrow> Done (handleQueryWS (rq_upgrade rq), s, w)
              | HandleWrite \<Rightarrow>
                  (case handleWrite (lookup0 [] vars ''tag'') (lookup0 [] vars ''value'') (rq_body rq) s of (r, s') \<Rightarrow> Done (Response r, s', w))
              | HandleModules \<Rightarrow> Done (Response (handleModules names w), s, w)
              | HandleEnableModule \<Rightarrow> map_outcome (\<lambda>(r, w'). (Response r, s, w')) (handleEnableModule os (lookup0 [] vars ''name'') w)
              | HandleDisableModule \<Rightarrow> map_outcome (\<lambda>(r, w'). (Response r, s, w')) (handleDisableModule (lookup0 [] vars ''name'') w))))"

section \<open>Certificates of clients\<close>

text \<open>The certificates found in the file are an argument. That there are none is not noticed.\<close>

record 'c tls_config =
  ClientCAs :: "'c list"
  RequireClientCert :: bool

definition buildTLSConfig :: "(string \<Rightarrow> string option) \<Rightarrow> (string \<Rightarrow> 'c list) \<Rightarrow> string \<Rightarrow> 'c tls_config result" where
  "buildTLSConfig ReadFile certs file =
     (case ReadFile file of
        None \<Rightarrow> Inl ''reading CA certificate file''
      | Some pem \<Rightarrow> Inr \<lparr>ClientCAs = certs pem, RequireClientCert = True\<rparr>)"

text \<open>The listener asks clients for certificates exactly when the configuration for it could be built.\<close>

lemma mutual_tls_configured:
  assumes "cert \<noteq> []" "key \<noteq> []" "ca \<noteq> []"
  shows "api_listener (\<lambda>f. ReadFile f \<noteq> None) cert key ca =
    (case buildTLSConfig ReadFile certs ca of Inl err \<Rightarrow> Inl ''building config for mutual TLS'' | Inr c \<Rightarrow> Inr Mutual_TLS)"
  using assms by (simp add: api_listener_def buildTLSConfig_def split: option.split)

text \<open>A file of the certificate authority without a certificate is accepted, and then no client is.\<close>

lemma empty_authority_accepted:
  "ReadFile file = Some pem \<Longrightarrow> certs pem = [] \<Longrightarrow>
     \<exists>c. buildTLSConfig ReadFile certs file = Inr c \<and> RequireClientCert c \<and> ClientCAs c = []"
  by (simp add: buildTLSConfig_def)

section \<open>What is reached\<close>

lemma routed:
  assumes "first_match router"
  shows "tag \<noteq> [] \<Longrightarrow> tag \<noteq> ''ws'' \<Longrightarrow> router api_routes ''GET'' [''query'', tag] = Some (HandleQuery, [''tag'' \<mapsto> tag])"
    "router api_routes ''GET'' [''query'', ''ws''] = Some (HandleQueryWS, Map.empty)"
    "tag \<noteq> [] \<Longrightarrow> val \<noteq> [] \<Longrightarrow> router api_routes ''POST'' [''write'', tag, val] = Some (HandleWrite, [''value'' \<mapsto> val, ''tag'' \<mapsto> tag])"
    "name \<noteq> [] \<Longrightarrow> router api_routes ''POST'' [''modules'', name] = Some (HandleEnableModule, [''name'' \<mapsto> name])"
    "name \<noteq> [] \<Longrightarrow> router api_routes ''DELETE'' [''modules'', name] = Some (HandleDisableModule, [''name'' \<mapsto> name])"
  using assms by (simp_all add: first_match_def api_routes_def route_match_def)

text \<open>A point with the tag ws cannot be queried by its tag: its path is that of the web socket.\<close>

lemma tag_ws_not_queried:
  assumes "first_match router"
  shows "api_serve router os tags names \<lparr>rq_method = ''GET'', rq_path = [''query'', ''ws''], rq_body = body, rq_upgrade = u\<rparr> (s, w) =
    Done (if u then WebSocket else Upgrade_Refused, s, w)"
  by (simp add: api_serve_def routed [OF assms] handleQueryWS_def)

text \<open>Requests for a path, with no body.\<close>

definition request_for :: "string \<Rightarrow> string list \<Rightarrow> http_request" where
  "request_for meth path = \<lparr>rq_method = meth, rq_path = path, rq_body = Inr None, rq_upgrade = False\<rparr>"

lemma served:
  assumes "first_match router" "tag \<noteq> []"
  shows "tag \<noteq> ''ws'' \<Longrightarrow> api_serve router os tags names (request_for ''GET'' [''query'', tag]) (s, w) = Done (Response (handleQuery tags tag s), s, w)"
    "val \<noteq> [] \<Longrightarrow> api_serve router os tags names (request_for ''POST'' [''write'', tag, val]) (s, w) =
       (case handleWrite tag val (Inr None) s of (r, s') \<Rightarrow> Done (Response r, s', w))"
  using assms(2) by (simp_all add: api_serve_def request_for_def routed [OF assms(1)] lookup0_def)

text \<open>C16: a value written over HTTP can be read back. A POST of a finite number to the path of a tag is answered with 204 after a
  status and an update with that point were pushed; when the bus delivers the status to the interface again, a GET
  for the tag returns the number, and the other tags are as they were, with one exception: a tag named ws, whose path
  is that of the web socket. Text that is no number is refused with 400, a number that is not finite with 500, and then nothing is pushed.\<close>

theorem api_url_roundtrip:
  fixes w :: cpu_state and os :: os_api and tags names :: "string list"
  assumes "first_match router" "tag \<noteq> []" "tag \<noteq> ''ws''" "val \<noteq> []" "sock (api_pusher s) (attempts (api_pusher s))"
    "sock (api_pusher s) (attempts (api_pusher s) + 1)"
  defines "p \<equiv> \<lambda>v. \<lparr>pt_tag = tag, pt_value = v, pt_ts = 0\<rparr>"
    and "write \<equiv> api_serve router os tags names (request_for ''POST'' [''write'', tag, val]) (s, w)"
    and "query \<equiv> \<lambda>t s. api_serve router os tags names (request_for ''GET'' [''query'', t]) (s, w)"
  shows "case ParseFloat val of
      None \<Rightarrow> write = Done (Response (write_header 400), s, w)
    | Some v \<Rightarrow>
        if f64_finite v then
          \<exists>s1 env env'. write = Done (Response (write_header 204), s1, w) \<and>
            sent (api_pusher s1) = sent (api_pusher s) @ [(''RUNTIME'', P_Envelope env), (''RUNTIME'', P_Envelope env')] \<and>
            env_Status env = (\<lparr>Measurements = [p v]\<rparr>, None) \<and>
            env_Update env' = (\<lparr>Updates = [p v], up_recipient = [], up_confirm = []\<rparr>, None) \<and>
            query tag (HandleMsgBusStatus env s1) = Done (Response (write_json (enc_point (p v))), HandleMsgBusStatus env s1, w) \<and>
            (\<forall>t. t \<noteq> tag \<longrightarrow> t \<noteq> [] \<longrightarrow> t \<noteq> ''ws'' \<longrightarrow> map_outcome fst (query t (HandleMsgBusStatus env s1)) = map_outcome fst (query t s))
        else write = Done (Response (write_header 500), s, w)"
proof -
  note w = served(2) [OF assms(1,2,4), of os tags names s w, folded write_def]
  note q = served(1) [OF assms(1), of _ os tags names _ w]
  note r = api_write_then_query [OF assms(2,4-6), of "Inr None" tags]
  show ?thesis
  proof (cases "ParseFloat val")
    case None
    with w r show ?thesis by simp
  next
    case (Some v)
    show ?thesis
    proof (cases "f64_finite v")
      case True
      with r Some obtain s1 env env' where e: "handleWrite tag val (Inr None) s = (write_header 204, s1)"
        "NewEnvelope ''cpu-api'' (C_Status \<lparr>Measurements = [p v]\<rparr>) = Inr env"
        "NewEnvelope ''cpu-api'' (C_Update \<lparr>Updates = [p v], up_recipient = [], up_confirm = []\<rparr>) = Inr env'"
        "sent (api_pusher s1) = sent (api_pusher s) @ [(''RUNTIME'', P_Envelope env), (''RUNTIME'', P_Envelope env')]"
        "handleQuery tags tag (HandleMsgBusStatus env s1) = write_json (enc_point (p v))"
        "\<forall>t. t \<noteq> tag \<longrightarrow> t \<noteq> [] \<longrightarrow> handleQuery tags t (HandleMsgBusStatus env s1) = handleQuery tags t s" by (auto simp: p_def)
      have "write = Done (Response (write_header 204), s1, w)" using w e(1) by simp
      moreover have "query tag (HandleMsgBusStatus env s1) = Done (Response (write_json (enc_point (p v))), HandleMsgBusStatus env s1, w)"
        unfolding query_def using q [OF assms(2,3)] e(5) by simp
      moreover have "map_outcome fst (query t (HandleMsgBusStatus env s1)) = map_outcome fst (query t s)" if "t \<noteq> tag" "t \<noteq> []" "t \<noteq> ''ws''" for t
        unfolding query_def using q [OF that(2,3)] e(6) that by simp
      ultimately have "\<exists>s1 env env'. write = Done (Response (write_header 204), s1, w) \<and>
          sent (api_pusher s1) = sent (api_pusher s) @ [(''RUNTIME'', P_Envelope env), (''RUNTIME'', P_Envelope env')] \<and>
          env_Status env = (\<lparr>Measurements = [p v]\<rparr>, None) \<and>
          env_Update env' = (\<lparr>Updates = [p v], up_recipient = [], up_confirm = []\<rparr>, None) \<and>
          query tag (HandleMsgBusStatus env s1) = Done (Response (write_json (enc_point (p v))), HandleMsgBusStatus env s1, w) \<and>
          (\<forall>t. t \<noteq> tag \<longrightarrow> t \<noteq> [] \<longrightarrow> t \<noteq> ''ws'' \<longrightarrow> map_outcome fst (query t (HandleMsgBusStatus env s1)) = map_outcome fst (query t s))"
        using e(4) env_Status_NewEnvelope [OF e(2)] env_Update_NewEnvelope [OF e(3)] by blast
      with Some True show ?thesis by simp
    next
      case False
      with w r Some show ?thesis by simp
    qed
  qed
qed

definition demo_router :: router where
  "demo_router routes meth path =
     (case filter (\<lambda>r. route_match meth path r \<noteq> None) routes of [] \<Rightarrow> None | r # _ \<Rightarrow> route_match meth path r)"

theorem api_url_roundtrip_witness:
  "first_match demo_router \<and>
   (\<exists>s1 env. api_serve demo_router demo_os [] [] (request_for ''POST'' [''write'', ''v'', ''5'']) (\<lparr>points = Map.empty, api_pusher = demo_socket\<rparr>, fresh_cpu Map.empty demo_socket) =
       Done (Response (write_header 204), s1, fresh_cpu Map.empty demo_socket) \<and>
     api_serve demo_router demo_os [] [] (request_for ''GET'' [''query'', ''v'']) (HandleMsgBusStatus env s1, fresh_cpu Map.empty demo_socket) =
       Done (Response (write_json (enc_point \<lparr>pt_tag = ''v'', pt_value = f64_of_decimal False 5 0, pt_ts = 0\<rparr>)), HandleMsgBusStatus env s1, fresh_cpu Map.empty demo_socket))"
proof -
  let ?s = "\<lparr>points = Map.empty, api_pusher = demo_socket\<rparr>"
  have f: "first_match demo_router" by (simp add: first_match_def demo_router_def)
  have so: "sock (api_pusher ?s) (attempts (api_pusher ?s))" "sock (api_pusher ?s) (attempts (api_pusher ?s) + 1)" by (simp_all add: demo_socket_def)
  have ne: "''v'' \<noteq> []" "''v'' \<noteq> ''ws''" "''5'' \<noteq> []" by simp_all
  from api_url_roundtrip [OF f ne so, of demo_os "[]" "[]" "fresh_cpu Map.empty demo_socket"] f show ?thesis
    unfolding parse_five(1) using parse_five(2) by auto
qed

end
