(* ===== verification/Telnet.thy ===== *)
theory Telnet
  imports CpuCorrect
begin

text \<open>
  The telnet module (telnet/telnet.go, modules.go): a shell on the measurements and on
  the modules of the CPU module. The telnet library calls the handler of a command with
  its arguments; what a handler prints is a list of texts for stdout and stderr.
\<close>

section \<open>State\<close>

record Telnet =
  tn_name :: string
  tn_endpoint :: string
  tn_banner :: string
  tn_tags :: "string \<rightharpoonup> float64"
  tn_pusher :: Pusher

definition NewTelnet :: "string \<Rightarrow> Pusher \<Rightarrow> Telnet" where
  "NewTelnet name p = \<lparr>tn_name = name, tn_endpoint = '':23'', tn_banner = [], tn_tags = Map.empty, tn_pusher = p\<rparr>"

definition NewTelnetModule :: "Pusher \<Rightarrow> element \<Rightarrow> Telnet result" where
  "NewTelnetModule p e = Inr (NewTelnet (SelectAttrValue e ''name'' ''telnet'') p)"

definition telnet_child :: "element \<Rightarrow> Telnet \<Rightarrow> Telnet" where
  "telnet_child e t =
     (if Tag e = ''endpoint'' then t\<lparr>tn_endpoint := Text e\<rparr>
      else if Tag e = ''banner'' then t\<lparr>tn_banner := Text e\<rparr>
      else t)"

definition Telnet_Configure :: "element \<Rightarrow> Telnet \<Rightarrow> Telnet result" where
  "Telnet_Configure e t = Inr (fold telnet_child (ChildElements e) t)"

text \<open>The welcome message, from the table of banners.\<close>

definition welcome_message :: "(string \<rightharpoonup> string) \<Rightarrow> Telnet \<Rightarrow> string" where
  "welcome_message banners t = (case banners (tn_banner t) of Some banner \<Rightarrow> banner | None \<Rightarrow> lookup0 [] banners ''default'')"

section \<open>Measurements\<close>

definition telnet_handleMsgBusStatus :: "Envelope \<Rightarrow> Telnet \<Rightarrow> Telnet" where
  "telnet_handleMsgBusStatus env t =
     (if Sender env = tn_name t then t
      else case env_Status env of
             (status, Some err) \<Rightarrow> t
           | (status, None) \<Rightarrow> t\<lparr>tn_tags := fold (\<lambda>p m. m(pt_tag p \<mapsto> pt_value p)) (Measurements status) (tn_tags t)\<rparr>)"

text \<open>The verb for floats with six decimals: the nearest decimal number, ties to even.\<close>

definition millionths :: "float64 \<Rightarrow> nat" where
  "millionths x =
     (if 0 \<le> f64_exp x then f64_mant x * 2 ^ nat (f64_exp x) * 1000000
      else let d = 2 ^ nat (- f64_exp x); n = f64_mant x * 1000000; q = n div d; r = n mod d
           in if 2 * r < d \<or> 2 * r = d \<and> even q then q else q + 1)"

definition zero_pad :: "nat \<Rightarrow> string \<Rightarrow> string" where
  "zero_pad k s = replicate (k - length s) CHR ''0'' @ s"

definition show_f :: "float64 \<Rightarrow> string" where
  "show_f x =
     (if f64_is_nan x then ''NaN''
      else if f64_is_inf x then (if f64_sign x then ''-Inf'' else ''+Inf'')
      else let n = millionths x
           in (if f64_sign x then ''-'' else []) @ show_nat (n div 1000000) @ ''.'' @ zero_pad 6 (show_nat (n mod 1000000)))"

datatype printed = Stdout string | Stderr string

definition newline :: string where "newline = [CHR 0x0A]"

text \<open>Without arguments the tags are visited in any order.\<close>

definition queryHandlerFunc :: "string list \<Rightarrow> string list \<Rightarrow> Telnet \<Rightarrow> printed list" where
  "queryHandlerFunc order args t =
     (if args = [] then map (\<lambda>(tag, v). Stdout (tag @ '' = '' @ show_f v @ newline)) (List.map_filter (\<lambda>tag. map_option (Pair tag) (tn_tags t tag)) order)
      else map (\<lambda>tag. case tn_tags t tag of
                        Some v \<Rightarrow> Stdout (tag @ '' = '' @ show_f v @ newline)
                      | None \<Rightarrow> Stderr (''tag '' @ tag @ '' is unknown'' @ newline)) args) @ [Stdout newline]"

definition writeHandlerFunc :: "string list \<Rightarrow> Telnet \<Rightarrow> string option \<times> printed list \<times> Telnet" where
  "writeHandlerFunc args t =
     (case args of
        [tag, val] \<Rightarrow>
          (case ParseFloat val of
             None \<Rightarrow> (Some ''parsing float'', [Stderr (''invalid value '' @ val @ newline), Stdout newline], t)
           | Some v \<Rightarrow>
               (let ps = [\<lparr>pt_tag = tag, pt_value = v, pt_ts = 0\<rparr>]
                in case NewEnvelope (tn_name t) (C_Status \<lparr>Measurements = ps\<rparr>) of
                     Inl err \<Rightarrow> (Some err, [Stdout newline], t)
                   | Inr env \<Rightarrow>
                       (case Push ''RUNTIME'' env (tn_pusher t) of
                          (Some err, p) \<Rightarrow> (Some err, [Stdout newline], t\<lparr>tn_pusher := p\<rparr>)
                        | (None, p) \<Rightarrow>
                            (case NewEnvelope (tn_name t) (C_Update \<lparr>Updates = ps, up_recipient = [], up_confirm = []\<rparr>) of
                               Inl err \<Rightarrow> (Some err, [Stdout newline], t\<lparr>tn_pusher := p\<rparr>)
                             | Inr env' \<Rightarrow>
                                 (case Push ''RUNTIME'' env' p of
                                    (Some err, p') \<Rightarrow> (Some err, [Stdout newline], t\<lparr>tn_pusher := p'\<rparr>)
                                  | (None, p') \<Rightarrow>
                                      (None, [Stdout (''wrote '' @ tag @ ''='' @ show_f v @ newline), Stdout newline], t\<lparr>tn_pusher := p'\<rparr>))))))
      | _ \<Rightarrow> (Some ''must provide two values to write function'',
              [Stderr (''must provide two values to write function'' @ newline), Stdout newline], t))"

section \<open>Modules\<close>

text \<open>
  The first part of a command on modules, up to the wait: it registers for the
  confirmation with a fresh identifier and pushes the request. The state is that of the
  module and that of its subscriber for internal messages. The channel it waits on is
  the result.
\<close>

definition send_control :: "ModuleControl \<Rightarrow> Telnet \<Rightarrow> 's bus \<Rightarrow> nat result \<times> Telnet \<times> 's bus" where
  "send_control control t b =
     (case RegisterConfirmationHandler (mc_confirm control) b of
        (conf, b1) \<Rightarrow>
          (case NewEnvelope (tn_name t) (C_ModuleControl control) of
             Inl err \<Rightarrow> (Inl err, t, give_up conf b1)
           | Inr env \<Rightarrow>
               (case Push ''INTERNAL'' env (tn_pusher t) of
                  (Some err, p) \<Rightarrow> (Inl err, t\<lparr>tn_pusher := p\<rparr>, give_up conf b1)
                | (None, p) \<Rightarrow> (Inr conf, t\<lparr>tn_pusher := p\<rparr>, b1))))"

definition modules_control :: "string \<Rightarrow> ModuleControl" where
  "modules_control uuid = \<lparr>mc_list = True, mc_enable = [], mc_disable = [], mc_recipient = ''CPU'', mc_confirm = uuid\<rparr>"

definition disable_control :: "string \<Rightarrow> string list \<Rightarrow> ModuleControl" where
  "disable_control uuid args = \<lparr>mc_list = False, mc_enable = [], mc_disable = args, mc_recipient = ''CPU'', mc_confirm = uuid\<rparr>"

definition enable_control :: "string \<Rightarrow> string list \<Rightarrow> ModuleControl" where
  "enable_control uuid args = \<lparr>mc_list = False, mc_enable = args, mc_disable = [], mc_recipient = ''CPU'', mc_confirm = uuid\<rparr>"

definition modulesHandlerFunc :: "string \<Rightarrow> Telnet \<Rightarrow> 's bus \<Rightarrow> nat result \<times> Telnet \<times> 's bus" where
  "modulesHandlerFunc uuid t b = send_control (modules_control uuid) t b"

text \<open>The commands with arguments also report what they print before the wait: a missing argument on the error output, and the new line of the
  deferred call when they return early.\<close>

definition before_wait :: "nat result \<times> Telnet \<times> 's bus \<Rightarrow> nat result \<times> printed list \<times> Telnet \<times> 's bus" where
  "before_wait r =
     (case r of (conf, t, b) \<Rightarrow> (conf, case conf of Inl err \<Rightarrow> [Stdout newline] | Inr ch \<Rightarrow> [], t, b))"

definition disableModuleHandlerFunc :: "string \<Rightarrow> string list \<Rightarrow> Telnet \<Rightarrow> 's bus \<Rightarrow> nat result \<times> printed list \<times> Telnet \<times> 's bus" where
  "disableModuleHandlerFunc uuid args t b =
     (if args = []
      then (Inl ''must provide at least one module to disable'',
            [Stderr (''must provide at least one module to disable'' @ newline), Stdout newline], t, b)
      else before_wait (send_control (disable_control uuid args) t b))"

definition enableModuleHandlerFunc :: "string \<Rightarrow> string list \<Rightarrow> Telnet \<Rightarrow> 's bus \<Rightarrow> nat result \<times> printed list \<times> Telnet \<times> 's bus" where
  "enableModuleHandlerFunc uuid args t b =
     (if args = []
      then (Inl ''must provide at least one module to enable'',
            [Stderr (''must provide at least one module to enable'' @ newline), Stdout newline], t, b)
      else before_wait (send_control (enable_control uuid args) t b))"

text \<open>The second part: the confirmation arrives, or five seconds pass. Values are printed with the verb for strings,
  which for other values is an argument.\<close>

fun show_any :: "(json \<Rightarrow> string) \<Rightarrow> json \<Rightarrow> string" where
  "show_any other (JString s) = s"
| "show_any other j = other j"

definition print_results :: "(json \<Rightarrow> string) \<Rightarrow> Confirmation \<Rightarrow> printed list" where
  "print_results other c = map (\<lambda>(k, v). Stdout (k @ '' --> '' @ show_any other v @ newline)) (cf_results c)"

definition print_errors :: "Confirmation \<Rightarrow> printed list" where
  "print_errors c = map (\<lambda>(k, v). Stderr (k @ '' --> '' @ v @ newline)) (cf_errors c)"

definition timed_out :: "printed list" where
  "timed_out = [Stderr (''request for module list timed out'' @ newline), Stdout newline]"

definition modules_answer :: "(json \<Rightarrow> string) \<Rightarrow> Confirmation option \<Rightarrow> printed list" where
  "modules_answer other r = (case r of None \<Rightarrow> timed_out | Some c \<Rightarrow> print_results other c @ [Stdout newline])"

definition control_answer :: "(json \<Rightarrow> string) \<Rightarrow> Confirmation option \<Rightarrow> printed list" where
  "control_answer other r = (case r of None \<Rightarrow> timed_out | Some c \<Rightarrow> print_results other c @ print_errors c @ [Stdout newline])"

section \<open>Running the shell\<close>

text \<open>The commands of the shell.\<close>

datatype command_handler = Date | Query | Write | List_Modules | Disable | Enable

definition shell_commands :: "(string \<times> command_handler) list" where
  "shell_commands =
     [(''date'', Date), (''query'', Query), (''write'', Write), (''modules'', List_Modules), (''disable'', Disable), (''enable'', Enable)]"

text \<open>The current time as text is an argument.\<close>

definition dateHandlerFunc :: "string \<Rightarrow> printed list" where
  "dateHandlerFunc now = [Stdout (now @ newline), Stdout newline]"

text \<open>The pusher, the subscriber for internal messages, and the one for measurements.\<close>

definition telnet_setup :: "zmq_api \<Rightarrow> string \<Rightarrow> string \<Rightarrow> Telnet \<Rightarrow> (unit bus \<times> Telnet bus) outcome" where
  "telnet_setup zmq pub pull t =
     (case MustNewPusher zmq pull of
        Done p \<Rightarrow>
          (case MustNewSubscriber zmq pub () of
             Done internal \<Rightarrow>
               (case MustNewSubscriber zmq pub (t\<lparr>tn_pusher := p\<rparr>) of
                  Done subscriber \<Rightarrow>
                    Done (Subscriber_Start ''INTERNAL'' internal,
                          Subscriber_Start ''RUNTIME'' (AddStatusHandler telnet_handleMsgBusStatus subscriber))
                | Panic \<Rightarrow> Panic
                | Diverge \<Rightarrow> Diverge)
           | Panic \<Rightarrow> Panic
           | Diverge \<Rightarrow> Diverge)
      | Panic \<Rightarrow> Panic
      | Diverge \<Rightarrow> Diverge)"

text \<open>Listening and serving is the telnet library's: it may fail, or go on for ever.\<close>

definition Telnet_Run :: "zmq_api \<Rightarrow> (string \<Rightarrow> string option outcome) \<Rightarrow> Telnet \<Rightarrow> string \<Rightarrow> string \<Rightarrow> string option outcome" where
  "Telnet_Run zmq ListenAndServe t pub pull =
     (case telnet_setup zmq pub pull t of
        Done _ \<Rightarrow>
          (case ListenAndServe (tn_endpoint t) of
             Done None \<Rightarrow> Done None
           | Done (Some err) \<Rightarrow> Panic
           | Panic \<Rightarrow> Panic
           | Diverge \<Rightarrow> Diverge)
      | Panic \<Rightarrow> Panic
      | Diverge \<Rightarrow> Diverge)"

section \<open>Facts\<close>

interpretation tns: bus_handler tn_name telnet_handleMsgBusStatus
  by unfold_locales (simp_all add: telnet_handleMsgBusStatus_def split: prod.split option.split)

end
