(* ===== verification/TelnetLink.thy ===== *)
theory TelnetLink
  imports Telnet OtSim
begin

text \<open>
  The telnet module and the CPU module on one bus: a command on modules travels to the
  CPU module, which answers with a confirmation that the telnet module waits for.
\<close>

section \<open>Confirmations\<close>

lemma dec_members_any_rev: "dec_members (\<lambda>k v m. ((k, v) # m, False)) ms old = (rev ms @ old, False)"
  by (induction ms arbitrary: old) auto

lemma dec_members_strings_rev:
  "dec_members (\<lambda>k v m. case dec_string v [] of (s, e) \<Rightarrow> ((k, s) # m, e)) (map (\<lambda>(k, v). (k, JString v)) ms) old = (rev ms @ old, False)"
  by (induction ms arbitrary: old) auto

lemma confirmation_decoded:
  assumes "NewEnvelope n (C_Confirmation c) = Inr env"
  shows "env_Confirmation env = (c\<lparr>cf_results := rev (cf_results c), cf_errors := rev (cf_errors c)\<rparr>, None)"
  using assms
  by (auto simp: NewEnvelope_def env_Confirmation_def access_def dec_confirmation_def dec_simps dec_any_map_def
      dec_string_map_def enc_string_map_def dec_members_any_rev dec_members_strings_rev)

lemma confirmation_delivered:
  assumes "sub_loop b = Some (topic, copy)" "sub_running copy" "NewEnvelope n (C_Confirmation c) = Inr env"
    "RegisterConfirmationHandler (cf_confirm c) b = (ch, b1)"
  shows "\<exists>b2. run_iteration (on_topic topic env) b1 = Done b2 \<and>
      chan_sent b2 = chan_sent b @ [(ch, c\<lparr>cf_results := rev (cf_results c), cf_errors := rev (cf_errors c)\<rparr>)]"
    "run_iteration (on_topic topic env) (give_up ch b1) = Diverge"
proof -
  have k: "dispatch copy env x = dispatch_confirmation env x" for x
    using kind_NewEnvelope [OF assms(3)] by (simp add: dispatch_def kind_defs)
  note it = run_iteration_envelope [OF _ assms(2,3), unfolded k]
  show "\<exists>b2. run_iteration (on_topic topic env) b1 = Done b2 \<and>
      chan_sent b2 = chan_sent b @ [(ch, c\<lparr>cf_results := rev (cf_results c), cf_errors := rev (cf_errors c)\<rparr>)]"
    "run_iteration (on_topic topic env) (give_up ch b1) = Diverge"
    using assms(1,4) confirmation_decoded [OF assms(3)]
    by (auto simp: it RegisterConfirmationHandler_def give_up_def dispatch_confirmation_def)
qed

section \<open>The answer of the CPU module\<close>

lemma set_put: "set (put k v xs) = insert (k, v) {(k', v') \<in> set xs. k' \<noteq> k}"
  by (auto simp: put_def)

lemma set_list_modules:
  assumes "keys_ok (modules w)"
  shows "set (list_modules order w) = {(n, state_text m) |n m. n \<in> set order \<and> modules w n = Some m}"
proof -
  have key: "mod_name m = n" if "modules w n = Some m" for n m using assms that by (simp add: keys_ok_def)
  have "set (fold (\<lambda>m. put (mod_name m) (state_text m)) (List.map_filter (modules w) order) acc) =
      {(n, state_text m) |n m. n \<in> set order \<and> modules w n = Some m} \<union> {(n, v) \<in> set acc. n \<notin> set order \<or> modules w n = None}" for acc
  proof (induction order arbitrary: acc)
    case (Cons n ns)
    show ?case
    proof (cases "modules w n")
      case None
      with Cons [of acc] show ?thesis by (auto simp: List.map_filter_simps)
    next
      case (Some m)
      have step: "fold (\<lambda>m. put (mod_name m) (state_text m)) (List.map_filter (modules w) (n # ns)) acc =
          fold (\<lambda>m. put (mod_name m) (state_text m)) (List.map_filter (modules w) ns) (put n (state_text m) acc)"
        by (simp add: List.map_filter_simps Some key [OF Some])
      show ?thesis unfolding step Cons by (auto simp: set_put Some)
    qed
  qed (simp add: List.map_filter_simps)
  from this [of "[]"] show ?thesis by (simp add: list_modules_def)
qed

lemma internalHandler_control:
  assumes "NewEnvelope n (C_ModuleControl control) = Inr env"
  shows "internalHandler os order (Some (enc_envelope env)) w = module_control os order control w"
  using kind_NewEnvelope [OF assms]
  by (simp add: internalHandler_def Parse_NewEnvelope [OF assms] env_ModuleControl_NewEnvelope [OF assms])

lemma send_control_ok:
  assumes "sock (tn_pusher t) (attempts (tn_pusher t))"
  shows "\<exists>env t1 ch b1. NewEnvelope (tn_name t) (C_ModuleControl control) = Inr env \<and> send_control control t b = (Inr ch, t1, b1) \<and>
    RegisterConfirmationHandler (mc_confirm control) b = (ch, b1) \<and>
    sent (tn_pusher t1) = sent (tn_pusher t) @ [(''INTERNAL'', P_Envelope env)]"
proof -
  obtain env where env: "NewEnvelope (tn_name t) (C_ModuleControl control) = Inr env" using NewEnvelope_fails_iff(3) by blast
  obtain ch b1 where reg: "RegisterConfirmationHandler (mc_confirm control) b = (ch, b1)"
    by (cases "RegisterConfirmationHandler (mc_confirm control) b")
  with env assms show ?thesis by (auto simp: send_control_def Push_def SendMessage_def)
qed

lemma confirm_control_ok:
  assumes "confirm \<noteq> []" "sock (cpu_pusher w) (attempts (cpu_pusher w))"
  shows "\<exists>cenv w1. NewEnvelope ''CPU'' (C_Confirmation \<lparr>cf_confirm = confirm, cf_results = map (map_prod id JString) results, cf_errors = errs\<rparr>) = Inr cenv \<and>
    confirm_control confirm results errs w = (None, w1) \<and> modules w1 = modules w \<and> goroutines w1 = goroutines w \<and>
    sent (cpu_pusher w1) = sent (cpu_pusher w) @ [(''INTERNAL'', P_Envelope cenv)]"
proof -
  obtain cenv where "NewEnvelope ''CPU'' (C_Confirmation \<lparr>cf_confirm = confirm, cf_results = map (map_prod id JString) results, cf_errors = errs\<rparr>) = Inr cenv"
    using NewEnvelope_fails_iff(4) by blast
  with assms show ?thesis by (auto simp: confirm_control_def Push_def SendMessage_def)
qed

text \<open>C14: the command modules prints the modules of the CPU module. The request of the telnet module reaches the CPU module,
  whose confirmation is handed to the waiting command, and what it prints is one line for each module with its
  state, and an empty line. If the command has given up waiting when the confirmation comes, the telnet module
  never receives an internal message again.\<close>

theorem telnet_lists_modules:
  assumes "cpu_reachable os w" "set order = dom (modules w)" "uuid \<noteq> []" "sub_loop b = Some (''INTERNAL'', copy)" "sub_running copy"
    "sock (tn_pusher t) (attempts (tn_pusher t))" "sock (cpu_pusher w) (attempts (cpu_pusher w))"
  shows "\<exists>ch t1 b1 env w1 cenv b2 c. modulesHandlerFunc uuid t b = (Inr ch, t1, b1) \<and>
    sent (tn_pusher t1) = sent (tn_pusher t) @ [(''INTERNAL'', P_Envelope env)] \<and>
    internalHandler os order (Some (enc_envelope env)) w = Done (None, w1) \<and>
    sent (cpu_pusher w1) = sent (cpu_pusher w) @ [(''INTERNAL'', P_Envelope cenv)] \<and>
    run_iteration (on_topic ''INTERNAL'' cenv) b1 = Done b2 \<and> chan_sent b2 = chan_sent b @ [(ch, c)] \<and>
    set (modules_answer other (Some c)) =
      insert (Stdout newline) {Stdout (n @ '' --> '' @ state_text m @ newline) |n m. modules w n = Some m} \<and>
    run_loop (on_topic ''INTERNAL'' cenv # later) (give_up ch b1) = Diverge"
proof -
  let ?rs = "map (map_prod id JString) (list_modules order w)"
  let ?c = "\<lparr>cf_confirm = uuid, cf_results = ?rs, cf_errors = []\<rparr>"
  obtain env t1 ch b1 where t1: "NewEnvelope (tn_name t) (C_ModuleControl (modules_control uuid)) = Inr env"
    "send_control (modules_control uuid) t b = (Inr ch, t1, b1)" "RegisterConfirmationHandler uuid b = (ch, b1)"
    "sent (tn_pusher t1) = sent (tn_pusher t) @ [(''INTERNAL'', P_Envelope env)]"
    using send_control_ok [OF assms(6), of "modules_control uuid" b] by (auto simp: modules_control_def)
  obtain cenv w1 where w1: "NewEnvelope ''CPU'' (C_Confirmation ?c) = Inr cenv"
    "confirm_control uuid (list_modules order w) [] w = (None, w1)" "sent (cpu_pusher w1) = sent (cpu_pusher w) @ [(''INTERNAL'', P_Envelope cenv)]"
    using confirm_control_ok [OF assms(3,7), of "list_modules order w" "[]"] by blast
  have ih: "internalHandler os order (Some (enc_envelope env)) w = Done (None, w1)"
    using w1(2) by (simp add: internalHandler_control [OF t1(1)] module_control_def modules_control_def)
  have "RegisterConfirmationHandler (cf_confirm ?c) b = (ch, b1)" using t1(3) by simp
  from confirmation_delivered [OF assms(4,5) w1(1) this]
  obtain b2 where b2: "run_iteration (on_topic ''INTERNAL'' cenv) b1 = Done b2" "chan_sent b2 = chan_sent b @ [(ch, ?c\<lparr>cf_results := rev ?rs\<rparr>)]"
    and late: "run_iteration (on_topic ''INTERNAL'' cenv) (give_up ch b1) = Diverge" by auto
  have "set (list_modules order w) = {(n, state_text m) |n m. modules w n = Some m}"
    using set_list_modules [OF cpu_okD(1) [OF cpu_reachable_ok [OF assms(1)]], of order] assms(2) by auto
  then have "set (modules_answer other (Some (?c\<lparr>cf_results := rev ?rs\<rparr>))) =
      insert (Stdout newline) {Stdout (n @ '' --> '' @ state_text m @ newline) |n m. modules w n = Some m}"
    by (simp add: modules_answer_def print_results_def image_image) (auto simp: image_def)
  with t1 w1(3) ih b2 late show ?thesis by (auto simp: modulesHandlerFunc_def)
qed

theorem telnet_lists_modules_witness:
  "\<exists>ch t1 b1 cenv b2 c. modulesHandlerFunc ''id'' (NewTelnet ''telnet'' demo_socket) (Subscriber_Start ''INTERNAL'' (empty_subscriber ())) = (Inr ch, t1, b1) \<and>
     run_iteration (on_topic ''INTERNAL'' cenv) b1 = Done b2 \<and> chan_sent b2 = [(ch, c)] \<and>
     set (modules_answer (\<lambda>_. []) (Some c)) = {Stdout newline, Stdout (''m --> enabled'' @ newline)}"
proof -
  let ?w = "demo_cpu (Some 0) 1 (Waiting 0 (Some 0)) [demo_process Running] False"
  let ?b = "Subscriber_Start ''INTERNAL'' (empty_subscriber ())"
  have m: "modules (demo_cpu (Some 0) k ph ps d) = [''m'' \<mapsto> demo_module (Some 0)]" "state_text (demo_module (Some 0)) = ''enabled''" for k ph ps d
    by (simp_all add: demo_cpu_def demo_module_def state_text_def)
  have "set [''m''] = dom (modules ?w)" "''id'' \<noteq> []" by (simp_all add: m)
  note facts = this
  have loop: "sub_loop ?b = Some (''INTERNAL'', sub_object ?b)" "sub_running (sub_object ?b)"
    by (simp_all add: Subscriber_Start_def Let_def)
  have socks: "sock (tn_pusher (NewTelnet ''telnet'' demo_socket)) (attempts (tn_pusher (NewTelnet ''telnet'' demo_socket)))"
    "sock (cpu_pusher ?w) (attempts (cpu_pusher ?w))"
    by (simp_all add: NewTelnet_def demo_socket_def demo_cpu_def)
  from telnet_lists_modules [OF demo_cpu_reachable(1) facts loop socks, of "\<lambda>_. []" "[]"]
  obtain ch t1 b1 cenv b2 c where r: "modulesHandlerFunc ''id'' (NewTelnet ''telnet'' demo_socket) ?b = (Inr ch, t1, b1)"
    "run_iteration (on_topic ''INTERNAL'' cenv) b1 = Done b2" "chan_sent b2 = chan_sent ?b @ [(ch, c)]"
    "set (modules_answer (\<lambda>_. []) (Some c)) = insert (Stdout newline) {Stdout (n @ '' --> '' @ state_text m @ newline) |n m. modules ?w n = Some m}"
    by blast
  have "{Stdout (n @ '' --> '' @ state_text m @ newline) |n m. modules ?w n = Some m} = {Stdout (''m --> enabled'' @ newline)}"
    by (auto simp: m split: if_splits)
  moreover have "chan_sent ?b = []" by (simp add: Subscriber_Start_def empty_subscriber_def Let_def)
  ultimately show ?thesis using r by auto
qed

section \<open>A program with a telnet module\<close>

text \<open>What every system gives: contexts, sockets and connections.\<close>

definition sockets_granted :: "zmq_api \<Rightarrow> bool" where
  "sockets_granted zmq \<longleftrightarrow> zmq_context zmq \<and> zmq_socket zmq \<and> zmq_linger zmq \<and> (\<forall>e. zmq_connect zmq e)"

lemma telnet_setup_granted: "sockets_granted zmq \<Longrightarrow> \<exists>bs. telnet_setup zmq pub pull t = Done bs"
  by (simp add: telnet_setup_def MustNewPusher_def MustNewSubscriber_def NewPusher_def NewSubscriber_def sockets_granted_def)

definition telnet_runner :: "zmq_api \<Rightarrow> (string \<Rightarrow> string option outcome) \<Rightarrow> Telnet \<Rightarrow> string \<Rightarrow> string \<Rightarrow> 'g \<Rightarrow> run_error option outcome \<times> 'g" where
  "telnet_runner zmq ListenAndServe t pub pull g = (plain (Telnet_Run zmq ListenAndServe t pub pull), g)"

text \<open>C34: a telnet module ends the start of its program. Its Run serves the shell itself instead of in a goroutine, and the
  library function that does so returns only to report an error. Start therefore never gets past the module: it
  does not return while the shell is served, and panics otherwise; the modules after it in the file are not
  started, and the main program never comes to wait for the signal to stop.\<close>

theorem telnet_blocks_start:
  assumes "runners s = before @ m # after" "run_all ops (ot_pubEndpoint s) (ot_pullEndpoint s) before g = Some g1"
    "Run ops m = Some (telnet_runner zmq ListenAndServe t)"
    "sockets_granted zmq" "ListenAndServe (tn_endpoint t) \<noteq> Done None"
  shows "Start ops s g = (before, if ListenAndServe (tn_endpoint t) = Diverge then Diverge else Panic, g1)"
proof -
  let ?final = "if ListenAndServe (tn_endpoint t) = Diverge then Diverge else Panic"
  obtain bs where "telnet_setup zmq (ot_pubEndpoint s) (ot_pullEndpoint s) t = Done bs"
    using telnet_setup_granted [OF assms(4)] by blast
  then have "Telnet_Run zmq ListenAndServe t (ot_pubEndpoint s) (ot_pullEndpoint s) = ?final"
    using assms(5) by (auto simp: Telnet_Run_def split: outcome.splits option.splits)
  then have run: "telnet_runner zmq ListenAndServe t (ot_pubEndpoint s) (ot_pullEndpoint s) g1 = (?final, g1)"
    by (simp add: telnet_runner_def plain_def)
  then have "start_runners ops (ot_pubEndpoint s) (ot_pullEndpoint s) (m # after) g1 = ([], ?final, g1)" using assms(3) by simp
  with start_runners_run_all [OF assms(2), of "m # after"] assms(1) show ?thesis by (simp add: Start_def)
qed

definition open_zmq :: zmq_api where
  "open_zmq = \<lparr>zmq_context = True, zmq_socket = True, zmq_connect = (\<lambda>_. True), zmq_linger = True, zmq_sends = (\<lambda>_. True)\<rparr>"

definition demo_shells :: "(Telnet, unit) module_ops" where
  "demo_shells = \<lparr>Name = tn_name, Configure = own_configure Telnet_Configure, Run = (\<lambda>t. Some (telnet_runner open_zmq (\<lambda>_. Diverge) t))\<rparr>"

theorem telnet_blocks_start_witness:
  "Start demo_shells \<lparr>factories = Map.empty, runners = [NewTelnet ''a'' demo_socket, NewTelnet ''b'' demo_socket], ot_pubEndpoint = [], ot_pullEndpoint = []\<rparr> () =
     ([], Diverge, ())"
proof -
  let ?s = "\<lparr>factories = Map.empty, runners = [NewTelnet ''a'' demo_socket, NewTelnet ''b'' demo_socket], ot_pubEndpoint = [], ot_pullEndpoint = []\<rparr>"
  have "runners ?s = [] @ NewTelnet ''a'' demo_socket # [NewTelnet ''b'' demo_socket]" by simp
  from telnet_blocks_start [OF this, of demo_shells "()" "()" open_zmq "\<lambda>_. Diverge" "NewTelnet ''a'' demo_socket"] show ?thesis
    by (simp add: demo_shells_def sockets_granted_def open_zmq_def)
qed

end
