(* ===== verification/Mqtt.thy ===== *)
theory Mqtt
  imports Subscriber Etree Util
begin

text \<open>
  The MQTT module (mqtt/mqtt.go, types.go): it publishes measurements of configured tags
  to a broker and moves on to the next broker when a connection fails or is lost. Text
  templates, URLs, certificate files and the MQTT library are parameters.
\<close>

section \<open>State\<close>

record endpoint =
  ep_url :: string
  caPath :: string
  keyPath :: string
  certPath :: string
  uri_Scheme :: string
  has_roots :: bool
  insecure :: bool

record 't MQTTClient =
  mq_pubEndpoint :: string
  endpoints :: "endpoint list"
  mq_period :: int
  mq_name :: string
  mq_id :: string
  mq_topics :: "string \<rightharpoonup> string"
  mq_values :: "string \<rightharpoonup> float64"
  mq_endpoint :: int
  mq_client :: "endpoint option"
  payloadTmpl :: 't
  timestampTmpl :: string

text \<open>What a publication is made of; the time is an argument.\<close>

record payload_data =
  Epoch :: int
  Timestamp :: string
  Client :: string
  Topic :: string
  Value :: float64

text \<open>The environment: parsing of URLs (the scheme), certificate files, the certificate authority file and its
  contents, templates, and the format of a time.\<close>

record 't mqtt_env =
  url_Parse :: "string \<Rightarrow> string option"
  LoadX509KeyPair :: "string \<Rightarrow> string \<Rightarrow> bool"
  ReadFile :: "string \<Rightarrow> string option"
  AppendCertsFromPEM :: "string \<Rightarrow> bool"
  template_Parse :: "string \<Rightarrow> 't option"
  template_Execute :: "'t \<Rightarrow> payload_data \<Rightarrow> string option"
  time_Format :: "int \<Rightarrow> string \<Rightarrow> string"

definition NewMQTT :: "'t \<Rightarrow> string \<Rightarrow> 't MQTTClient" where
  "NewMQTT value_tmpl name =
     \<lparr>mq_pubEndpoint = [], endpoints = [], mq_period = 0, mq_name = name, mq_id = [], mq_topics = Map.empty,
      mq_values = Map.empty, mq_endpoint = 0, mq_client = None, payloadTmpl = value_tmpl,
      timestampTmpl = ''2006-01-02T15:04:05Z07:00''\<rparr>"

definition NewMqttModule :: "'t \<Rightarrow> element \<Rightarrow> 't MQTTClient result" where
  "NewMqttModule value_tmpl e = Inr (NewMQTT value_tmpl (SelectAttrValue e ''name'' ''mqtt''))"

section \<open>Configuration\<close>

definition is_tls :: "endpoint \<Rightarrow> bool" where
  "is_tls ep \<longleftrightarrow> uri_Scheme ep = ''ssl'' \<or> uri_Scheme ep = ''tls''"

definition validate :: "'t mqtt_env \<Rightarrow> endpoint \<Rightarrow> endpoint result" where
  "validate env ep =
     (case url_Parse env (ep_url ep) of
        None \<Rightarrow> Inl ''parsing endpoint URL''
      | Some scheme \<Rightarrow>
          (let ep1 = ep\<lparr>uri_Scheme := scheme\<rparr>
           in if scheme = [] then Inl ''endpoint URL is missing a scheme''
              else if \<not> is_tls ep1 then Inr ep1
              else if certPath ep1 = [] \<or> keyPath ep1 = [] then Inl ''must provide certificate and key''
              else if \<not> LoadX509KeyPair env (certPath ep1) (keyPath ep1) then Inl ''loading MQTT module certificate and key''
              else if caPath ep1 = [] then Inr ep1
              else case ReadFile env (caPath ep1) of
                     None \<Rightarrow> Inl ''reading MQTT module CA certificate''
                   | Some pem \<Rightarrow>
                       if AppendCertsFromPEM env pem then Inr (ep1\<lparr>has_roots := True\<rparr>)
                       else Inl ''failed to parse MQTT module CA certificate''))"

definition empty_endpoint :: endpoint where
  "empty_endpoint = \<lparr>ep_url = [], caPath = [], keyPath = [], certPath = [], uri_Scheme = [], has_roots = False, insecure = False\<rparr>"

definition tls_child :: "element \<Rightarrow> endpoint \<Rightarrow> endpoint" where
  "tls_child e ep =
     (if Tag e = ''ca'' then ep\<lparr>caPath := Text e\<rparr>
      else if Tag e = ''key'' then ep\<lparr>keyPath := Text e\<rparr>
      else if Tag e = ''certificate'' then ep\<lparr>certPath := Text e\<rparr>
      else ep)"

text \<open>A value of the attribute insecure that is no boolean counts as false.\<close>

definition endpoint_child :: "element \<Rightarrow> endpoint \<Rightarrow> endpoint" where
  "endpoint_child e ep =
     (if Tag e = ''url'' then ep\<lparr>ep_url := Text e\<rparr>
      else if Tag e = ''tls'' then
        fold tls_child (ChildElements e)
          (ep\<lparr>insecure := (case ParseBool (SelectAttrValue e ''insecure'' ''false'') of Some b \<Rightarrow> b | None \<Rightarrow> False)\<rparr>)
      else ep)"

definition endpoint_of :: "element \<Rightarrow> endpoint" where
  "endpoint_of e =
     (if ChildElements e = [] then empty_endpoint\<lparr>ep_url := Text e\<rparr>
      else fold endpoint_child (ChildElements e) empty_endpoint)"

definition mqtt_child :: "go_impl \<Rightarrow> 't mqtt_env \<Rightarrow> element \<Rightarrow> 't MQTTClient \<Rightarrow> 't MQTTClient result" where
  "mqtt_child impl env e c =
     (if Tag e = ''pub-endpoint'' then Inr (c\<lparr>mq_pubEndpoint := Text e\<rparr>)
      else if Tag e = ''endpoint'' then Inr (c\<lparr>endpoints := endpoints c @ [endpoint_of e]\<rparr>)
      else if Tag e = ''client-id'' then Inr (c\<lparr>mq_id := Text e\<rparr>)
      else if Tag e = ''period'' then
        (case ParseDuration impl (Text e) of None \<Rightarrow> Inl ''invalid period duration'' | Some d \<Rightarrow> Inr (c\<lparr>mq_period := d\<rparr>))
      else if Tag e = ''tag'' then
        Inr (c\<lparr>mq_topics := (mq_topics c)(Text e \<mapsto> SelectAttrValue e ''topic'' (ReplaceAll (Text e) ''.'' ''/'')),
               mq_values := (mq_values c)(Text e \<mapsto> f64_zero)\<rparr>)
      else if Tag e = ''payload-template'' then
        (case template_Parse env (TrimSpace (Text e)) of
           None \<Rightarrow> Inl ''parsing payload template''
         | Some t \<Rightarrow> Inr (c\<lparr>payloadTmpl := t, timestampTmpl := SelectAttrValue e ''timestamp'' (timestampTmpl c)\<rparr>))
      else Inr c)"

fun mqtt_children :: "go_impl \<Rightarrow> 't mqtt_env \<Rightarrow> element list \<Rightarrow> 't MQTTClient \<Rightarrow> 't MQTTClient result" where
  "mqtt_children impl env [] c = Inr c"
| "mqtt_children impl env (e # es) c =
     (case mqtt_child impl env e c of Inl err \<Rightarrow> Inl err | Inr c' \<Rightarrow> mqtt_children impl env es c')"

fun validate_all :: "'t mqtt_env \<Rightarrow> endpoint list \<Rightarrow> endpoint list result" where
  "validate_all env [] = Inr []"
| "validate_all env (ep # eps) =
     (case validate env ep of
        Inl err \<Rightarrow> Inl ''validating endpoint''
      | Inr ep' \<Rightarrow> (case validate_all env eps of Inl err \<Rightarrow> Inl err | Inr eps' \<Rightarrow> Inr (ep' # eps')))"

definition Mqtt_Configure :: "go_impl \<Rightarrow> 't mqtt_env \<Rightarrow> element \<Rightarrow> 't MQTTClient \<Rightarrow> 't MQTTClient result" where
  "Mqtt_Configure impl env e c =
     (case mqtt_children impl env (ChildElements e) c of
        Inl err \<Rightarrow> Inl err
      | Inr c1 \<Rightarrow>
          if mq_id c1 = [] then Inl ''must provide client-id for MQTT module config''
          else case validate_all env (endpoints c1) of
                 Inl err \<Rightarrow> Inl err
               | Inr eps \<Rightarrow> Inr (c1\<lparr>endpoints := eps\<rparr>))"

section \<open>Connection\<close>

text \<open>Whether a broker accepts, attempt by attempt. A broker with TLS gets the certificates and the choice to verify.\<close>

type_synonym brokers = "nat \<Rightarrow> endpoint \<Rightarrow> bool"

definition connect :: "brokers \<Rightarrow> nat \<Rightarrow> 't MQTTClient \<Rightarrow> (bool \<times> 't MQTTClient) outcome" where
  "connect up n c =
     (let i = (if mq_endpoint c = int (length (endpoints c)) then 0 else mq_endpoint c)
      in if i < 0 \<or> int (length (endpoints c)) \<le> i then Panic
         else let ep = endpoints c ! nat i
              in Done (up n ep, c\<lparr>mq_endpoint := i + 1, mq_client := Some ep\<rparr>))"

text \<open>The loop that connects has no bound of its own; with n attempts used up and none successful it goes on.\<close>

fun connect_loop :: "brokers \<Rightarrow> nat \<Rightarrow> nat \<Rightarrow> 't MQTTClient \<Rightarrow> (nat \<times> 't MQTTClient) outcome" where
  "connect_loop up 0 n c = Diverge"
| "connect_loop up (Suc fuel) n c =
     (case connect up n c of
        Done (True, c') \<Rightarrow> Done (n, c')
      | Done (False, c') \<Rightarrow> connect_loop up fuel (Suc n) c'
      | Panic \<Rightarrow> Panic
      | Diverge \<Rightarrow> Diverge)"

section \<open>Publication\<close>

text \<open>Publishing a value at a time: the topic and the payload handed to the client, or nothing when the template
  fails. Without a client the call is a panic.\<close>

definition publish :: "'t mqtt_env \<Rightarrow> int \<Rightarrow> string \<times> float64 \<Rightarrow> 't MQTTClient \<Rightarrow> (endpoint \<times> string \<times> string) option outcome" where
  "publish env now tv c =
     (let topic = lookup0 [] (mq_topics c) (fst tv);
          pdata = \<lparr>Epoch = now, Timestamp = time_Format env now (timestampTmpl c), Client = mq_id c, Topic = topic, Value = snd tv\<rparr>
      in case template_Execute env (payloadTmpl c) pdata of
           None \<Rightarrow> Done None
         | Some text \<Rightarrow>
             (case mq_client c of
                None \<Rightarrow> Panic
              | Some ep \<Rightarrow> Done (Some (ep, topic, text))))"

text \<open>The handler starts a goroutine for every publication; here they are the second result.\<close>

definition mqtt_point :: "Point \<Rightarrow> 't MQTTClient \<times> (string \<times> float64) list \<Rightarrow> 't MQTTClient \<times> (string \<times> float64) list" where
  "mqtt_point p s =
     (case s of (c, pubs) \<Rightarrow>
        if mq_values c (pt_tag p) \<noteq> None
        then (c\<lparr>mq_values := (mq_values c)(pt_tag p \<mapsto> pt_value p)\<rparr>,
              if mq_period c = 0 then pubs @ [(pt_tag p, pt_value p)] else pubs)
        else (c, pubs))"

definition mqtt_handleMsgBusStatus :: "Envelope \<Rightarrow> 't MQTTClient \<Rightarrow> 't MQTTClient \<times> (string \<times> float64) list" where
  "mqtt_handleMsgBusStatus env c =
     (if Sender env = mq_name c then (c, [])
      else case env_Status env of
             (status, Some err) \<Rightarrow> (c, [])
           | (status, None) \<Rightarrow> fold mqtt_point (Measurements status) (c, []))"

text \<open>A tick of the publishing loop visits the values in any order. The loop does not start with a period of zero,
  and a negative period is a panic.\<close>

definition mqtt_tick :: "string list \<Rightarrow> 't MQTTClient \<Rightarrow> (string \<times> float64) list" where
  "mqtt_tick order c = List.map_filter (\<lambda>tag. map_option (Pair tag) (mq_values c tag)) order"

definition mqtt_start_run :: "'t MQTTClient \<Rightarrow> bool outcome" where
  "mqtt_start_run c = (if mq_period c = 0 then Done False else if mq_period c < 0 then Panic else Done True)"

definition Mqtt_Run :: "zmq_api \<Rightarrow> brokers \<Rightarrow> nat \<Rightarrow> string \<Rightarrow> 't MQTTClient \<Rightarrow> (string option \<times> 't MQTTClient) outcome" where
  "Mqtt_Run zmq up fuel pub c =
     (if endpoints c = [] then Done (Some ''no MQTT broker endpoints provided'', c)
      else case MustNewSubscriber zmq (if mq_pubEndpoint c \<noteq> [] then mq_pubEndpoint c else pub) c of
             Done b \<Rightarrow>
               (case connect_loop up fuel 0 c of
                  Done (n, c') \<Rightarrow> (case mqtt_start_run c' of Done _ \<Rightarrow> Done (None, c') | Panic \<Rightarrow> Panic | Diverge \<Rightarrow> Diverge)
                | Panic \<Rightarrow> Panic
                | Diverge \<Rightarrow> Diverge)
           | Panic \<Rightarrow> Panic
           | Diverge \<Rightarrow> Diverge)"

section \<open>The index of the broker\<close>

definition tags_ok :: "(string \<rightharpoonup> string) \<Rightarrow> (string \<rightharpoonup> float64) \<Rightarrow> bool" where
  "tags_ok ts vs \<longleftrightarrow> dom ts = dom vs"

lemma tags_ok_upd: "tags_ok ts vs \<Longrightarrow> tags_ok (ts(k \<mapsto> t)) (vs(k \<mapsto> v))"
  by (simp add: tags_ok_def)

definition mqtt_ok :: "'t MQTTClient \<Rightarrow> bool" where
  "mqtt_ok c \<longleftrightarrow> endpoints c \<noteq> [] \<and> 0 \<le> mq_endpoint c \<and> mq_endpoint c \<le> int (length (endpoints c)) \<and>
     tags_ok (mq_topics c) (mq_values c)"

text \<open>The broker that is tried next.\<close>

definition next_broker :: "'t MQTTClient \<Rightarrow> nat" where
  "next_broker c = (if mq_endpoint c = int (length (endpoints c)) then 0 else nat (mq_endpoint c))"

lemma next_broker_less: "mqtt_ok c \<Longrightarrow> next_broker c < length (endpoints c)"
  by (auto simp: mqtt_ok_def next_broker_def)

lemma connect_step:
  assumes "mqtt_ok c"
  shows "\<exists>c'. connect up n c = Done (up n (endpoints c ! next_broker c), c') \<and> mqtt_ok c' \<and> endpoints c' = endpoints c \<and>
    next_broker c' = (next_broker c + 1) mod length (endpoints c) \<and> mq_client c' = Some (endpoints c ! next_broker c) \<and>
    mq_values c' = mq_values c \<and> mq_topics c' = mq_topics c \<and> mq_period c' = mq_period c"
proof -
  let ?c = "c\<lparr>mq_endpoint := int (next_broker c) + 1, mq_client := Some (endpoints c ! next_broker c)\<rparr>"
  have l: "next_broker c < length (endpoints c)" by (rule next_broker_less [OF assms])
  have i: "(if mq_endpoint c = int (length (endpoints c)) then 0 else mq_endpoint c) = int (next_broker c)"
    using assms by (simp add: next_broker_def mqtt_ok_def)
  have "connect up n c = Done (up n (endpoints c ! next_broker c), ?c)"
    unfolding connect_def Let_def i using l by simp
  moreover have "mqtt_ok ?c" using assms l by (simp add: mqtt_ok_def)
  moreover have "next_broker ?c = (next_broker c + 1) mod length (endpoints c)"
    using l by (cases "Suc (next_broker c) = length (endpoints c)") (auto simp: next_broker_def [of ?c])
  ultimately show ?thesis by (intro exI [of _ ?c]) simp
qed

lemma connect_loop_reaches:
  assumes "mqtt_ok c" "j = (next_broker c + d) mod length (endpoints c)" "\<And>n. up n (endpoints c ! j)" "d < fuel"
  shows "\<exists>n' c'. connect_loop up fuel n c = Done (n', c') \<and> n' \<le> n + d \<and> mqtt_ok c' \<and> endpoints c' = endpoints c \<and> mq_period c' = mq_period c \<and>
    (\<exists>ep \<in> set (endpoints c). mq_client c' = Some ep \<and> up n' ep)"
  using assms
proof (induction d arbitrary: fuel n c)
  case 0
  then obtain k where fuel: "fuel = Suc k" by (cases fuel) auto
  have j: "j = next_broker c" using 0(2) next_broker_less [OF 0(1)] by simp
  with connect_step [OF 0(1), of up n] 0(3) fuel next_broker_less [OF 0(1)] show ?case by (auto intro!: nth_mem)
next
  case (Suc d)
  then obtain k where fuel: "fuel = Suc k" by (cases fuel) auto
  obtain c1 where c1: "connect up n c = Done (up n (endpoints c ! next_broker c), c1)" "mqtt_ok c1" "endpoints c1 = endpoints c"
    "next_broker c1 = (next_broker c + 1) mod length (endpoints c)" "mq_client c1 = Some (endpoints c ! next_broker c)"
    "mq_period c1 = mq_period c"
    using connect_step [OF Suc.prems(1), of up n] by blast
  show ?case
  proof (cases "up n (endpoints c ! next_broker c)")
    case True
    with c1 fuel next_broker_less [OF Suc.prems(1)] show ?thesis by (auto intro!: nth_mem)
  next
    case False
    have "j = (next_broker c1 + d) mod length (endpoints c1)"
      using Suc.prems(2) by (simp add: c1 mod_add_left_eq mod_add_right_eq add.commute)
    from Suc.IH [OF c1(2) this, where n = "Suc n" and fuel = k] Suc.prems(3,4) c1(3) fuel
    obtain n' c' where "connect_loop up k (Suc n) c1 = Done (n', c')" "n' \<le> Suc n + d" "mqtt_ok c'" "endpoints c' = endpoints c1"
      "mq_period c' = mq_period c1" "\<exists>ep \<in> set (endpoints c1). mq_client c' = Some ep \<and> up n' ep" by auto
    with c1 False fuel show ?thesis by auto
  qed
qed

section \<open>The running module\<close>

text \<open>A client that was configured with at least one broker, and then tries brokers, loses them, and receives statuses.\<close>

inductive mqtt_run :: "go_impl \<Rightarrow> 't mqtt_env \<Rightarrow> 't MQTTClient \<Rightarrow> bool" for impl env where
  configured: "Mqtt_Configure impl env e (NewMQTT t name) = Inr c \<Longrightarrow> endpoints c \<noteq> [] \<Longrightarrow> mqtt_run impl env c"
| connecting: "mqtt_run impl env c \<Longrightarrow> connect up n c = Done (ok, c') \<Longrightarrow> mqtt_run impl env c'"
| status: "mqtt_run impl env c \<Longrightarrow> mqtt_handleMsgBusStatus msg c = (c', pubs) \<Longrightarrow> mqtt_run impl env c'"

lemma mqtt_children_frame:
  "mqtt_children impl env es c = Inr c' \<Longrightarrow> mq_endpoint c' = mq_endpoint c \<and> mq_client c' = mq_client c \<and>
     (tags_ok (mq_topics c) (mq_values c) \<longrightarrow> tags_ok (mq_topics c') (mq_values c'))"
proof (induction es arbitrary: c)
  case (Cons e es)
  then obtain c1 where c1: "mqtt_child impl env e c = Inr c1" "mqtt_children impl env es c1 = Inr c'" by (auto split: sum.splits)
  have "mq_endpoint c1 = mq_endpoint c \<and> mq_client c1 = mq_client c \<and> (tags_ok (mq_topics c) (mq_values c) \<longrightarrow> tags_ok (mq_topics c1) (mq_values c1))"
    using c1(1) by (auto simp: mqtt_child_def tags_ok_upd split: if_splits option.splits)
  with Cons.IH [OF c1(2)] show ?case by simp
qed simp

lemma configured_ok:
  assumes "Mqtt_Configure impl env e (NewMQTT t name) = Inr c" "endpoints c \<noteq> []"
  shows "mqtt_ok c" "mq_client c = None"
proof -
  obtain c1 eps where c1: "mqtt_children impl env (ChildElements e) (NewMQTT t name) = Inr c1" "c = c1\<lparr>endpoints := eps\<rparr>"
    using assms(1) by (auto simp: Mqtt_Configure_def split: sum.splits if_splits)
  from mqtt_children_frame [OF c1(1)] assms(2) c1(2) show "mqtt_ok c" "mq_client c = None"
    by (simp_all add: mqtt_ok_def NewMQTT_def tags_ok_def)
qed

text \<open>What a list of points does to the values of the configured tags, and what is published for them.\<close>

definition latest :: "Point list \<Rightarrow> (string \<rightharpoonup> float64) \<Rightarrow> string \<rightharpoonup> float64" where
  "latest ps vals tag =
     (if vals tag = None then None
      else case find (\<lambda>p. pt_tag p = tag) (rev ps) of Some p \<Rightarrow> Some (pt_value p) | None \<Rightarrow> vals tag)"

definition configured_points :: "Point list \<Rightarrow> (string \<rightharpoonup> float64) \<Rightarrow> (string \<times> float64) list" where
  "configured_points ps vals = map (\<lambda>p. (pt_tag p, pt_value p)) (filter (\<lambda>p. vals (pt_tag p) \<noteq> None) ps)"

lemma latest_Nil: "latest [] vals = vals"
  by (rule ext) (auto simp: latest_def)

lemma latest_dom: "dom (latest ps vals) = dom vals"
  by (auto simp: latest_def dom_def split: if_splits option.splits)

lemma latest_tags_ok: "tags_ok ts vals \<Longrightarrow> tags_ok ts (latest ps vals)"
  by (simp add: tags_ok_def latest_dom)

lemma latest_Cons:
  "latest (p # ps) vals = (if vals (pt_tag p) = None then latest ps vals else latest ps (vals(pt_tag p \<mapsto> pt_value p)))"
  by (rule ext) (auto simp: latest_def find_append split: option.split)

lemma mqtt_point_apply:
  "mqtt_point p (c, pubs) =
     (if mq_values c (pt_tag p) = None then (c, pubs)
      else (c\<lparr>mq_values := (mq_values c)(pt_tag p \<mapsto> pt_value p)\<rparr>,
            if mq_period c = 0 then pubs @ [(pt_tag p, pt_value p)] else pubs))"
  by (simp add: mqtt_point_def)

lemma mqtt_points:
  "fold mqtt_point ps (c, pubs) =
     (c\<lparr>mq_values := latest ps (mq_values c)\<rparr>, pubs @ (if mq_period c = 0 then configured_points ps (mq_values c) else []))"
proof (induction ps arbitrary: c pubs)
  case Nil
  then show ?case by (simp add: latest_Nil configured_points_def)
next
  case (Cons p ps)
  have "configured_points ps ((mq_values c)(pt_tag p \<mapsto> pt_value p)) = configured_points ps (mq_values c)" if "mq_values c (pt_tag p) \<noteq> None"
    unfolding configured_points_def by (rule arg_cong [of _ _ "map _"], rule filter_cong) (use that in auto)
  moreover have "configured_points (p # ps) (mq_values c) =
      (if mq_values c (pt_tag p) \<noteq> None then [(pt_tag p, pt_value p)] else []) @ configured_points ps (mq_values c)"
    by (simp add: configured_points_def)
  ultimately show ?case
    by (cases "mq_values c (pt_tag p) = None") (auto simp: mqtt_point_apply Cons.IH latest_Cons fun_upd_def)
qed

lemma mqtt_status_ok: "mqtt_ok c \<Longrightarrow> mqtt_handleMsgBusStatus msg c = (c', pubs) \<Longrightarrow> mqtt_ok c'"
  by (auto simp: mqtt_handleMsgBusStatus_def mqtt_points mqtt_ok_def latest_tags_ok split: if_splits prod.splits option.splits)

interpretation mqs: bus_handler mq_name "\<lambda>env c. fst (mqtt_handleMsgBusStatus env c)"
  by unfold_locales (auto simp: mqtt_handleMsgBusStatus_def mqtt_points split: prod.split option.split)

lemma mqtt_run_ok: "mqtt_run impl env c \<Longrightarrow> mqtt_ok c"
proof (induction rule: mqtt_run.induct)
  case (configured e t name c)
  then show ?case by (rule configured_ok(1))
next
  case (connecting c up n ok c')
  with connect_step [OF connecting(3), of up n] show ?case by auto
next
  case (status c msg c' pubs)
  then show ?case using mqtt_status_ok by blast
qed

lemma set_mqtt_tick: "set (mqtt_tick order c) = {(tag, v). tag \<in> set order \<and> mq_values c tag = Some v}"
  by (induction order) (auto simp: mqtt_tick_def List.map_filter_simps split: option.split)

lemma connect_loop_finds:
  assumes "mqtt_ok c" "ep \<in> set (endpoints c)" "\<forall>n. up n ep"
  shows "\<exists>n' c'. connect_loop up (length (endpoints c)) n c = Done (n', c') \<and> n' < n + length (endpoints c) \<and>
    (\<exists>ep' \<in> set (endpoints c). mq_client c' = Some ep' \<and> up n' ep') \<and> endpoints c' = endpoints c \<and>
    mq_period c' = mq_period c \<and> mqtt_ok c'"
proof -
  let ?L = "length (endpoints c)"
  obtain j where j: "j < ?L" "endpoints c ! j = ep" using assms(2) by (auto simp: in_set_conv_nth)
  have l: "next_broker c < ?L" by (rule next_broker_less [OF assms(1)])
  define d where "d = (j + ?L - next_broker c) mod ?L"
  have d: "d < ?L" unfolding d_def by (rule mod_less_divisor, rule le_less_trans [OF _ l], simp)
  have "j = (next_broker c + d) mod ?L" using j(1) l by (simp add: d_def mod_add_right_eq)
  from connect_loop_reaches [OF assms(1) this, where up = up and fuel = ?L and n = n] d j(2) assms(3)
  obtain n' c' where r: "connect_loop up ?L n c = Done (n', c')" "n' \<le> n + d" "mqtt_ok c'" "endpoints c' = endpoints c"
    "mq_period c' = mq_period c" "\<exists>ep \<in> set (endpoints c). mq_client c' = Some ep \<and> up n' ep" by auto
  with d show ?thesis by auto
qed

text \<open>The client finds a broker that works. In every state of a running client with a broker that accepts connections, the
  loop that connects ends after at most one round over the configured brokers, without an index out of range, with
  a client for a broker that accepted. The same holds for the state it leaves, so also after the next loss.\<close>

lemma mqtt_reconnects:
  assumes "mqtt_run impl env c" "ep \<in> set (endpoints c)" "\<forall>n. up n ep"
  shows "\<exists>n' c'. connect_loop up (length (endpoints c)) n c = Done (n', c') \<and> n' < n + length (endpoints c) \<and>
    (\<exists>ep' \<in> set (endpoints c). mq_client c' = Some ep' \<and> up n' ep') \<and> endpoints c' = endpoints c \<and>
    0 \<le> mq_endpoint c' \<and> mq_endpoint c' \<le> int (length (endpoints c))"
  using connect_loop_finds [of c ep up n, OF mqtt_run_ok [OF assms(1)] assms(2,3)] by (auto simp: mqtt_ok_def)

text \<open>A publication of a client that is connected: to its broker, under the topic of the tag, with the payload that the template makes
  of the identifier of the client, the topic, the value and the time; nothing when the template fails.\<close>

lemma publish_topic:
  assumes "mq_client c = Some ep" "mq_topics c tag = Some topic"
  shows "publish menv now (tag, v) c =
    Done (map_option (\<lambda>text. (ep, topic, text)) (template_Execute menv (payloadTmpl c)
      \<lparr>Epoch = now, Timestamp = time_Format menv now (timestampTmpl c), Client = mq_id c, Topic = topic, Value = v\<rparr>))"
  using assms by (simp add: publish_def lookup0_def Let_def split: option.split)

text \<open>C20: measurements of configured tags are published, each under its topic. A status of another module sets the value of every configured tag
  it has to the last measurement and no other. With no period every such measurement is handed to a publication
  at once, in order, and with a period the next tick does so for the current value of every configured tag. A publication of a connected client
  goes to its broker under the topic configured for the tag, with a payload made of this topic and the value; it is dropped only
  when the template of the payload fails.\<close>

theorem mqtt_publishes_tags:
  assumes "mqtt_run impl menv c" "NewEnvelope n (C_Status st) = Inr env" "n \<noteq> mq_name c" "set order = dom (mq_topics c)"
  shows "\<exists>c'. mqtt_handleMsgBusStatus env c =
      (c', if mq_period c = 0 then map (\<lambda>p. (pt_tag p, pt_value p)) (filter (\<lambda>p. pt_tag p \<in> dom (mq_topics c)) (Measurements st)) else []) \<and>
    set (mqtt_tick order c') =
      {(tag, case find (\<lambda>p. pt_tag p = tag) (rev (Measurements st)) of Some p \<Rightarrow> pt_value p | None \<Rightarrow> lookup0 0 (mq_values c) tag) |tag. tag \<in> dom (mq_topics c)} \<and>
    (\<forall>now tag topic v ep. mq_topics c tag = Some topic \<longrightarrow> mq_client c = Some ep \<longrightarrow>
      publish menv now (tag, v) c' =
        Done (map_option (\<lambda>text. (ep, topic, text)) (template_Execute menv (payloadTmpl c)
          \<lparr>Epoch = now, Timestamp = time_Format menv now (timestampTmpl c), Client = mq_id c, Topic = topic, Value = v\<rparr>)))"
proof -
  have dom: "dom (mq_topics c) = dom (mq_values c)" using mqtt_run_ok [OF assms(1)] by (simp add: mqtt_ok_def tags_ok_def)
  let ?c = "c\<lparr>mq_values := latest (Measurements st) (mq_values c)\<rparr>"
  have h: "mqtt_handleMsgBusStatus env c = (?c, if mq_period c = 0 then configured_points (Measurements st) (mq_values c) else [])"
    using assms(3) by (simp add: mqtt_handleMsgBusStatus_def Sender_NewEnvelope [OF assms(2)] env_Status_NewEnvelope [OF assms(2)] mqtt_points)
  have pubs: "configured_points (Measurements st) (mq_values c) =
      map (\<lambda>p. (pt_tag p, pt_value p)) (filter (\<lambda>p. pt_tag p \<in> dom (mq_topics c)) (Measurements st))"
    unfolding configured_points_def dom by (simp add: domIff)
  have "set (mqtt_tick order ?c) = {(tag, v). latest (Measurements st) (mq_values c) tag = Some v}"
    unfolding set_mqtt_tick assms(4) dom latest_dom [of "Measurements st" "mq_values c", symmetric] by auto
  also have "\<dots> = {(tag, case find (\<lambda>p. pt_tag p = tag) (rev (Measurements st)) of Some p \<Rightarrow> pt_value p | None \<Rightarrow> lookup0 0 (mq_values c) tag) |tag. tag \<in> dom (mq_topics c)}"
    unfolding dom by (auto simp: latest_def lookup0_def split: if_splits option.splits)
  finally show ?thesis using h pubs publish_topic [of ?c] by (intro exI [of _ ?c]) simp
qed

text \<open>A measurement that arrives too early ends the program. The client subscribes to the bus before it connects to
  a broker for the first time; without a period, a status that arrives before that is published with no client,
  which is a panic.\<close>

lemma mqtt_early_status_panics:
  assumes "Mqtt_Configure impl menv e (NewMQTT t name) = Inr c" "endpoints c \<noteq> []" "mq_period c = 0"
    "NewEnvelope n (C_Status st) = Inr env" "n \<noteq> mq_name c" "p \<in> set (Measurements st)" "pt_tag p \<in> dom (mq_topics c)"
    "\<forall>d. template_Execute menv (payloadTmpl c) d \<noteq> None"
  shows "\<exists>c' pubs. mqtt_handleMsgBusStatus env c = (c', pubs) \<and> (pt_tag p, pt_value p) \<in> set pubs \<and>
    publish menv now (pt_tag p, pt_value p) c' = Panic"
proof -
  note ok = configured_ok [OF assms(1,2)]
  let ?c = "c\<lparr>mq_values := latest (Measurements st) (mq_values c)\<rparr>"
  have h: "mqtt_handleMsgBusStatus env c = (?c, configured_points (Measurements st) (mq_values c))"
    using assms(3,5) by (simp add: mqtt_handleMsgBusStatus_def Sender_NewEnvelope [OF assms(4)] env_Status_NewEnvelope [OF assms(4)] mqtt_points)
  have "pt_tag p \<in> dom (mq_values c)" using ok(1) assms(7) by (simp add: mqtt_ok_def tags_ok_def)
  then have "(pt_tag p, pt_value p) \<in> set (configured_points (Measurements st) (mq_values c))"
    using assms(6) by (auto simp: configured_points_def)
  moreover have "publish menv now (pt_tag p, pt_value p) ?c = Panic"
    using assms(8) ok(2) by (simp add: publish_def Let_def split: option.split)
  ultimately show ?thesis using h by blast
qed

section \<open>Instances\<close>

definition demo_mqtt_env :: "unit mqtt_env" where
  "demo_mqtt_env = \<lparr>url_Parse = (\<lambda>_. Some ''tcp''), LoadX509KeyPair = (\<lambda>_ _. False), ReadFile = (\<lambda>_. None), AppendCertsFromPEM = (\<lambda>_. False),
     template_Parse = (\<lambda>_. Some ()), template_Execute = (\<lambda>_ d. Some (Topic d)), time_Format = (\<lambda>_ _. [])\<rparr>"

definition demo_mqtt_config :: element where
  "demo_mqtt_config = node ''mqtt'' [] [] [node ''endpoint'' [] ''tcp://broker'' [], node ''client-id'' [] ''id'' [], node ''tag'' [] ''a.v'' []]"

definition demo_mqtt :: "unit MQTTClient" where
  "demo_mqtt = (NewMQTT () ''mqtt'')\<lparr>endpoints := [empty_endpoint\<lparr>ep_url := ''tcp://broker'', uri_Scheme := ''tcp''\<rparr>], mq_id := ''id'',
     mq_topics := [''a.v'' \<mapsto> ''a/v''], mq_values := [''a.v'' \<mapsto> f64_zero]\<rparr>"

lemma demo_mqtt_configured: "Mqtt_Configure demo_impl demo_mqtt_env demo_mqtt_config (NewMQTT () ''mqtt'') = Inr demo_mqtt" "endpoints demo_mqtt \<noteq> []"
  by (simp_all add: Mqtt_Configure_def demo_mqtt_config_def demo_mqtt_env_def demo_mqtt_def mqtt_child_def endpoint_of_def
      validate_def is_tls_def NewMQTT_def ReplaceAll_def empty_endpoint_def Let_def)

lemma demo_mqtt_run: "mqtt_run demo_impl demo_mqtt_env demo_mqtt"
  by (rule mqtt_run.configured [OF demo_mqtt_configured])

definition demo_status :: "Status" where
  "demo_status = \<lparr>Measurements = [\<lparr>pt_tag = ''a.v'', pt_value = f64_one, pt_ts = 0\<rparr>, \<lparr>pt_tag = ''b'', pt_value = f64_zero, pt_ts = 0\<rparr>]\<rparr>"

lemma demo_status_env: "\<exists>env. NewEnvelope ''rtu'' (C_Status demo_status) = Inr env"
proof -
  have "f64_finite f64_one" "f64_finite f64_zero" by (simp_all add: fp_eval cong: let_weak_cong)
  then show ?thesis unfolding NewEnvelope_fails_iff(1) by (simp add: points_finite_def demo_status_def)
qed

lemma mqtt_reconnects_witness:
  "\<exists>n c. connect_loop (\<lambda>_ _. True) 1 0 demo_mqtt = Done (n, c) \<and> n < 1 \<and> mq_client c \<noteq> None"
proof -
  have e: "length (endpoints demo_mqtt) = 1" by (simp add: demo_mqtt_def)
  have "hd (endpoints demo_mqtt) \<in> set (endpoints demo_mqtt)" using demo_mqtt_configured(2) by simp
  from mqtt_reconnects [OF demo_mqtt_run this, of "\<lambda>_ _. True" 0] show ?thesis unfolding e by auto
qed

definition demo_mqtt_connected :: "unit MQTTClient" where
  "demo_mqtt_connected = demo_mqtt\<lparr>mq_endpoint := 1, mq_client := Some (hd (endpoints demo_mqtt))\<rparr>"

lemma demo_mqtt_connected_run: "mqtt_run demo_impl demo_mqtt_env demo_mqtt_connected"
proof (rule mqtt_run.connecting [OF demo_mqtt_run])
  show "connect (\<lambda>_ _. True) 0 demo_mqtt = Done (True, demo_mqtt_connected)"
    by (simp add: connect_def demo_mqtt_connected_def demo_mqtt_def NewMQTT_def)
qed

theorem mqtt_publishes_tags_witness:
  "\<exists>env c. NewEnvelope ''rtu'' (C_Status demo_status) = Inr env \<and>
     mqtt_handleMsgBusStatus env demo_mqtt_connected = (c, [(''a.v'', f64_one)]) \<and>
     publish demo_mqtt_env 0 (''a.v'', f64_one) c = Done (Some (hd (endpoints demo_mqtt), ''a/v'', ''a/v''))"
proof -
  obtain env where env: "NewEnvelope ''rtu'' (C_Status demo_status) = Inr env" using demo_status_env by blast
  have d: "''rtu'' \<noteq> mq_name demo_mqtt_connected" "set [''a.v''] = dom (mq_topics demo_mqtt_connected)" "mq_period demo_mqtt_connected = 0"
    by (simp_all add: demo_mqtt_connected_def demo_mqtt_def NewMQTT_def)
  have t: "mq_topics demo_mqtt_connected = [''a.v'' \<mapsto> ''a/v'']" "mq_client demo_mqtt_connected = Some (hd (endpoints demo_mqtt))"
    by (simp_all add: demo_mqtt_connected_def demo_mqtt_def)
  from mqtt_publishes_tags [OF demo_mqtt_connected_run env d(1,2)] env show ?thesis
    by (auto simp: demo_status_def t d(3) demo_mqtt_env_def)
qed

lemma mqtt_early_status_panics_witness:
  "\<exists>env c pubs. NewEnvelope ''rtu'' (C_Status demo_status) = Inr env \<and> mqtt_handleMsgBusStatus env demo_mqtt = (c, pubs) \<and>
     publish demo_mqtt_env 0 (''a.v'', f64_one) c = Panic"
proof -
  obtain env where env: "NewEnvelope ''rtu'' (C_Status demo_status) = Inr env" using demo_status_env by blast
  have "mq_period demo_mqtt = 0" "''rtu'' \<noteq> mq_name demo_mqtt" by (simp_all add: demo_mqtt_def NewMQTT_def)
  moreover have "\<lparr>pt_tag = ''a.v'', pt_value = f64_one, pt_ts = 0\<rparr> \<in> set (Measurements demo_status)" by (simp add: demo_status_def)
  moreover have "pt_tag \<lparr>pt_tag = ''a.v'', pt_value = f64_one, pt_ts = 0\<rparr> \<in> dom (mq_topics demo_mqtt)" by (simp add: demo_mqtt_def)
  moreover have "\<forall>d. template_Execute demo_mqtt_env (payloadTmpl demo_mqtt) d \<noteq> None" by (simp add: demo_mqtt_env_def)
  ultimately show ?thesis
    using mqtt_early_status_panics [OF demo_mqtt_configured _ env, of "\<lparr>pt_tag = ''a.v'', pt_value = f64_one, pt_ts = 0\<rparr>" 0] env by auto
qed

end
