(* ===== verification/MqttLife.thy ===== *)
theory MqttLife
  imports Mqtt
begin

text \<open>
  The MQTT module while it runs (mqtt/mqtt.go, from Run on): every call of connectAndRun has a context of its own, tries
  the brokers until one accepts, and starts a goroutine with the publishing loop; a lost connection cancels that context
  and calls connectAndRun again. All of them work on one client, and every publication is a goroutine.
\<close>

section \<open>State\<close>

text \<open>How far a call of connectAndRun is: it tries brokers, has a connection, its loop waits for ticks, or its loop has
  returned. Its context is cancelled by the handler of its connection, which the library calls when the connection is lost.\<close>

datatype conn_phase = Connecting | Connected | Looping | LoopReturned

record conn =
  cn_phase :: conn_phase
  cn_up :: bool
  cn_cancelled :: bool

definition new_conn :: conn where
  "new_conn = \<lparr>cn_phase = Connecting, cn_up = False, cn_cancelled = False\<rparr>"

record 't mqtt_module =
  mm_client :: "'t MQTTClient"
  mm_conns :: "conn list"
  mm_attempts :: nat
  mm_pubs :: "(string \<times> float64) list"
  mm_sent :: "(endpoint \<times> string \<times> string) list"
  mm_done :: bool

definition set_conn :: "nat \<Rightarrow> conn \<Rightarrow> 't mqtt_module \<Rightarrow> 't mqtt_module" where
  "set_conn i x s = s\<lparr>mm_conns := (mm_conns s)[i := x]\<rparr>"

definition drop_nth :: "nat \<Rightarrow> 'a list \<Rightarrow> 'a list" where
  "drop_nth k xs = take k xs @ drop (Suc k) xs"

text \<open>Run, up to its call of connectAndRun: the subscriber is there with its handler, and no broker was tried.\<close>

definition mqtt_started :: "zmq_api \<Rightarrow> string \<Rightarrow> 't MQTTClient \<Rightarrow> 't mqtt_module result outcome" where
  "mqtt_started zmq pub c =
     (if endpoints c = [] then Done (Inl ''no MQTT broker endpoints provided'')
      else case MustNewSubscriber zmq (if mq_pubEndpoint c \<noteq> [] then mq_pubEndpoint c else pub) c of
             Done b \<Rightarrow> Done (Inr \<lparr>mm_client = c, mm_conns = [new_conn], mm_attempts = 0, mm_pubs = [], mm_sent = [], mm_done = False\<rparr>)
           | Panic \<Rightarrow> Panic
           | Diverge \<Rightarrow> Diverge)"

section \<open>Steps\<close>

datatype mqtt_event =
    StatusReceived Envelope
  | Attempt nat
  | GoRun nat
  | ConnectionLost nat
  | LoopTick nat "string list"
  | LoopDone nat
  | Published nat int
  | ToldToStop

definition connectAndRun_attempt :: "brokers \<Rightarrow> nat \<Rightarrow> 't mqtt_module \<Rightarrow> 't mqtt_module option outcome" where
  "connectAndRun_attempt up i s =
     (if cn_phase (mm_conns s ! i) \<noteq> Connecting then Done None
      else case connect up (mm_attempts s) (mm_client s) of
             Done (ok, c) \<Rightarrow>
               let s1 = s\<lparr>mm_client := c, mm_attempts := mm_attempts s + 1\<rparr>
               in Done (Some (if ok then set_conn i ((mm_conns s ! i)\<lparr>cn_phase := Connected, cn_up := True\<rparr>) s1 else s1))
           | Panic \<Rightarrow> Panic
           | Diverge \<Rightarrow> Diverge)"

definition lostConnectionHandler :: "nat \<Rightarrow> 't mqtt_module \<Rightarrow> 't mqtt_module" where
  "lostConnectionHandler i s =
     (let s1 = set_conn i ((mm_conns s ! i)\<lparr>cn_up := False, cn_cancelled := True\<rparr>) s
      in s1\<lparr>mm_conns := mm_conns s1 @ [new_conn]\<rparr>)"

text \<open>The goroutine with the loop: without a period it returns, and making a ticker with a negative one is a panic. Waiting for both
  its context and its ticker, it may still choose the tick after its context was cancelled.\<close>

definition run_begins :: "nat \<Rightarrow> 't mqtt_module \<Rightarrow> 't mqtt_module option outcome" where
  "run_begins i s =
     (if cn_phase (mm_conns s ! i) \<noteq> Connected then Done None
      else case mqtt_start_run (mm_client s) of
             Done loops \<Rightarrow> Done (Some (set_conn i ((mm_conns s ! i)\<lparr>cn_phase := if loops then Looping else LoopReturned\<rparr>) s))
           | Panic \<Rightarrow> Panic
           | Diverge \<Rightarrow> Diverge)"

definition run_done :: "nat \<Rightarrow> 't mqtt_module \<Rightarrow> 't mqtt_module option" where
  "run_done i s =
     (let x = mm_conns s ! i
      in if cn_phase x = Looping \<and> (cn_cancelled x \<or> mm_done s) then Some (set_conn i (x\<lparr>cn_phase := LoopReturned\<rparr>) s) else None)"

definition publish_one :: "'t mqtt_env \<Rightarrow> nat \<Rightarrow> int \<Rightarrow> 't mqtt_module \<Rightarrow> 't mqtt_module option outcome" where
  "publish_one env k now s =
     (if length (mm_pubs s) \<le> k then Done None
      else case publish env now (mm_pubs s ! k) (mm_client s) of
             Done r \<Rightarrow>
               Done (Some (s\<lparr>mm_pubs := drop_nth k (mm_pubs s),
                             mm_sent := mm_sent s @ (case r of None \<Rightarrow> [] | Some m \<Rightarrow> [m])\<rparr>))
           | Panic \<Rightarrow> Panic
           | Diverge \<Rightarrow> Diverge)"

text \<open>A step, or nothing when it cannot happen.\<close>

fun mqtt_step :: "brokers \<Rightarrow> 't mqtt_env \<Rightarrow> mqtt_event \<Rightarrow> 't mqtt_module \<Rightarrow> 't mqtt_module option outcome" where
  "mqtt_step up env (StatusReceived msg) s =
     (case mqtt_handleMsgBusStatus msg (mm_client s) of
        (c, pubs) \<Rightarrow> Done (Some (s\<lparr>mm_client := c, mm_pubs := mm_pubs s @ pubs\<rparr>)))"
| "mqtt_step up env (Attempt i) s = (if i < length (mm_conns s) then connectAndRun_attempt up i s else Done None)"
| "mqtt_step up env (GoRun i) s = (if i < length (mm_conns s) then run_begins i s else Done None)"
| "mqtt_step up env (ConnectionLost i) s =
     (if i < length (mm_conns s) \<and> cn_up (mm_conns s ! i) then Done (Some (lostConnectionHandler i s)) else Done None)"
| "mqtt_step up env (LoopTick i order) s =
     (if i < length (mm_conns s) \<and> cn_phase (mm_conns s ! i) = Looping
      then Done (Some (s\<lparr>mm_pubs := mm_pubs s @ mqtt_tick order (mm_client s)\<rparr>)) else Done None)"
| "mqtt_step up env (LoopDone i) s = (if i < length (mm_conns s) then Done (run_done i s) else Done None)"
| "mqtt_step up env (Published k now) s = publish_one env k now s"
| "mqtt_step up env ToldToStop s = Done (Some (s\<lparr>mm_done := True\<rparr>))"

fun mqtt_steps :: "brokers \<Rightarrow> 't mqtt_env \<Rightarrow> mqtt_event list \<Rightarrow> 't mqtt_module \<Rightarrow> 't mqtt_module option outcome" where
  "mqtt_steps up env [] s = Done (Some s)"
| "mqtt_steps up env (e # es) s =
     (case mqtt_step up env e s of
        Done (Some s') \<Rightarrow> mqtt_steps up env es s'
      | r \<Rightarrow> r)"

inductive mqtt_life :: "go_impl \<Rightarrow> 't mqtt_env \<Rightarrow> brokers \<Rightarrow> 't mqtt_module \<Rightarrow> bool" for impl env up where
  started: "Mqtt_Configure impl env e (NewMQTT t name) = Inr c \<Longrightarrow> mqtt_started zmq pub c = Done (Inr s) \<Longrightarrow> mqtt_life impl env up s"
| step: "mqtt_life impl env up s \<Longrightarrow> mqtt_step up env ev s = Done (Some s') \<Longrightarrow> mqtt_life impl env up s'"

section \<open>The invariant\<close>

text \<open>The connections: those before the last are lost, their contexts cancelled, and only the last one may still try brokers.\<close>

definition conns_ok :: "conn list \<Rightarrow> bool" where
  "conns_ok xs \<longleftrightarrow> xs \<noteq> [] \<and> \<not> cn_cancelled (last xs) \<and> (cn_up (last xs) \<longleftrightarrow> cn_phase (last xs) \<noteq> Connecting) \<and>
     list_all (\<lambda>x. cn_cancelled x \<and> \<not> cn_up x \<and> cn_phase x \<noteq> Connecting) (butlast xs)"

definition life_ok :: "'t mqtt_module \<Rightarrow> bool" where
  "life_ok s \<longleftrightarrow> mqtt_ok (mm_client s) \<and> conns_ok (mm_conns s) \<and>
     (mm_attempts s = 0 \<longleftrightarrow> mq_client (mm_client s) = None) \<and>
     (mm_attempts s = 0 \<longrightarrow> (\<forall>x \<in> set (mm_conns s). cn_phase x = Connecting)) \<and>
     (mm_attempts s = 0 \<longrightarrow> mq_period (mm_client s) \<noteq> 0 \<longrightarrow> mm_pubs s = []) \<and>
     (\<forall>x \<in> set (mm_conns s). cn_phase x = Looping \<longrightarrow> 0 < mq_period (mm_client s))"

lemma conns_ok_snoc:
  "conns_ok (xs @ [x]) \<longleftrightarrow> \<not> cn_cancelled x \<and> (cn_up x \<longleftrightarrow> cn_phase x \<noteq> Connecting) \<and>
     list_all (\<lambda>x. cn_cancelled x \<and> \<not> cn_up x \<and> cn_phase x \<noteq> Connecting) xs"
  by (simp add: conns_ok_def)

lemma conns_ok_last:
  assumes "conns_ok xs" "i < length xs" "cn_up (xs ! i) \<or> cn_phase (xs ! i) = Connecting \<or> \<not> cn_cancelled (xs ! i)"
  shows "i = length xs - 1" "xs ! i = last xs"
proof -
  have "\<not> i < length (butlast xs)"
  proof
    assume i: "i < length (butlast xs)"
    with assms(1) have "cn_cancelled (butlast xs ! i) \<and> \<not> cn_up (butlast xs ! i) \<and> cn_phase (butlast xs ! i) \<noteq> Connecting"
      by (simp add: conns_ok_def list_all_length)
    with assms(3) i show False by (auto simp: nth_butlast)
  qed
  with assms(2) show "i = length xs - 1" by simp
  then show "xs ! i = last xs" using assms(2) by (metis last_conv_nth length_0_conv not_less_zero)
qed

lemma conns_ok_upd_last:
  assumes "conns_ok xs" "\<not> cn_cancelled x" "cn_up x \<longleftrightarrow> cn_phase x \<noteq> Connecting"
  shows "conns_ok (xs[length xs - 1 := x])"
proof -
  obtain ys y where "xs = ys @ [y]" using assms(1) by (metis append_butlast_last_id conns_ok_def)
  with assms show ?thesis by (simp add: conns_ok_snoc)
qed

lemma conns_ok_phase:
  assumes "conns_ok xs" "i < length xs" "cn_phase (xs ! i) \<noteq> Connecting" "p \<noteq> Connecting"
  shows "conns_ok (xs[i := (xs ! i)\<lparr>cn_phase := p\<rparr>])"
proof -
  obtain ys y where x: "xs = ys @ [y]" using assms(1) by (metis append_butlast_last_id conns_ok_def)
  show ?thesis
  proof (cases "i < length ys")
    case True
    then have "cn_cancelled (ys ! i)" "\<not> cn_up (ys ! i)" using assms(1) by (auto simp: x conns_ok_snoc list_all_length)
    with True assms show ?thesis
      by (auto simp: x conns_ok_snoc nth_append list_update_append list_all_iff dest!: subsetD [OF set_update_subset_insert])
  next
    case False
    with assms(2) have "i = length ys" by (simp add: x)
    with assms show ?thesis by (simp add: x conns_ok_snoc)
  qed
qed

lemma status_frame:
  "mqtt_handleMsgBusStatus msg c = (c', pubs) \<Longrightarrow> mq_client c' = mq_client c \<and> mq_period c' = mq_period c \<and> endpoints c' = endpoints c \<and>
     (mq_period c \<noteq> 0 \<longrightarrow> pubs = [])"
  by (auto simp: mqtt_handleMsgBusStatus_def mqtt_points split: if_splits prod.splits option.splits)

lemma life_ok_status:
  assumes "life_ok s" "mqtt_handleMsgBusStatus msg (mm_client s) = (c, pubs)"
  shows "life_ok (s\<lparr>mm_client := c, mm_pubs := mm_pubs s @ pubs\<rparr>)"
  using assms mqtt_status_ok [OF _ assms(2)] status_frame [OF assms(2)] by (auto simp: life_ok_def)

lemma life_ok_attempt:
  assumes "life_ok s" "i < length (mm_conns s)" "connectAndRun_attempt up i s = Done (Some s')"
  shows "life_ok s'"
proof -
  let ?xs = "mm_conns s"
  have ph: "cn_phase (?xs ! i) = Connecting" using assms(3) by (auto simp: connectAndRun_attempt_def split: if_splits)
  have ok: "mqtt_ok (mm_client s)" "conns_ok ?xs" using assms(1) by (simp_all add: life_ok_def)
  obtain b c where c: "connect up (mm_attempts s) (mm_client s) = Done (b, c)" "mqtt_ok c" "mq_client c \<noteq> None" "mq_period c = mq_period (mm_client s)"
    using connect_step [OF ok(1), of up "mm_attempts s"] by auto
  have i: "i = length ?xs - 1" and nc: "\<not> cn_cancelled (?xs ! i)"
    using conns_ok_last [OF ok(2) assms(2)] ph ok(2) by (auto simp: conns_ok_def)
  let ?x = "(?xs ! i)\<lparr>cn_phase := Connected, cn_up := True\<rparr>"
  have "conns_ok (?xs[i := ?x])" unfolding i by (rule conns_ok_upd_last [OF ok(2)]) (use nc i in simp_all)
  then show ?thesis using assms(1,3) c ph
    by (auto simp: connectAndRun_attempt_def life_ok_def set_conn_def Let_def split: if_splits dest!: subsetD [OF set_update_subset_insert])
qed

lemma life_ok_begins:
  assumes "life_ok s" "i < length (mm_conns s)" "run_begins i s = Done (Some s')"
  shows "life_ok s'"
proof -
  let ?xs = "mm_conns s"
  have ph: "cn_phase (?xs ! i) = Connected" using assms(3) by (auto simp: run_begins_def split: if_splits)
  have "mm_attempts s \<noteq> 0" using assms(1,2) ph nth_mem [OF assms(2)] by (auto simp: life_ok_def)
  moreover have "conns_ok (?xs[i := (?xs ! i)\<lparr>cn_phase := p\<rparr>])" if "p \<noteq> Connecting" for p
    using conns_ok_phase [OF _ assms(2)] ph that assms(1) by (simp add: life_ok_def)
  ultimately show ?thesis using assms(1,3) ph
    by (auto simp: run_begins_def mqtt_start_run_def life_ok_def set_conn_def split: if_splits dest!: subsetD [OF set_update_subset_insert])
qed

lemma life_ok_run_done:
  assumes "life_ok s" "i < length (mm_conns s)" "run_done i s = Some s'"
  shows "life_ok s'"
proof -
  let ?xs = "mm_conns s"
  have ph: "cn_phase (?xs ! i) = Looping" using assms(3) by (auto simp: run_done_def Let_def split: if_splits)
  have "mm_attempts s \<noteq> 0" using assms(1,2) ph nth_mem [OF assms(2)] by (auto simp: life_ok_def)
  moreover have "conns_ok (?xs[i := (?xs ! i)\<lparr>cn_phase := LoopReturned\<rparr>])"
    using conns_ok_phase [OF _ assms(2)] ph assms(1) by (simp add: life_ok_def)
  ultimately show ?thesis using assms(1,3) ph
    by (auto simp: run_done_def life_ok_def set_conn_def Let_def split: if_splits dest!: subsetD [OF set_update_subset_insert])
qed

lemma lost_conns:
  assumes "conns_ok xs" "i < length xs" "cn_up (xs ! i)"
  shows "conns_ok (xs[i := (xs ! i)\<lparr>cn_up := False, cn_cancelled := True\<rparr>] @ [new_conn])"
proof -
  obtain ys y where x: "xs = ys @ [y]" using assms(1) by (metis append_butlast_last_id conns_ok_def)
  have "i = length ys" using conns_ok_last(1) [OF assms(1,2)] assms(3) by (simp add: x)
  with assms conns_ok_snoc [of "ys @ [y\<lparr>cn_up := False, cn_cancelled := True\<rparr>]" new_conn] show ?thesis
    by (simp add: x conns_ok_snoc) (simp add: new_conn_def)
qed

lemma life_ok_lost:
  assumes "life_ok s" "i < length (mm_conns s)" "cn_up (mm_conns s ! i)"
  shows "life_ok (lostConnectionHandler i s)"
proof -
  let ?xs = "mm_conns s"
  have "cn_phase (?xs ! i) \<noteq> Connecting" using conns_ok_last(2) [OF _ assms(2)] assms by (auto simp: life_ok_def conns_ok_def)
  then have "mm_attempts s \<noteq> 0" using assms(1,2) nth_mem [OF assms(2)] by (auto simp: life_ok_def)
  moreover have "cn_phase (?xs ! i) = Looping \<Longrightarrow> 0 < mq_period (mm_client s)" using assms(1,2) by (auto simp: life_ok_def)
  ultimately show ?thesis using assms(1) lost_conns [OF _ assms(2,3)]
    by (auto simp: lostConnectionHandler_def life_ok_def set_conn_def Let_def new_conn_def dest!: subsetD [OF set_update_subset_insert])
qed

lemma life_ok_tick:
  assumes "life_ok s" "i < length (mm_conns s)" "cn_phase (mm_conns s ! i) = Looping"
  shows "life_ok (s\<lparr>mm_pubs := mm_pubs s @ pubs\<rparr>)"
  using assms nth_mem [OF assms(2)] by (auto simp: life_ok_def)

lemma life_ok_published:
  assumes "life_ok s" "publish_one env k now s = Done (Some s')"
  shows "life_ok s'"
  using assms by (auto simp: publish_one_def life_ok_def drop_nth_def split: if_splits outcome.splits)

lemma mqtt_step_ok:
  assumes "life_ok s" "mqtt_step up env ev s = Done (Some s')"
  shows "life_ok s'"
proof (cases ev)
  case (StatusReceived msg)
  with assms show ?thesis by (auto intro: life_ok_status split: prod.splits)
next
  case (Attempt i)
  with assms life_ok_attempt [of s i up s'] show ?thesis by (simp split: if_splits)
next
  case (GoRun i)
  with assms life_ok_begins [of s i s'] show ?thesis by (simp split: if_splits)
next
  case (ConnectionLost i)
  with assms life_ok_lost [of s i] show ?thesis by (auto split: if_splits)
next
  case (LoopTick i order)
  with assms life_ok_tick [of s i] show ?thesis by (auto split: if_splits)
next
  case (LoopDone i)
  with assms life_ok_run_done [of s i s'] show ?thesis by (simp split: if_splits)
next
  case (Published k now)
  with assms life_ok_published [of s env k now s'] show ?thesis by simp
next
  case ToldToStop
  with assms show ?thesis by (auto simp: life_ok_def)
qed

lemma mqtt_started_ok:
  assumes "Mqtt_Configure impl env e (NewMQTT t name) = Inr c" "mqtt_started zmq pub c = Done (Inr s)"
  shows "life_ok s"
proof -
  have "endpoints c \<noteq> []" using assms(2) by (auto simp: mqtt_started_def split: if_splits)
  from configured_ok [OF assms(1) this] assms(2) show ?thesis
    by (auto simp: mqtt_started_def life_ok_def conns_ok_def new_conn_def split: if_splits outcome.splits)
qed

lemma mqtt_life_ok: "mqtt_life impl env up s \<Longrightarrow> life_ok s"
  by (induction rule: mqtt_life.induct) (blast intro: mqtt_started_ok mqtt_step_ok)+

section \<open>Recovery\<close>

lemma mqtt_steps_append:
  "mqtt_steps up env es s = Done (Some s') \<Longrightarrow> mqtt_steps up env (es @ fs) s = mqtt_steps up env fs s'"
  by (induction es arbitrary: s) (auto split: outcome.splits option.splits)

text \<open>The attempts of a call of connectAndRun are those of the loop that connects.\<close>

lemma attempts_are_loop:
  assumes "connect_loop up fuel (mm_attempts s) (mm_client s) = Done (n', c')" "i < length (mm_conns s)"
    "mm_conns s ! i = new_conn"
  shows "mm_attempts s \<le> n' \<and> mqtt_steps up env (replicate (Suc n' - mm_attempts s) (Attempt i)) s =
    Done (Some (s\<lparr>mm_client := c', mm_attempts := Suc n', mm_conns := (mm_conns s)[i := new_conn\<lparr>cn_phase := Connected, cn_up := True\<rparr>]\<rparr>))"
  using assms
proof (induction fuel arbitrary: s)
  case (Suc fuel)
  obtain b c where c: "connect up (mm_attempts s) (mm_client s) = Done (b, c)"
    using Suc.prems(1) by (auto split: outcome.splits)
  let ?s1 = "s\<lparr>mm_client := c, mm_attempts := mm_attempts s + 1\<rparr>"
  have st: "mqtt_step up env (Attempt i) s =
      Done (Some (if b then set_conn i (new_conn\<lparr>cn_phase := Connected, cn_up := True\<rparr>) ?s1 else ?s1))"
    using Suc.prems(2,3) c by (simp add: connectAndRun_attempt_def Let_def) (simp add: new_conn_def)
  show ?case
  proof (cases b)
    case True
    with Suc.prems(1) c have "n' = mm_attempts s" "c' = c" by simp_all
    with st True show ?thesis by (simp add: set_conn_def)
  next
    case False
    have "connect_loop up fuel (mm_attempts ?s1) (mm_client ?s1) = Done (n', c')" using Suc.prems(1) c False by simp
    from Suc.IH [OF this] Suc.prems(2,3) have le: "mm_attempts s < n'" and r:
      "mqtt_steps up env (replicate (n' - mm_attempts s) (Attempt i)) ?s1 =
        Done (Some (?s1\<lparr>mm_client := c', mm_attempts := Suc n', mm_conns := (mm_conns ?s1)[i := new_conn\<lparr>cn_phase := Connected, cn_up := True\<rparr>]\<rparr>))"
      by auto
    have "replicate (Suc n' - mm_attempts s) (Attempt i) = Attempt i # replicate (n' - mm_attempts s) (Attempt i)"
      using le by (simp add: Suc_diff_le)
    with st False le r show ?thesis by simp
  qed
qed simp

section \<open>Properties\<close>

text \<open>C18: an MQTT module never has two live publishing loops, and never tries two brokers at the same time. In every state
  of a running module, whatever was lost and whoever connected, only the last call of connectAndRun has a context that is not
  cancelled; every loop before it can stop, no call but the last one tries a broker, and a loop only exists with a positive period.
  A publication only panics before the first attempt to connect, in a module without a period.\<close>

theorem mqtt_single_loop:
  assumes "mqtt_life impl env up s" "i < length (mm_conns s)"
  shows "(\<not> cn_cancelled (mm_conns s ! i) \<longleftrightarrow> i = length (mm_conns s) - 1) \<and>
    (cn_phase (mm_conns s ! i) = Looping \<longrightarrow> 0 < mq_period (mm_client s) \<and>
      (i \<noteq> length (mm_conns s) - 1 \<longrightarrow> (\<exists>s'. mqtt_step up env (LoopDone i) s = Done (Some s') \<and> cn_phase (mm_conns s' ! i) = LoopReturned))) \<and>
    (mqtt_step up env (Attempt i) s \<noteq> Done None \<longrightarrow> i = length (mm_conns s) - 1) \<and>
    (mqtt_step up env (Published k now) s = Panic \<longrightarrow> mm_attempts s = 0 \<and> mq_period (mm_client s) = 0)"
proof -
  have ok: "life_ok s" by (rule mqtt_life_ok [OF assms(1)])
  then have co: "conns_ok (mm_conns s)" by (simp add: life_ok_def)
  have live: "\<not> cn_cancelled (mm_conns s ! i) \<longleftrightarrow> i = length (mm_conns s) - 1"
    using conns_ok_last(1) [OF co assms(2)] co by (auto simp: conns_ok_def last_conv_nth)
  have "\<exists>s'. mqtt_step up env (LoopDone i) s = Done (Some s') \<and> cn_phase (mm_conns s' ! i) = LoopReturned"
    if "cn_phase (mm_conns s ! i) = Looping" "i \<noteq> length (mm_conns s) - 1"
    using that live assms(2) by (simp add: run_done_def set_conn_def)
  moreover have "cn_phase (mm_conns s ! i) = Looping \<Longrightarrow> 0 < mq_period (mm_client s)" using ok assms(2) by (auto simp: life_ok_def)
  moreover have "i = length (mm_conns s) - 1" if "mqtt_step up env (Attempt i) s \<noteq> Done None"
    using conns_ok_last(1) [OF co assms(2)] that by (auto simp: connectAndRun_attempt_def split: if_splits)
  moreover have "mm_attempts s = 0 \<and> mq_period (mm_client s) = 0" if p: "mqtt_step up env (Published k now) s = Panic"
  proof -
    have "k < length (mm_pubs s)" "publish env now (mm_pubs s ! k) (mm_client s) = Panic"
      using p by (auto simp: publish_one_def split: if_splits outcome.splits)
    then have "mq_client (mm_client s) = None" "mm_pubs s \<noteq> []" by (auto simp: publish_def Let_def split: option.splits)
    with ok show ?thesis by (auto simp: life_ok_def)
  qed
  ultimately show ?thesis using live by blast
qed

text \<open>C17: an MQTT module comes back after it lost its broker. In every state of a running module with a connection, when that is
  lost and a configured broker accepts connections, at most one round over the brokers connects it again, to a broker that
  accepted; the new loop runs if there is a period, the context of the old one is cancelled, and the publications under way are still to be made.\<close>

theorem mqtt_resumes:
  assumes "mqtt_life impl env up s" "cn_up (last (mm_conns s))" "ep \<in> set (endpoints (mm_client s))" "\<forall>n. up n ep" "0 \<le> mq_period (mm_client s)"
  defines "i \<equiv> length (mm_conns s) - 1"
  shows "\<exists>k s'. k \<le> length (endpoints (mm_client s)) \<and>
    mqtt_steps up env (ConnectionLost i # replicate k (Attempt (Suc i)) @ [GoRun (Suc i)]) s = Done (Some s') \<and>
    mm_conns s' = butlast (mm_conns s) @ [(last (mm_conns s))\<lparr>cn_up := False, cn_cancelled := True\<rparr>,
      \<lparr>cn_phase = (if mq_period (mm_client s) = 0 then LoopReturned else Looping), cn_up = True, cn_cancelled = False\<rparr>] \<and>
    (\<exists>ep' \<in> set (endpoints (mm_client s)). mq_client (mm_client s') = Some ep' \<and> up (mm_attempts s' - 1) ep') \<and>
    mm_pubs s' = mm_pubs s"
proof -
  let ?c = "mm_client s"
  have ok: "life_ok s" by (rule mqtt_life_ok [OF assms(1)])
  then have mok: "mqtt_ok ?c" by (simp add: life_ok_def)
  have ne: "mm_conns s \<noteq> []" using ok by (simp add: life_ok_def conns_ok_def)
  have last: "mm_conns s ! i = last (mm_conns s)" "i < length (mm_conns s)" "Suc i = length (mm_conns s)"
    using ne by (simp_all add: i_def last_conv_nth)
  let ?s1 = "lostConnectionHandler i s"
  have upd: "(mm_conns s)[i := x] = butlast (mm_conns s) @ [x]" for x
    by (rule nth_equalityI) (use last ne in \<open>auto simp: nth_list_update nth_append nth_butlast i_def\<close>)
  have c1: "mm_conns ?s1 = butlast (mm_conns s) @ [(last (mm_conns s))\<lparr>cn_up := False, cn_cancelled := True\<rparr>, new_conn]"
    "mm_client ?s1 = ?c" "mm_attempts ?s1 = mm_attempts s" "mm_pubs ?s1 = mm_pubs s"
    by (simp_all add: lostConnectionHandler_def set_conn_def Let_def upd last)
  have upd2: "(butlast (mm_conns s) @ [y, z])[Suc i := x] = butlast (mm_conns s) @ [y, x]" for x y z
    using list_update_length [of "butlast (mm_conns s) @ [y]" z "[]" x] last(3) ne by simp
  obtain n' c' where l: "connect_loop up (length (endpoints ?c)) (mm_attempts s) ?c = Done (n', c')" "n' < mm_attempts s + length (endpoints ?c)"
    "\<exists>ep' \<in> set (endpoints ?c). mq_client c' = Some ep' \<and> up n' ep'" "mq_period c' = mq_period ?c"
    using connect_loop_finds [of ?c ep up "mm_attempts s", OF mok assms(3,4)] by blast
  have "Suc i < length (mm_conns ?s1)" "mm_conns ?s1 ! Suc i = new_conn" using last(3) ne by (simp_all add: c1 nth_append)
  note at = attempts_are_loop [OF _ this, of up "length (endpoints ?c)" n' c' env]
  let ?s2 = "?s1\<lparr>mm_client := c', mm_attempts := Suc n', mm_conns := (mm_conns ?s1)[Suc i := new_conn\<lparr>cn_phase := Connected, cn_up := True\<rparr>]\<rparr>"
  have le: "mm_attempts s \<le> n'" and s2: "mqtt_steps up env (replicate (Suc n' - mm_attempts s) (Attempt (Suc i))) ?s1 = Done (Some ?s2)"
    using at l(1) c1 by simp_all
  let ?p = "if mq_period ?c = 0 then LoopReturned else Looping"
  let ?s3 = "set_conn (Suc i) (\<lparr>cn_phase = ?p, cn_up = True, cn_cancelled = False\<rparr>) ?s2"
  have "mqtt_step up env (GoRun (Suc i)) ?s2 = Done (Some ?s3)"
    using last(3) ne assms(5) l(4) by (simp add: c1 run_begins_def mqtt_start_run_def new_conn_def nth_append)
  then have "mqtt_steps up env (replicate (Suc n' - mm_attempts s) (Attempt (Suc i)) @ [GoRun (Suc i)]) ?s1 = Done (Some ?s3)"
    using mqtt_steps_append [OF s2, of "[GoRun (Suc i)]"] by simp
  moreover have "mqtt_step up env (ConnectionLost i) s = Done (Some ?s1)" using last assms(2) by simp
  ultimately have "mqtt_steps up env (ConnectionLost i # replicate (Suc n' - mm_attempts s) (Attempt (Suc i)) @ [GoRun (Suc i)]) s = Done (Some ?s3)"
    by simp
  moreover have "mm_conns ?s3 = butlast (mm_conns s) @ [(last (mm_conns s))\<lparr>cn_up := False, cn_cancelled := True\<rparr>, \<lparr>cn_phase = ?p, cn_up = True, cn_cancelled = False\<rparr>]"
    by (simp add: set_conn_def c1 upd2)
  moreover have "mq_client (mm_client ?s3) = mq_client c'" "mm_attempts ?s3 - 1 = n'" "mm_pubs ?s3 = mm_pubs s"
    by (simp_all add: set_conn_def c1)
  moreover have "Suc n' - mm_attempts s \<le> length (endpoints ?c)" using l(2) le by simp
  ultimately show ?thesis using l(3)
    by (intro exI [of _ "Suc n' - mm_attempts s"] exI [of _ ?s3]) simp
qed

section \<open>Instances\<close>

definition demo_broker_zmq :: zmq_api where
  "demo_broker_zmq = \<lparr>zmq_context = True, zmq_socket = True, zmq_connect = (\<lambda>_. True), zmq_linger = True, zmq_sends = (\<lambda>_. True)\<rparr>"

definition demo_life :: "unit mqtt_module" where
  "demo_life = \<lparr>mm_client = demo_mqtt\<lparr>mq_endpoint := 1, mq_client := Some (hd (endpoints demo_mqtt))\<rparr>,
     mm_conns = [\<lparr>cn_phase = LoopReturned, cn_up = True, cn_cancelled = False\<rparr>], mm_attempts = 1, mm_pubs = [], mm_sent = [], mm_done = False\<rparr>"

lemma demo_life_reached: "mqtt_life demo_impl demo_mqtt_env (\<lambda>_ _. True) demo_life"
proof -
  let ?s = "\<lparr>mm_client = demo_mqtt, mm_conns = [new_conn], mm_attempts = 0, mm_pubs = [], mm_sent = [], mm_done = False\<rparr>"
  have "mqtt_started demo_broker_zmq [] demo_mqtt = Done (Inr ?s)"
    using demo_mqtt_configured(2) by (simp add: mqtt_started_def MustNewSubscriber_def NewSubscriber_def demo_broker_zmq_def)
  from mqtt_life.started [OF demo_mqtt_configured(1) this] have l: "mqtt_life demo_impl demo_mqtt_env (\<lambda>_ _. True) ?s" .
  let ?s1 = "demo_life\<lparr>mm_conns := [\<lparr>cn_phase = Connected, cn_up = True, cn_cancelled = False\<rparr>]\<rparr>"
  have "mqtt_step (\<lambda>_ _. True) demo_mqtt_env (Attempt 0) ?s = Done (Some ?s1)" "mqtt_step (\<lambda>_ _. True) demo_mqtt_env (GoRun 0) ?s1 = Done (Some demo_life)"
    by (simp_all add: connectAndRun_attempt_def connect_def run_begins_def mqtt_start_run_def set_conn_def new_conn_def demo_life_def demo_mqtt_def NewMQTT_def)
  with l show ?thesis by (blast intro: mqtt_life.step)
qed

theorem mqtt_single_loop_witness:
  "\<not> cn_cancelled (mm_conns demo_life ! 0) \<and> mqtt_step (\<lambda>_ _. True) demo_mqtt_env (Published 0 0) demo_life \<noteq> Panic"
proof -
  have "0 < length (mm_conns demo_life)" "mm_attempts demo_life = 1" by (simp_all add: demo_life_def)
  with mqtt_single_loop [OF demo_life_reached, of 0 0 0] show ?thesis by (auto simp: demo_life_def)
qed

theorem mqtt_resumes_witness:
  "\<exists>k s'. k \<le> 1 \<and> mqtt_steps (\<lambda>_ _. True) demo_mqtt_env (ConnectionLost 0 # replicate k (Attempt 1) @ [GoRun 1]) demo_life = Done (Some s') \<and>
     cn_up (last (mm_conns s'))"
proof -
  have e: "length (endpoints (mm_client demo_life)) = 1" "length (mm_conns demo_life) = 1" "cn_up (last (mm_conns demo_life))"
    "hd (endpoints demo_mqtt) \<in> set (endpoints (mm_client demo_life))" "0 \<le> mq_period (mm_client demo_life)"
    by (simp_all add: demo_life_def demo_mqtt_def NewMQTT_def)
  from mqtt_resumes [OF demo_life_reached e(3,4) _ e(5)] e(1,2) obtain k s' where
    "k \<le> 1" "mqtt_steps (\<lambda>_ _. True) demo_mqtt_env (ConnectionLost 0 # replicate k (Attempt (Suc 0)) @ [GoRun (Suc 0)]) demo_life = Done (Some s')"
    "cn_up (last (mm_conns s'))" by auto
  then show ?thesis unfolding One_nat_def by blast
qed

end
