(* ===== verification/Programs.thy ===== *)
theory Programs
  imports CpuCorrect
begin

text \<open>
  The modules that run another program (nodered/nodered.go, tailscale/tailscale.go), and
  the main programs of all modules (cmd). Both modules keep their child process running
  in a goroutine of their own; what a main program does when it is told to stop decides
  what becomes of it.
\<close>

section \<open>Node-RED\<close>

record NodeRED =
  nr_name :: string
  nr_pubEndpoint :: string
  nr_pullEndpoint :: string
  executable :: string
  settingsPath :: string
  settings :: "string \<rightharpoonup> string"

definition NewNodeRED :: "string \<Rightarrow> NodeRED" where
  "NewNodeRED name =
     \<lparr>nr_name = name, nr_pubEndpoint = [], nr_pullEndpoint = [], executable = ''node-red'', settingsPath = ''/etc/node-red.js'',
      settings = [''theme'' \<mapsto> ''dark'', ''host'' \<mapsto> ''0.0.0.0'', ''port'' \<mapsto> ''1880'', ''user-dir'' \<mapsto> ''/root'']\<rparr>"

definition NewNodeREDModule :: "element \<Rightarrow> NodeRED result" where
  "NewNodeREDModule e = Inr (NewNodeRED (SelectAttrValue e ''name'' ''node-red''))"

definition setting :: "string \<Rightarrow> string \<Rightarrow> NodeRED \<Rightarrow> NodeRED" where
  "setting k v n = n\<lparr>settings := (settings n)(k \<mapsto> v)\<rparr>"

text \<open>Hashing a password is an argument; it may fail.\<close>

definition auth_child :: "(string \<Rightarrow> string option) \<Rightarrow> element \<Rightarrow> NodeRED \<Rightarrow> NodeRED result" where
  "auth_child hash e n =
     (if Tag e = ''editor'' then
        (case hash (SelectAttrValue e ''password'' ''admin'') of
           None \<Rightarrow> Inl ''generating hash for editor password''
         | Some h \<Rightarrow> Inr (setting ''editor-pass'' h (setting ''editor-user'' (SelectAttrValue e ''username'' ''admin'') n)))
      else if Tag e = ''ui'' then
        (case hash (SelectAttrValue e ''password'' ''admin'') of
           None \<Rightarrow> Inl ''generating hash for ui password''
         | Some h \<Rightarrow> Inr (setting ''ui-pass'' h (setting ''ui-user'' (SelectAttrValue e ''username'' ''admin'') n)))
      else Inr n)"

fun auth_children :: "(string \<Rightarrow> string option) \<Rightarrow> element list \<Rightarrow> NodeRED \<Rightarrow> NodeRED result" where
  "auth_children hash [] n = Inr n"
| "auth_children hash (e # es) n = (case auth_child hash e n of Inl err \<Rightarrow> Inl err | Inr n' \<Rightarrow> auth_children hash es n')"

definition nodered_child :: "(string \<Rightarrow> string option) \<Rightarrow> element \<Rightarrow> NodeRED \<Rightarrow> NodeRED result" where
  "nodered_child hash e n =
     (if Tag e = ''pub-endpoint'' then Inr (n\<lparr>nr_pubEndpoint := Text e\<rparr>)
      else if Tag e = ''pull-endpoint'' then Inr (n\<lparr>nr_pullEndpoint := Text e\<rparr>)
      else if Tag e = ''executable'' then Inr (n\<lparr>executable := Text e\<rparr>)
      else if Tag e = ''user-dir'' then Inr (setting ''user-dir'' (Text e) n)
      else if Tag e = ''settings-path'' then Inr (n\<lparr>settingsPath := Text e\<rparr>)
      else if Tag e = ''theme'' then Inr (setting ''theme'' (Text e) n)
      else if Tag e = ''flow-path'' then Inr (setting ''flow-path'' (Text e) n)
      else if Tag e = ''authentication'' then auth_children hash (ChildElements e) n
      else if Tag e = ''endpoint'' then
        Inr (setting ''port'' (SelectAttrValue e ''port'' ''1880'') (setting ''host'' (SelectAttrValue e ''host'' ''0.0.0.0'') n))
      else Inr n)"

fun nodered_children :: "(string \<Rightarrow> string option) \<Rightarrow> element list \<Rightarrow> NodeRED \<Rightarrow> NodeRED result" where
  "nodered_children hash [] n = Inr n"
| "nodered_children hash (e # es) n =
     (case nodered_child hash e n of Inl err \<Rightarrow> Inl err | Inr n' \<Rightarrow> nodered_children hash es n')"

definition NodeRED_Configure :: "(string \<Rightarrow> string option) \<Rightarrow> element \<Rightarrow> NodeRED \<Rightarrow> NodeRED result" where
  "NodeRED_Configure hash e n = nodered_children hash (ChildElements e) n"

section \<open>A program that keeps a child process running\<close>

text \<open>The goroutine that starts the child and starts it again when it dies; there is no request to disable it, and no exit
  code that ends it. The program itself: the wait group, whether its context is done, and the exit code once
  the main function has ended, with which every goroutine ends.\<close>

datatype keep_phase = KLaunch | KWaiting nat | KDraining nat | KReturned

record keeper =
  keep_exe :: string
  keep_args :: "string list"
  keep_phase :: keep_phase
  keep_procs :: "process list"
  keep_waiter :: int
  keep_done :: bool
  keep_exit :: "int option"

definition new_keeper :: "string \<Rightarrow> string list \<Rightarrow> keeper" where
  "new_keeper exe args = \<lparr>keep_exe = exe, keep_args = args, keep_phase = KLaunch, keep_procs = [], keep_waiter = 1, keep_done = False, keep_exit = None\<rparr>"

definition keep_command :: "os_api \<Rightarrow> keeper \<Rightarrow> process" where
  "keep_command os k =
     \<lparr>proc_exe = keep_exe k, proc_args = keep_args k, proc_env = os_environ os, proc_dir = [], proc_status = Running, sigterm_sent = False\<rparr>"

definition keep_returns :: "keeper \<Rightarrow> keeper" where
  "keep_returns k = k\<lparr>keep_phase := KReturned, keep_waiter := keep_waiter k - 1\<rparr>"

definition keep_kill :: "nat \<Rightarrow> keeper \<Rightarrow> keeper" where
  "keep_kill p k =
     (if proc_status (keep_procs k ! p) = Running
      then k\<lparr>keep_procs := (keep_procs k)[p := (keep_procs k ! p)\<lparr>proc_status := Killed\<rparr>]\<rparr> else k)"

fun keep_branch :: "os_api \<Rightarrow> branch \<Rightarrow> keeper \<Rightarrow> keeper option" where
  "keep_branch os StartOk k =
     (if keep_phase k = KLaunch
      then Some (k\<lparr>keep_phase := KWaiting (length (keep_procs k)), keep_procs := keep_procs k @ [keep_command os k]\<rparr>) else None)"
| "keep_branch os StartFailed k = (if keep_phase k = KLaunch then Some (keep_returns k) else None)"
| "keep_branch os OnWait k =
     (case keep_phase k of
        KWaiting p \<Rightarrow> if ended (proc_status (keep_procs k ! p)) then Some (k\<lparr>keep_phase := KLaunch\<rparr>) else None
      | _ \<Rightarrow> None)"
| "keep_branch os OnDone k =
     (case keep_phase k of
        KWaiting p \<Rightarrow>
          if keep_done k
          then Some (k\<lparr>keep_phase := KDraining p, keep_procs := (keep_procs k)[p := (keep_procs k ! p)\<lparr>sigterm_sent := True\<rparr>]\<rparr>)
          else None
      | _ \<Rightarrow> None)"
| "keep_branch os OnExit k =
     (case keep_phase k of
        KDraining p \<Rightarrow> if ended (proc_status (keep_procs k ! p)) then Some (keep_returns k) else None
      | _ \<Rightarrow> None)"
| "keep_branch os OnTimeout k =
     (case keep_phase k of
        KDraining p \<Rightarrow> Some (keep_returns (keep_kill p k))
      | _ \<Rightarrow> None)"
| "keep_branch os _ k = None"

definition keep_step :: "os_api \<Rightarrow> branch \<Rightarrow> keeper \<Rightarrow> keeper option" where
  "keep_step os b k = (if keep_exit k = None then keep_branch os b k else None)"

text \<open>Writing the settings file: parsing and executing the template and creating the file are arguments.\<close>

record nodered_env =
  settings_parse :: bool
  settings_create :: "string \<Rightarrow> bool"
  settings_execute :: "(string \<rightharpoonup> string) \<Rightarrow> string option"

definition nodered_start :: "os_api \<Rightarrow> NodeRED \<Rightarrow> run_error + keeper" where
  "nodered_start os n =
     (case LookPath os (executable n) of
        None \<Rightarrow> Inl (Exit_Error (NewExitError ExitNoRestart ''module executable does not exist''))
      | Some exe \<Rightarrow> Inr (new_keeper exe [''--settings'', settingsPath n]))"

definition nodered_settings :: "NodeRED \<Rightarrow> string \<Rightarrow> string \<Rightarrow> NodeRED" where
  "nodered_settings n pub pull =
     setting ''pull-endpoint'' (if nr_pullEndpoint n \<noteq> [] then nr_pullEndpoint n else pull)
       (setting ''pub-endpoint'' (if nr_pubEndpoint n \<noteq> [] then nr_pubEndpoint n else pub) n)"

text \<open>The settings file that was written, and the child process. The error of the start is wrapped and keeps its code.\<close>

definition NodeRED_Run :: "os_api \<Rightarrow> nodered_env \<Rightarrow> string \<Rightarrow> string \<Rightarrow> NodeRED \<Rightarrow> run_error + (string \<times> keeper)" where
  "NodeRED_Run os env pub pull n =
     (let n1 = nodered_settings n pub pull
      in if \<not> settings_parse env then Inl (Plain_Error ''parsing Node-RED settings template'')
         else if \<not> settings_create env (settingsPath n1) then Inl (Plain_Error ''opening Node-RED settings file for writing'')
         else case settings_execute env (settings n1) of
                None \<Rightarrow> Inl (Plain_Error ''writing Node-RED settings file'')
              | Some text \<Rightarrow> (case nodered_start os n1 of Inl err \<Rightarrow> Inl err | Inr k \<Rightarrow> Inr (text, k)))"

section \<open>Tailscale\<close>

record Tailscale =
  ts_name :: string
  authKey :: string
  ts_hostname :: string
  ts_dns :: bool
  ts_routes :: bool
  ts_pullEndpoint :: string
  ts_pusher :: Pusher

definition NewTailscale :: "string \<Rightarrow> Pusher \<Rightarrow> Tailscale" where
  "NewTailscale name p = \<lparr>ts_name = name, authKey = [], ts_hostname = [], ts_dns = False, ts_routes = False, ts_pullEndpoint = [], ts_pusher = p\<rparr>"

definition NewTailscaleModule :: "Pusher \<Rightarrow> element \<Rightarrow> Tailscale result" where
  "NewTailscaleModule p e = Inr (NewTailscale (SelectAttrValue e ''name'' ''tailscale'') p)"

definition bool_or_false :: "string \<Rightarrow> bool" where
  "bool_or_false s = (case ParseBool s of Some b \<Rightarrow> b | None \<Rightarrow> False)"

definition tailscale_child :: "element \<Rightarrow> Tailscale \<Rightarrow> Tailscale" where
  "tailscale_child e t =
     (if Tag e = ''pull-endpoint'' then t\<lparr>ts_pullEndpoint := Text e\<rparr>
      else if Tag e = ''auth-key'' then t\<lparr>authKey := Text e\<rparr>
      else if Tag e = ''hostname'' then t\<lparr>ts_hostname := Text e\<rparr>
      else if Tag e = ''accept-dns'' then t\<lparr>ts_dns := bool_or_false (Text e)\<rparr>
      else if Tag e = ''accept-routes'' then t\<lparr>ts_routes := bool_or_false (Text e)\<rparr>
      else t)"

text \<open>The environment variable with the key, and the name of the host, if the system gives it.\<close>

definition Tailscale_Configure :: "string \<Rightarrow> string option \<Rightarrow> element \<Rightarrow> Tailscale \<Rightarrow> Tailscale result" where
  "Tailscale_Configure env_key hostname e t =
     (let t1 = fold tailscale_child (ChildElements e) t;
          t2 = (if authKey t1 = [] then t1\<lparr>authKey := env_key\<rparr> else t1)
      in if authKey t2 = [] then Inl ''no Tailscale auth key provided''
         else if ts_hostname t2 = [] then
           (case hostname of None \<Rightarrow> Inl ''unable to set hostname'' | Some h \<Rightarrow> Inr (t2\<lparr>ts_hostname := h\<rparr>))
         else Inr t2)"

text \<open>What each look at the socket file finds, after the context was checked.\<close>

datatype socket_stat = Ctx_Ended | Not_There | Stat_Error | There

fun wait_socket :: "socket_stat list \<Rightarrow> run_error option outcome" where
  "wait_socket [] = Diverge"
| "wait_socket (Ctx_Ended # xs) = Done (Some (Exit_Error (NewExitError ExitNoRestart ''timed out waiting for Tailscale socket'')))"
| "wait_socket (Not_There # xs) = wait_socket xs"
| "wait_socket (Stat_Error # xs) = Done (Some (Exit_Error (NewExitError ExitNoRestart ''waiting for Tailscale socket'')))"
| "wait_socket (There # xs) = Done None"

definition tailscale_start :: "os_api \<Rightarrow> socket_stat list \<Rightarrow> (run_error option \<times> keeper option) outcome" where
  "tailscale_start os stats =
     (case LookPath os ''tailscaled'' of
        None \<Rightarrow> Done (Some (Exit_Error (NewExitError ExitNoRestart ''module executable does not exist at tailscaled'')), None)
      | Some exe \<Rightarrow>
          (case wait_socket stats of
             Done err \<Rightarrow> Done (err, Some (new_keeper exe [''--socket=/tmp/tailscaled.sock'', ''--state=mem:'', ''--statedir=/tmp'']))
           | Panic \<Rightarrow> Panic
           | Diverge \<Rightarrow> Diverge))"

definition FormatBool :: "bool \<Rightarrow> string" where "FormatBool b = (if b then ''true'' else ''false'')"

definition tailscale_up_args :: "Tailscale \<Rightarrow> string list" where
  "tailscale_up_args t =
     [''--socket=/tmp/tailscaled.sock'', ''up'', ''--authkey='' @ authKey t, ''--hostname='' @ ts_hostname t,
      ''--accept-dns='' @ FormatBool (ts_dns t), ''--accept-routes='' @ FormatBool (ts_routes t)]"

text \<open>Running a command to its end succeeds or not.\<close>

definition tailscale_up :: "os_api \<Rightarrow> (string \<Rightarrow> string list \<Rightarrow> bool) \<Rightarrow> Tailscale \<Rightarrow> run_error option" where
  "tailscale_up os run t =
     (case LookPath os ''tailscale'' of
        None \<Rightarrow> Some (Exit_Error (NewExitError ExitNoRestart ''module executable does not exist at tailscale''))
      | Some exe \<Rightarrow> if run exe (tailscale_up_args t) then None else Some (Plain_Error ''tailscale up failed''))"

definition Tailscale_Run ::
  "os_api \<Rightarrow> zmq_api \<Rightarrow> (string \<Rightarrow> string list \<Rightarrow> bool) \<Rightarrow> socket_stat list \<Rightarrow> string \<Rightarrow> Tailscale \<Rightarrow> (run_error option \<times> keeper option \<times> Tailscale) outcome" where
  "Tailscale_Run os zmq run stats pull t =
     (case MustNewPusher zmq (if ts_pullEndpoint t \<noteq> [] then ts_pullEndpoint t else pull) of
        Done p \<Rightarrow>
          (let t1 = t\<lparr>ts_pusher := p\<rparr>
           in case tailscale_start os stats of
                Done (Some err, k) \<Rightarrow> Done (Some err, k, t1)
              | Done (None, k) \<Rightarrow> Done (tailscale_up os run t1, k, t1)
              | Panic \<Rightarrow> Panic
              | Diverge \<Rightarrow> Diverge)
      | Panic \<Rightarrow> Panic
      | Diverge \<Rightarrow> Diverge)"

text \<open>One round of the status loop, at a time: the measurement says whether the status command succeeded.\<close>

definition tailscale_status :: "(string \<Rightarrow> string list \<Rightarrow> bool) \<Rightarrow> string \<Rightarrow> uint64 \<Rightarrow> Tailscale \<Rightarrow> Tailscale" where
  "tailscale_status run exe now t =
     (let p = \<lparr>pt_tag = ts_name t @ ''.connected'',
               pt_value = (if run exe [''--socket=/tmp/tailscaled.sock'', ''status''] then f64_one else f64_zero), pt_ts = now\<rparr>
      in case NewEnvelope (ts_name t) (C_Status \<lparr>Measurements = [p]\<rparr>) of
           Inl err \<Rightarrow> t
         | Inr env \<Rightarrow> t\<lparr>ts_pusher := snd (Push ''RUNTIME'' env (ts_pusher t))\<rparr>)"

text \<open>The goroutine with the loop: it ends at once without the executable, and otherwise waits for the context or for the next round, at a time.\<close>

datatype status_event = Status_Ctx_Done | Status_Due uint64

fun status_rounds :: "(string \<Rightarrow> string list \<Rightarrow> bool) \<Rightarrow> string \<Rightarrow> status_event list \<Rightarrow> Tailscale \<Rightarrow> Tailscale" where
  "status_rounds run exe [] t = t"
| "status_rounds run exe (Status_Ctx_Done # evs) t = t"
| "status_rounds run exe (Status_Due now # evs) t = status_rounds run exe evs (tailscale_status run exe now t)"

definition tailscale_status_loop :: "os_api \<Rightarrow> (string \<Rightarrow> string list \<Rightarrow> bool) \<Rightarrow> status_event list \<Rightarrow> Tailscale \<Rightarrow> Tailscale" where
  "tailscale_status_loop os run evs t =
     (case LookPath os ''tailscale'' of None \<Rightarrow> t | Some exe \<Rightarrow> status_rounds run exe evs t)"

section \<open>Main programs\<close>

text \<open>The part of a main function up to the wait: the number of arguments, the error of the configuration file, and the
  error of starting the modules. The exit code, or None when it goes on.\<close>

definition main_start :: "nat \<Rightarrow> string option \<Rightarrow> run_error option \<Rightarrow> int option outcome" where
  "main_start argc parse_err start_err =
     (if argc \<noteq> 2 then Panic
      else case parse_err of
             Some err \<Rightarrow> Done (Some ExitNoRestart)
           | None \<Rightarrow>
               (case start_err of
                  None \<Rightarrow> Done None
                | Some (Exit_Error e) \<Rightarrow> Done (Some (ExitCode e))
                | Some (Plain_Error err) \<Rightarrow> Done (Some 1)))"

text \<open>The rest: the context ends because it was cancelled, which is no error. The main program of the CPU module first waits
  for the wait group, those of the other modules do not.\<close>

definition main_returns :: "bool \<Rightarrow> keeper \<Rightarrow> keeper option" where
  "main_returns waits k =
     (if keep_done k \<and> keep_exit k = None \<and> (waits \<longrightarrow> keep_waiter k = 0) then Some (k\<lparr>keep_exit := Some 0\<rparr>) else None)"

definition cpu_main_returns :: "keeper \<Rightarrow> keeper option" where "cpu_main_returns = main_returns True"
definition nodered_main_returns :: "keeper \<Rightarrow> keeper option" where "nodered_main_returns = main_returns False"
definition tailscale_main_returns :: "keeper \<Rightarrow> keeper option" where "tailscale_main_returns = main_returns False"

section \<open>What becomes of the child\<close>

inductive keep_run :: "os_api \<Rightarrow> bool \<Rightarrow> keeper \<Rightarrow> keeper \<Rightarrow> bool" for os waits k0 where
  started: "keep_run os waits k0 k0"
| step: "keep_run os waits k0 k \<Longrightarrow> keep_step os b k = Some k' \<Longrightarrow> keep_run os waits k0 k'"
| exits: "keep_run os waits k0 k \<Longrightarrow> p < length (keep_procs k) \<Longrightarrow> may_exit (proc_status (keep_procs k ! p)) code \<Longrightarrow>
    keep_run os waits k0 (k\<lparr>keep_procs := (keep_procs k)[p := (keep_procs k ! p)\<lparr>proc_status := Exited code\<rparr>]\<rparr>)"
| told_to_stop: "keep_run os waits k0 k \<Longrightarrow> keep_run os waits k0 (k\<lparr>keep_done := True\<rparr>)"
| main: "keep_run os waits k0 k \<Longrightarrow> main_returns waits k = Some k' \<Longrightarrow> keep_run os waits k0 k'"

fun keep_held :: "keep_phase \<Rightarrow> nat option" where
  "keep_held (KWaiting p) = Some p"
| "keep_held (KDraining p) = Some p"
| "keep_held _ = None"

definition held_ok :: "nat option \<Rightarrow> process list \<Rightarrow> bool" where
  "held_ok h ps \<longleftrightarrow> (\<forall>p < length ps. proc_status (ps ! p) = Running \<longrightarrow> h = Some p) \<and> (\<forall>p. h = Some p \<longrightarrow> p < length ps)"

definition keep_ok :: "bool \<Rightarrow> keeper \<Rightarrow> bool" where
  "keep_ok waits k \<longleftrightarrow> held_ok (keep_held (keep_phase k)) (keep_procs k) \<and>
     keep_waiter k = (if keep_phase k = KReturned then 0 else 1) \<and> (waits \<longrightarrow> keep_exit k \<noteq> None \<longrightarrow> keep_waiter k = 0)"

lemma held_new: "held_ok None ps \<Longrightarrow> held_ok (Some (length ps)) (ps @ [pr])"
  by (auto simp: held_ok_def nth_append split: if_splits)

lemma held_released: "held_ok (Some p) ps \<Longrightarrow> proc_status (ps ! p) \<noteq> Running \<Longrightarrow> held_ok None ps"
  by (auto simp: held_ok_def)

lemma held_update:
  assumes "held_ok h ps" "proc_status pr = Running \<Longrightarrow> proc_status (ps ! q) = Running"
  shows "held_ok h (ps[q := pr])"
  unfolding held_ok_def
proof (intro conjI allI impI)
  fix p assume p: "p < length (ps[q := pr])" and r: "proc_status (ps[q := pr] ! p) = Running"
  have "proc_status (ps ! p) = Running" using p r assms(2) by (cases "p = q") simp_all
  moreover have "p < length ps" using p by simp
  ultimately show "h = Some p" using assms(1) unfolding held_ok_def by blast
next
  fix p assume "h = Some p"
  with assms(1) have "p < length ps" unfolding held_ok_def by blast
  then show "p < length (ps[q := pr])" by simp
qed

lemma held_killed:
  assumes "held_ok (Some p) ps" "proc_status pr \<noteq> Running"
  shows "held_ok None (ps[p := pr])"
proof -
  have "p < length ps" using assms(1) unfolding held_ok_def by blast
  with assms(2) have "proc_status (ps[p := pr] ! p) \<noteq> Running" by simp
  with held_update [OF assms(1), of pr p] assms(2) show ?thesis by (blast intro: held_released)
qed

lemma keep_step_ok:
  assumes ok: "keep_ok waits k" and st: "keep_step os b k = Some k'"
  shows "keep_ok waits k'"
proof -
  have e: "keep_exit k = None" and kb: "keep_branch os b k = Some k'" using st by (auto simp: keep_step_def split: if_splits)
  have held: "held_ok (keep_held (keep_phase k)) (keep_procs k)" and w: "keep_waiter k = (if keep_phase k = KReturned then 0 else 1)"
    using ok by (simp_all add: keep_ok_def)
  show ?thesis
  proof (cases b)
    case StartOk
    with kb e w held held_new [of "keep_procs k"] show ?thesis by (auto simp: keep_ok_def split: if_splits)
  next
    case StartFailed
    with kb e w held show ?thesis by (auto simp: keep_ok_def keep_returns_def split: if_splits)
  next
    case OnWait
    with kb e w held held_released [of _ "keep_procs k"] show ?thesis by (auto simp: keep_ok_def dest: ended_not_running split: if_splits keep_phase.splits)
  next
    case OnDone
    with kb e w held show ?thesis by (auto simp: keep_ok_def intro!: held_update split: if_splits keep_phase.splits)
  next
    case OnExit
    with kb e w held held_released [of _ "keep_procs k"] show ?thesis by (auto simp: keep_ok_def keep_returns_def dest: ended_not_running split: if_splits keep_phase.splits)
  next
    case OnTimeout
    with kb e w held held_killed [of _ "keep_procs k"] held_released [of _ "keep_procs k"] show ?thesis
      by (auto simp: keep_ok_def keep_returns_def keep_kill_def split: keep_phase.splits if_splits)
  qed (use kb in simp_all)
qed

lemma keep_run_ok: "keep_run os waits k0 k \<Longrightarrow> keep_ok waits k0 \<Longrightarrow> keep_ok waits k"
proof (induction rule: keep_run.induct)
  case (step k b k')
  then show ?case by (blast intro: keep_step_ok)
next
  case (exits k p code)
  then show ?case by (auto simp: keep_ok_def intro!: held_update)
qed (auto simp: keep_ok_def main_returns_def split: if_splits)

lemma new_keeper_ok: "keep_ok waits (new_keeper exe args)"
  by (simp add: keep_ok_def held_ok_def new_keeper_def)

text \<open>C33: Node-RED can outlive its module. A main program that waits for the wait group, as that of the CPU module does, never
  ends before its child process has ended or was killed. The main programs of the Node-RED and Tailscale modules do not wait: told to stop,
  they may end at once, and then the child process is running, was not asked to stop, and no goroutine is left
  to do so.\<close>

theorem child_outlives_program:
  assumes "nodered_start os n = Inr k"
  shows "(\<forall>k'. keep_run os True k k' \<longrightarrow> keep_exit k' \<noteq> None \<longrightarrow> (\<forall>p < length (keep_procs k'). proc_status (keep_procs k' ! p) \<noteq> Running)) \<and>
    (\<exists>k1 k2 k3. keep_step os StartOk k = Some k1 \<and> k2 = k1\<lparr>keep_done := True\<rparr> \<and> nodered_main_returns k2 = Some k3 \<and>
      keep_run os False k k3 \<and> keep_exit k3 = Some 0 \<and> (\<forall>b. keep_step os b k3 = None) \<and>
      (\<exists>p < length (keep_procs k3). proc_status (keep_procs k3 ! p) = Running \<and> \<not> sigterm_sent (keep_procs k3 ! p)))"
proof -
  obtain exe args where k: "k = new_keeper exe args" using assms by (auto simp: nodered_start_def split: option.splits)
  have safe: "proc_status (keep_procs k' ! p) \<noteq> Running"
    if "keep_run os True k k'" "keep_exit k' \<noteq> None" "p < length (keep_procs k')" for k' p
  proof
    assume r: "proc_status (keep_procs k' ! p) = Running"
    have "keep_ok True k'" by (rule keep_run_ok [OF that(1)]) (simp add: k new_keeper_ok)
    then have ok: "held_ok (keep_held (keep_phase k')) (keep_procs k')" and "keep_phase k' = KReturned"
      using that(2) by (auto simp: keep_ok_def split: if_splits)
    then have "held_ok None (keep_procs k')" by simp
    with r that(3) show False unfolding held_ok_def by blast
  qed
  let ?k1 = "k\<lparr>keep_phase := KWaiting 0, keep_procs := [keep_command os k]\<rparr>"
  let ?k3 = "?k1\<lparr>keep_done := True, keep_exit := Some 0\<rparr>"
  have s: "keep_step os StartOk k = Some ?k1" by (simp add: k new_keeper_def keep_step_def)
  have m: "main_returns False (?k1\<lparr>keep_done := True\<rparr>) = Some ?k3" by (simp add: main_returns_def k new_keeper_def)
  have "keep_run os False k ?k3"
    by (rule keep_run.main [OF keep_run.told_to_stop [OF keep_run.step [OF keep_run.started s]] m])
  moreover have "\<forall>b. keep_step os b ?k3 = None" by (simp add: keep_step_def)
  moreover have "nodered_main_returns (?k1\<lparr>keep_done := True\<rparr>) = Some ?k3" using m by (simp only: nodered_main_returns_def)
  moreover have "\<exists>p < length (keep_procs ?k3). proc_status (keep_procs ?k3 ! p) = Running \<and> \<not> sigterm_sent (keep_procs ?k3 ! p)"
    by (rule exI [of _ 0]) (simp add: keep_command_def)
  moreover have "keep_exit ?k3 = Some 0" by simp
  ultimately have "\<exists>k1 k2 k3. keep_step os StartOk k = Some k1 \<and> k2 = k1\<lparr>keep_done := True\<rparr> \<and> nodered_main_returns k2 = Some k3 \<and>
      keep_run os False k k3 \<and> keep_exit k3 = Some 0 \<and> (\<forall>b. keep_step os b k3 = None) \<and>
      (\<exists>p < length (keep_procs k3). proc_status (keep_procs k3 ! p) = Running \<and> \<not> sigterm_sent (keep_procs k3 ! p))"
    using s by (intro exI [of _ ?k1] exI [of _ "?k1\<lparr>keep_done := True\<rparr>"] exI [of _ ?k3] conjI) (assumption | rule refl)+
  then show ?thesis using safe by (intro conjI allI impI) assumption+
qed

text \<open>A module without its program is given up. When the executable of Node-RED is not found, the main program of the module
  exits with the code that asks not to be restarted, and the goroutine of the CPU module that watches it returns.\<close>

lemma missing_program_given_up:
  assumes "LookPath os (executable n) = None" "settings_parse env" "settings_create env (settingsPath n)"
    "settings_execute env (settings (nodered_settings n pub pull)) \<noteq> None"
    and "i < length (goroutines w)" "modules w (go_mod (goroutines w ! i)) \<noteq> None" "go_phase (goroutines w ! i) = Waiting p ch" "p < length (processes w)"
  shows "\<exists>err code. NodeRED_Run os env pub pull n = Inl err \<and> main_start 2 None (Some err) = Done (Some code) \<and>
    goroutine_step os' OnWait i (set_status p (Exited code) w) = Some (go_return i (set_status p (Exited code) w))"
proof -
  have "nodered_start os (nodered_settings n pub pull) = Inl (Exit_Error (NewExitError ExitNoRestart ''module executable does not exist''))"
    using assms(1) by (simp add: nodered_start_def nodered_settings_def setting_def)
  then have "NodeRED_Run os env pub pull n = Inl (Exit_Error (NewExitError ExitNoRestart ''module executable does not exist''))"
    using assms(2-4) by (auto simp: NodeRED_Run_def Let_def) (auto simp: nodered_settings_def setting_def)
  moreover have "goroutine_step os' OnWait i (set_status p (Exited ExitNoRestart) w) = Some (go_return i (set_status p (Exited ExitNoRestart) w))"
    using assms(5-8) by (auto simp: goroutine_step_def)
  ultimately show ?thesis by (auto simp: main_start_def NewExitError_def)
qed

text \<open>Every round of the status loop before the context ends pushes one status, on a bus that accepts it.\<close>

lemma status_rounds_push:
  assumes "\<forall>n. sock (ts_pusher t) n"
  shows "length (sent (ts_pusher (status_rounds run exe evs t))) =
    length (sent (ts_pusher t)) + length (takeWhile (\<lambda>e. e \<noteq> Status_Ctx_Done) evs)"
  using assms
proof (induction run exe evs t rule: status_rounds.induct)
  case (3 run exe now evs t)
  let ?p = "\<lparr>pt_tag = ts_name t @ ''.connected'', pt_value = (if run exe [''--socket=/tmp/tailscaled.sock'', ''status''] then f64_one else f64_zero), pt_ts = now\<rparr>"
  have "f64_finite f64_one" "f64_finite f64_zero" by (simp_all add: fp_eval cong: let_weak_cong)
  then have "f64_finite (pt_value ?p)" by simp
  then obtain env where env: "NewEnvelope (ts_name t) (C_Status \<lparr>Measurements = [?p]\<rparr>) = Inr env"
    using NewEnvelope_fails_iff(1) [of "ts_name t" "\<lparr>Measurements = [?p]\<rparr>"] by (auto simp: points_finite_def)
  have t: "tailscale_status run exe now t = t\<lparr>ts_pusher := snd (Push ''RUNTIME'' env (ts_pusher t))\<rparr>"
    unfolding tailscale_status_def Let_def env by simp
  have p: "sock (snd (Push ''RUNTIME'' env (ts_pusher t))) = sock (ts_pusher t)"
    "length (sent (snd (Push ''RUNTIME'' env (ts_pusher t)))) = Suc (length (sent (ts_pusher t)))"
    using 3(2) by (simp_all add: Push_def SendMessage_def)
  show ?case using 3 by (simp add: t p)
qed simp_all

section \<open>Settings and configuration\<close>

text \<open>A configured Tailscale module has a key and a name for the host.\<close>

lemma tailscale_configured:
  assumes "Tailscale_Configure env_key hostname e t = Inr t'" "hostname \<noteq> Some []"
  shows "authKey t' \<noteq> []" "ts_hostname t' \<noteq> []"
  using assms by (auto simp: Tailscale_Configure_def Let_def split: if_splits option.splits)

lemma setting_lookup: "settings (setting k v n) k' = (if k' = k then Some v else settings n k')"
  by (simp add: setting_def)

text \<open>The settings that the template gets: the defaults are there whatever the configuration says, a user never comes
  without a password hash, and the endpoints are those of the configuration or of the bus.\<close>

definition settings_ok :: "(string \<rightharpoonup> string) \<Rightarrow> bool" where
  "settings_ok s \<longleftrightarrow> {''theme'', ''host'', ''port'', ''user-dir''} \<subseteq> dom s \<and>
     (s ''editor-user'' = None \<longleftrightarrow> s ''editor-pass'' = None) \<and> (s ''ui-user'' = None \<longleftrightarrow> s ''ui-pass'' = None)"

lemma settings_ok_setting:
  assumes "settings_ok (settings n)" "k \<notin> {''editor-user'', ''editor-pass'', ''ui-user'', ''ui-pass''}"
  shows "settings_ok (settings (setting k v n))"
  using assms by (auto simp: settings_ok_def setting_def)

lemma settings_ok_user:
  assumes "settings_ok (settings n)"
  shows "settings_ok (settings (setting ''editor-pass'' h (setting ''editor-user'' u n)))"
    "settings_ok (settings (setting ''ui-pass'' h (setting ''ui-user'' u n)))"
  using assms by (simp_all add: settings_ok_def setting_def)

lemma auth_children_ok:
  "settings_ok (settings n) \<Longrightarrow> auth_children hash es n = Inr n' \<Longrightarrow> settings_ok (settings n')"
proof (induction es arbitrary: n)
  case (Cons e es)
  then obtain n1 where n1: "auth_child hash e n = Inr n1" "auth_children hash es n1 = Inr n'" by (auto split: sum.splits)
  have "settings_ok (settings n1)"
    using n1(1) settings_ok_user [OF Cons.prems(1)] Cons.prems(1) by (auto simp: auth_child_def split: if_splits option.splits)
  with Cons.IH n1(2) show ?case by blast
qed simp

lemma nodered_configured:
  assumes "NodeRED_Configure hash e (NewNodeRED name) = Inr n"
  shows "settings_ok (settings (nodered_settings n pub pull))"
    "settings (nodered_settings n pub pull) ''pub-endpoint'' = Some (if nr_pubEndpoint n \<noteq> [] then nr_pubEndpoint n else pub)"
proof -
  have "settings_ok (settings n0) \<Longrightarrow> nodered_children hash es n0 = Inr n \<Longrightarrow> settings_ok (settings n)" for es n0
  proof (induction es arbitrary: n0)
    case (Cons e es)
    then obtain n1 where n1: "nodered_child hash e n0 = Inr n1" "nodered_children hash es n1 = Inr n" by (auto split: sum.splits)
    have "settings_ok (settings n1)"
      using n1(1) Cons.prems(1) auth_children_ok [OF Cons.prems(1), of hash "ChildElements e" n1]
      by (auto simp: nodered_child_def settings_ok_setting split: if_splits)
    with Cons.IH n1(2) show ?case by blast
  qed simp
  moreover have "settings_ok (settings (NewNodeRED name))" by (simp add: settings_ok_def NewNodeRED_def)
  ultimately have "settings_ok (settings n)" using assms by (simp add: NodeRED_Configure_def)
  then show "settings_ok (settings (nodered_settings n pub pull))" by (simp add: nodered_settings_def settings_ok_setting)
  show "settings (nodered_settings n pub pull) ''pub-endpoint'' = Some (if nr_pubEndpoint n \<noteq> [] then nr_pubEndpoint n else pub)"
    by (simp add: nodered_settings_def setting_lookup)
qed

section \<open>Instances\<close>

theorem child_outlives_program_witness:
  "\<exists>k k3. nodered_start demo_os (NewNodeRED ''node-red'') = Inr k \<and> keep_run demo_os False k k3 \<and> keep_exit k3 = Some 0 \<and>
     (\<exists>p < length (keep_procs k3). proc_status (keep_procs k3 ! p) = Running)"
proof -
  obtain k where k: "nodered_start demo_os (NewNodeRED ''node-red'') = Inr k" by (simp add: nodered_start_def demo_os_def)
  from child_outlives_program [OF k] k show ?thesis by blast
qed

lemma missing_program_given_up_witness:
  "\<exists>err. NodeRED_Run (demo_os\<lparr>LookPath := \<lambda>_. None\<rparr>) \<lparr>settings_parse = True, settings_create = (\<lambda>_. True), settings_execute = (\<lambda>_. Some [])\<rparr>
       [] [] (NewNodeRED ''node-red'') = Inl err \<and> main_start 2 None (Some err) = Done (Some ExitNoRestart)"
proof -
  let ?w = "demo_cpu (Some 0) 1 (Waiting 0 (Some 0)) [demo_process Running] False"
  let ?os = "demo_os\<lparr>LookPath := \<lambda>_. None\<rparr>"
  let ?env = "\<lparr>settings_parse = True, settings_create = (\<lambda>_. True), settings_execute = (\<lambda>_. Some [])\<rparr>"
  have pre: "LookPath ?os (executable (NewNodeRED ''node-red'')) = None" "settings_parse ?env" "settings_create ?env (settingsPath (NewNodeRED ''node-red''))"
    "settings_execute ?env (settings (nodered_settings (NewNodeRED ''node-red'') [] [])) \<noteq> None" by simp_all
  have w: "0 < length (goroutines ?w)" "modules ?w (go_mod (goroutines ?w ! 0)) \<noteq> None" "go_phase (goroutines ?w ! 0) = Waiting 0 (Some 0)"
    "0 < length (processes ?w)" by (simp_all add: demo_cpu_def)
  from missing_program_given_up [OF pre w, of demo_os] obtain err code where
    e: "NodeRED_Run ?os ?env [] [] (NewNodeRED ''node-red'') = Inl err" "main_start 2 None (Some err) = Done (Some code)"
      "goroutine_step demo_os OnWait 0 (set_status 0 (Exited code) ?w) = Some (go_return 0 (set_status 0 (Exited code) ?w))" by blast
  have "code = ExitNoRestart"
  proof (rule ccontr)
    assume "code \<noteq> ExitNoRestart"
    with e(3) have "goto 0 Launch (set_status 0 (Exited code) ?w) = go_return 0 (set_status 0 (Exited code) ?w)"
      by (simp add: goroutine_step_def demo_cpu_defs)
    from arg_cong [OF this, of waiter] show False by simp
  qed
  with e show ?thesis by blast
qed

end
