(* ===== verification/Runs.thy ===== *)
theory Runs
  imports Subscriber ModbusServerCorrect ModbusClient LogicCorrect SunSpecServerCorrect SunSpecClient
begin

text \<open>
  The Run methods of the modules that live on the bus, from the endpoints to the listeners:
  modbus/server/server.go, modbus/client/client.go, sunspec/server/server.go, sunspec/client/client.go and
  logic/logic.go. Each opens its sockets, registers handlers with a subscriber and starts its loop. A message
  that arrives while Run goes on is handled after it, except where the text says otherwise.
\<close>

section \<open>What a module hears\<close>

fun and_then :: "'a outcome \<Rightarrow> ('a \<Rightarrow> 'b outcome) \<Rightarrow> 'b outcome" where
  "and_then (Done x) f = f x"
| "and_then Panic f = Panic"
| "and_then Diverge f = Diverge"

lemma and_then_Done: "and_then x f = Done y \<longleftrightarrow> (\<exists>z. x = Done z \<and> f z = Done y)"
  by (cases x) auto

text \<open>The loop of a subscriber runs on the topic of measurements with these handlers of statuses and updates.\<close>

definition hears :: "'s handler list \<Rightarrow> 's handler list \<Rightarrow> 's bus \<Rightarrow> bool" where
  "hears hs hu b \<longleftrightarrow> (\<exists>copy. sub_loop b = Some (''RUNTIME'', copy) \<and> sub_running copy \<and> statusHandlers copy = hs \<and> updateHandlers copy = hu \<and>
     healthCheckHandlers copy = [])"

lemma hears_Start:
  assumes "statusHandlers (sub_object b) = hs" "updateHandlers (sub_object b) = hu" "healthCheckHandlers (sub_object b) = []"
  shows "hears hs hu (Subscriber_Start ''RUNTIME'' b)"
  using assms by (simp add: hears_def Subscriber_Start_def Let_def)

lemma hears_module_state [simp]: "hears hs hu (b\<lparr>module_state := s\<rparr>) = hears hs hu b"
  by (simp add: hears_def)

lemma hears_Stop [simp]: "hears hs hu (Subscriber_Stop b) = hears hs hu b"
  by (simp add: hears_def Subscriber_Stop_def)

lemma hears_kept: "hears hs hu b \<Longrightarrow> run_iteration msg b = Done b' \<Longrightarrow> hears hs hu b'"
  using run_iteration_frame unfolding hears_def by blast

text \<open>Whatever is received, the module does one of three things: nothing, handle a status, or handle an update.\<close>

lemma hears_step:
  assumes "hears hs hu b" "run_iteration msg b = Done b'"
  shows "module_state b' = module_state b \<or> (\<exists>env. module_state b' = fold (\<lambda>h. h env) hs (module_state b)) \<or>
    (\<exists>env. module_state b' = fold (\<lambda>h. h env) hu (module_state b))"
proof -
  obtain copy where c: "sub_loop b = Some (''RUNTIME'', copy)" "sub_running copy" "statusHandlers copy = hs" "updateHandlers copy = hu" "healthCheckHandlers copy = []"
    using assms(1) by (auto simp: hears_def)
  have "handle_received ''RUNTIME'' copy msg b = Done b'" using assms(2) c by (simp add: run_iteration_def)
  then have "b' = b \<or> (\<exists>env. dispatch copy env b = Done b')"
    by (cases "(''RUNTIME'', copy, msg, b)" rule: handle_received.cases) (auto split: if_splits sum.splits)
  then show ?thesis
    using c(3-5) by (auto simp: dispatch_def run_handlers_def dispatch_confirmation_def split: if_splits prod.splits option.splits)
qed

text \<open>The contract of a Run: which handlers the bus of the module runs from then on.\<close>

locale bus_module =
  fixes run :: "('e option \<times> 's bus) outcome" and hs hu :: "'s handler list"
  assumes heard: "run = Done (err, b) \<Longrightarrow> hears hs hu b"
begin

lemma received_kept: "run = Done (err, b) \<Longrightarrow> run_loop ms b = Done b' \<Longrightarrow> hears hs hu b'"
  using heard [of err b] unfolding hears_def by (meson run_loop_frame)

lemma status_heard:
  assumes "run = Done (err, b)" "run_loop ms b = Done b'" "NewEnvelope n (C_Status st) = Inr env"
  shows "run_iteration (on_topic ''RUNTIME'' env) b' = Done (b'\<lparr>module_state := fold (\<lambda>h. h env) hs (module_state b')\<rparr>)"
proof -
  obtain copy where c: "sub_loop b' = Some (''RUNTIME'', copy)" "sub_running copy" "statusHandlers copy = hs"
    using received_kept [OF assms(1,2)] by (auto simp: hears_def)
  show ?thesis using kind_NewEnvelope [OF assms(3)] c(3)
    by (simp add: run_iteration_envelope [OF c(1,2) assms(3)] dispatch_def run_handlers_def)
qed

lemma update_heard:
  assumes "run = Done (err, b)" "run_loop ms b = Done b'" "NewEnvelope n (C_Update up) = Inr env"
  shows "run_iteration (on_topic ''RUNTIME'' env) b' = Done (b'\<lparr>module_state := fold (\<lambda>h. h env) hu (module_state b')\<rparr>)"
proof -
  obtain copy where c: "sub_loop b' = Some (''RUNTIME'', copy)" "sub_running copy" "updateHandlers copy = hu"
    using received_kept [OF assms(1,2)] by (auto simp: hears_def)
  show ?thesis using kind_NewEnvelope [OF assms(3)] c(3)
    by (simp add: run_iteration_envelope [OF c(1,2) assms(3)] dispatch_def run_handlers_def kind_defs)
qed

lemma statuses_heard:
  assumes "run = Done (err, b)" "\<forall>(n, st, env) \<in> set ms. NewEnvelope n (C_Status st) = Inr env"
  shows "run_loop (map (\<lambda>(n, st, env). on_topic ''RUNTIME'' env) ms) b =
    Done (b\<lparr>module_state := fold (\<lambda>(n, st, env) s. fold (\<lambda>h. h env) hs s) ms (module_state b)\<rparr>)"
proof -
  have "hears hs hu b' \<Longrightarrow> run_loop (map (\<lambda>(n, st, env). on_topic ''RUNTIME'' env) ms) b' =
      Done (b'\<lparr>module_state := fold (\<lambda>(n, st, env) s. fold (\<lambda>h. h env) hs s) ms (module_state b')\<rparr>)" for b'
    using assms(2)
  proof (induction ms arbitrary: b')
    case (Cons m ms)
    obtain n st env where m: "m = (n, st, env)" by (cases m)
    then have env: "NewEnvelope n (C_Status st) = Inr env" using Cons.prems(2) by auto
    obtain copy where c: "sub_loop b' = Some (''RUNTIME'', copy)" "sub_running copy" "statusHandlers copy = hs"
      using Cons.prems(1) by (auto simp: hears_def)
    have "run_iteration (on_topic ''RUNTIME'' env) b' = Done (b'\<lparr>module_state := fold (\<lambda>h. h env) hs (module_state b')\<rparr>)"
      using kind_NewEnvelope [OF env] c(3) by (simp add: run_iteration_envelope [OF c(1,2) env] dispatch_def run_handlers_def)
    moreover have "hears hs hu (b'\<lparr>module_state := fold (\<lambda>h. h env) hs (module_state b')\<rparr>)" using Cons.prems(1) by simp
    ultimately show ?case using Cons.IH Cons.prems(2) m by simp
  qed simp
  with heard [OF assms(1)] show ?thesis by blast
qed

end

lemma new_subscriber_handlers:
  assumes "MustNewSubscriber zmq e s = Done b"
  shows "statusHandlers (sub_object b) = []" "updateHandlers (sub_object b) = []" "healthCheckHandlers (sub_object b) = []" "module_state b = s"
  using assms by (auto simp: MustNewSubscriber_def NewSubscriber_def empty_subscriber_def split: if_splits)

text \<open>Every module that puts itself on the bus does it the same way.\<close>

definition subscribed :: "zmq_api \<Rightarrow> string \<Rightarrow> 's handler list \<Rightarrow> 's handler list \<Rightarrow> 's \<Rightarrow> 's bus outcome" where
  "subscribed zmq endpoint hs hu s =
     and_then (MustNewSubscriber zmq endpoint s)
       (\<lambda>b. Done (Subscriber_Start ''RUNTIME'' (fold AddStatusHandler hs (fold AddUpdateHandler hu b))))"

lemma fold_AddUpdateHandler:
  "fold AddUpdateHandler hu b = b\<lparr>sub_object := (sub_object b)\<lparr>updateHandlers := updateHandlers (sub_object b) @ hu\<rparr>\<rparr>"
  by (induction hu arbitrary: b) (simp_all add: AddUpdateHandler_def)

lemma fold_AddStatusHandler:
  "fold AddStatusHandler hs b = b\<lparr>sub_object := (sub_object b)\<lparr>statusHandlers := statusHandlers (sub_object b) @ hs\<rparr>\<rparr>"
  by (induction hs arbitrary: b) (simp_all add: AddStatusHandler_def)

lemma subscribed_hears:
  assumes "subscribed zmq endpoint hs hu s = Done b"
  shows "hears hs hu b" "module_state b = s"
proof -
  obtain b0 where b0: "MustNewSubscriber zmq endpoint s = Done b0"
    "b = Subscriber_Start ''RUNTIME'' (fold AddStatusHandler hs (fold AddUpdateHandler hu b0))"
    using assms by (auto simp: subscribed_def and_then_Done)
  note n = new_subscriber_handlers [OF b0(1)]
  show "hears hs hu b" unfolding b0(2)
    by (rule hears_Start) (simp_all add: fold_AddStatusHandler fold_AddUpdateHandler n)
  show "module_state b = s"
    by (simp add: b0(2) fold_AddStatusHandler fold_AddUpdateHandler Subscriber_Start_def Let_def n)
qed

section \<open>Modbus server\<close>

text \<open>The listeners are arguments. The metrics are declared after the subscriber was started; the pusher is there before.\<close>

definition Server_Run ::
  "zmq_api \<Rightarrow> (string \<Rightarrow> string option) \<Rightarrow> (SerialConfig \<Rightarrow> string option) \<Rightarrow> string \<Rightarrow> string \<Rightarrow> ModbusServer
     \<Rightarrow> (string option \<times> ModbusServer bus) outcome" where
  "Server_Run zmq ListenTCP ListenRTU pub pull s =
     (case Server_endpoints pub pull s of (pubE, pullE) \<Rightarrow>
        and_then (MustNewPusher zmq pullE) (\<lambda>p.
        and_then (subscribed zmq pubE [handleMsgBusStatus] [] (s\<lparr>srv_pusher := p\<rparr>)) (\<lambda>b.
          Done (Server_listen ListenTCP ListenRTU s, b\<lparr>module_state := Server_start p (module_state b)\<rparr>))))"

interpretation srv_bus: bus_module "Server_Run zmq ListenTCP ListenRTU pub pull s" "[handleMsgBusStatus]" "[]" for zmq ListenTCP ListenRTU pub pull s
  by unfold_locales (auto simp: Server_Run_def and_then_Done dest: subscribed_hears split: prod.splits)

lemma Server_Run_state:
  assumes "Server_Run zmq ListenTCP ListenRTU pub pull s = Done (err, b)"
  shows "\<exists>p. module_state b = Server_start p s" "err = Server_listen ListenTCP ListenRTU s"
  using assms by (auto simp: Server_Run_def and_then_Done Server_start_def dest!: subscribed_hears(2) split: prod.splits)

text \<open>A server that was started: messages arrive on the bus, requests on its listeners, and its subscriber may be told to stop.
  A request that panics ends the program.\<close>

inductive serving :: "go_impl \<Rightarrow> ModbusServer bus \<Rightarrow> ModbusServer bus \<Rightarrow> bool" for impl b0 where
  started: "serving impl b0 b0"
| message: "serving impl b0 b \<Longrightarrow> run_iteration msg b = Done b' \<Longrightarrow> serving impl b0 b'"
| request: "serving impl b0 b \<Longrightarrow> function_handler impl code data (module_state b) = Some (Done r, s') \<Longrightarrow> serving impl b0 (b\<lparr>module_state := s'\<rparr>)"
| told_to_stop: "serving impl b0 b \<Longrightarrow> serving impl b0 (Subscriber_Stop b)"

lemma Subscriber_Stop_state [simp]: "module_state (Subscriber_Stop b) = module_state b"
  by (simp add: Subscriber_Stop_def)

lemma serving_is_run:
  assumes "serving impl b0 b" "hears [handleMsgBusStatus] [] b0" "server_run impl (module_state b0)"
  shows "hears [handleMsgBusStatus] [] b \<and> server_run impl (module_state b)"
  using assms
proof (induction rule: serving.induct)
  case (message b msg b')
  then have h: "hears [handleMsgBusStatus] [] b" "server_run impl (module_state b)" by simp_all
  show ?case using hears_kept [OF h(1) message(2)] hears_step [OF h(1) message(2)] h(2)
    by (auto intro: server_run.status)
next
  case (request b code data r s')
  then show ?case by (auto intro: server_run.request)
qed simp_all

section \<open>Modbus client\<close>

text \<open>
  The field for the library's client is set after the subscriber was started: until then an update that the module would
  write to the device calls a method on a nil interface, which is a panic. The state on the bus is therefore the module, the
  handler of the library, if it is there, and the device, or the outcome of a handler that did not return.
\<close>

type_synonym 'd client_on_bus = "(ModbusClient \<times> client_handler option \<times> 'd) outcome"

definition client_writes :: "go_impl \<Rightarrow> ModbusClient \<Rightarrow> Point \<Rightarrow> bool" where
  "client_writes impl c p =
     (case cl_registers c (pt_tag p) of
        None \<Rightarrow> False
      | Some r \<Rightarrow> reg_type r = ''coil'' \<or> reg_type r = ''holding'' \<and> (case Register_Bytes impl r (pt_value p) of Inl _ \<Rightarrow> False | Inr _ \<Rightarrow> True))"

definition client_on_update :: "go_impl \<Rightarrow> 'd modbus_api \<Rightarrow> 'd client_on_bus handler" where
  "client_on_update impl api env st =
     and_then st (\<lambda>(c, h, d).
       if h = None \<and> Sender env \<noteq> cl_name c \<and> snd (env_Update env) = None \<and> (\<exists>p \<in> set (Updates (fst (env_Update env))). client_writes impl c p)
       then Panic
       else Done (case handleMsgBusUpdate impl api env (c, d) of (c', d') \<Rightarrow> (c', h, d')))"

text \<open>Run up to the start of the subscriber.\<close>

definition Client_subscribes :: "go_impl \<Rightarrow> 'd modbus_api \<Rightarrow> zmq_api \<Rightarrow> string \<Rightarrow> string \<Rightarrow> ModbusClient \<Rightarrow> 'd \<Rightarrow> (string option \<times> 'd client_on_bus bus) outcome option" where
  "Client_subscribes impl api zmq pub pull c d =
     (case getEndpoint c of
        Inl err \<Rightarrow> None
      | Inr _ \<Rightarrow>
          let pubE = (if cl_pub_endpoint c \<noteq> [] then cl_pub_endpoint c else pub);
              pullE = (if cl_pull_endpoint c \<noteq> [] then cl_pull_endpoint c else pull)
          in Some (and_then (MustNewPusher zmq pullE) (\<lambda>p.
               and_then (subscribed zmq pubE [] [client_on_update impl api] (Done (c\<lparr>cl_pusher := p\<rparr>, None, d))) (\<lambda>b. Done (None, b)))))"

definition client_handler_of :: "ModbusClient \<Rightarrow> client_handler outcome" where
  "client_handler_of c =
     (if cl_endpoint c \<noteq> [] then Done (TCPClientHandler (cl_endpoint c) (of_int (cl_id c)))
      else case cl_serial c of Some sc \<Rightarrow> Done (RTUClientHandler sc (of_int (cl_id c))) | None \<Rightarrow> Panic)"

text \<open>The whole Run; without a usable configuration there is only the error. The loop that polls is started last.\<close>

definition Client_Run :: "go_impl \<Rightarrow> 'd modbus_api \<Rightarrow> zmq_api \<Rightarrow> string \<Rightarrow> string \<Rightarrow> ModbusClient \<Rightarrow> 'd \<Rightarrow> (string option \<times> 'd client_on_bus bus option) outcome" where
  "Client_Run impl api zmq pub pull c d =
     (case Client_subscribes impl api zmq pub pull c d of
        None \<Rightarrow> Done (Some ''invalid endpoint configuration'', None)
      | Some r \<Rightarrow>
          and_then r (\<lambda>(_, b).
          and_then (client_handler_of c) (\<lambda>h.
            Done (None, Some (b\<lparr>module_state := map_outcome (\<lambda>(c, _, d). (c, Some h, d)) (module_state b)\<rparr>)))))"

lemma getEndpoint_handler: "getEndpoint c = Inr e \<Longrightarrow> \<exists>h. client_handler_of c = Done h"
  by (auto simp: getEndpoint_def client_handler_of_def split: if_splits option.splits)

lemma Client_Run_state:
  assumes "Client_Run impl api zmq pub pull c d = Done (err, Some b)"
  shows "hears [] [client_on_update impl api] b" "\<exists>p h. module_state b = Done (c\<lparr>cl_pusher := p\<rparr>, Some h, d)" "err = None"
proof -
  obtain p b0 h where r: "subscribed zmq (if cl_pub_endpoint c \<noteq> [] then cl_pub_endpoint c else pub) [] [client_on_update impl api]
      (Done (c\<lparr>cl_pusher := p\<rparr>, None, d)) = Done b0"
    "b = b0\<lparr>module_state := map_outcome (\<lambda>(c, _, d). (c, Some h, d)) (module_state b0)\<rparr>" "err = None"
    using assms by (auto simp: Client_Run_def Client_subscribes_def and_then_Done Let_def split: sum.splits option.splits prod.splits)
  from subscribed_hears [OF r(1)] r(2,3)
  show "hears [] [client_on_update impl api] b" "\<exists>p h. module_state b = Done (c\<lparr>cl_pusher := p\<rparr>, Some h, d)" "err = None" by auto
qed

text \<open>The panic in Run that its comment says can never happen never does.\<close>

lemma Client_Run_no_panic:
  assumes "zmq_context zmq" "zmq_socket zmq" "\<forall>e. zmq_connect zmq e" "zmq_linger zmq"
  shows "\<exists>err b. Client_Run impl api zmq pub pull c d = Done (err, b)"
proof (cases "getEndpoint c")
  case (Inr e)
  with getEndpoint_handler obtain h where h: "client_handler_of c = Done h" by blast
  show ?thesis
    by (simp add: Client_Run_def Client_subscribes_def Inr h MustNewPusher_def NewPusher_def subscribed_def MustNewSubscriber_def
        NewSubscriber_def assms Let_def split: prod.split)
qed (simp add: Client_Run_def Client_subscribes_def)

text \<open>An update that comes too early crashes the client. Between the start of its subscriber and the assignment of the library's
  client, an update of another module for a coil the client declares is a panic.\<close>

lemma early_update_panics:
  assumes "Client_subscribes impl api zmq pub pull c d = Some (Done (e, b))" "NewEnvelope n (C_Update up) = Inr env" "n \<noteq> cl_name c"
    and "p \<in> set (Updates up)" "cl_registers c (pt_tag p) = Some r" "reg_type r = ''coil''"
  shows "\<exists>b'. run_iteration (on_topic ''RUNTIME'' env) b = Done b' \<and> module_state b' = Panic"
proof -
  obtain q where b: "hears [] [client_on_update impl api] b" "module_state b = Done (c\<lparr>cl_pusher := q\<rparr>, None, d)"
  proof -
    obtain q where "subscribed zmq (if cl_pub_endpoint c \<noteq> [] then cl_pub_endpoint c else pub) [] [client_on_update impl api]
        (Done (c\<lparr>cl_pusher := q\<rparr>, None, d)) = Done b"
      using assms(1) by (auto simp: Client_subscribes_def and_then_Done Let_def split: sum.splits)
    from that subscribed_hears [OF this] show thesis by blast
  qed
  obtain copy where c: "sub_loop b = Some (''RUNTIME'', copy)" "sub_running copy" "updateHandlers copy = [client_on_update impl api]"
    using b(1) by (auto simp: hears_def)
  have w: "client_writes impl (c\<lparr>cl_pusher := q\<rparr>) p" using assms(5,6) by (simp add: client_writes_def)
  have "client_on_update impl api env (module_state b) = Panic"
    using w assms(3,4) by (auto simp: client_on_update_def b(2) env_Update_NewEnvelope [OF assms(2)] Sender_NewEnvelope [OF assms(2)])
  then show ?thesis using kind_NewEnvelope [OF assms(2)] c(3)
    by (simp add: run_iteration_envelope [OF c(1,2) assms(2)] dispatch_def run_handlers_def kind_defs)
qed

text \<open>A client that was started: messages arrive, and each period it polls its device.\<close>

inductive polling :: "go_impl \<Rightarrow> 'd modbus_api \<Rightarrow> 'd client_on_bus bus \<Rightarrow> 'd client_on_bus bus \<Rightarrow> bool" for impl api b0 where
  started: "polling impl api b0 b0"
| message: "polling impl api b0 b \<Longrightarrow> run_iteration msg b = Done b' \<Longrightarrow> polling impl api b0 b'"
| poll: "polling impl api b0 b \<Longrightarrow> module_state b = Done (c, h, d) \<Longrightarrow> poll_tick impl api tags (c, d) = Done (c', d') \<Longrightarrow>
    polling impl api b0 (b\<lparr>module_state := Done (c', h, d')\<rparr>)"
| told_to_stop: "polling impl api b0 b \<Longrightarrow> polling impl api b0 (Subscriber_Stop b)"

lemma pusher_same: "\<exists>p. c = c\<lparr>cl_pusher := p\<rparr>"
  by (rule exI [of _ "cl_pusher c"]) simp

lemma poll_tick_frame:
  assumes "poll_tick impl api tags (c, d) = Done (c', d')"
  shows "\<exists>p. c' = c\<lparr>cl_pusher := p\<rparr>"
proof -
  have "c' = c \<or> (\<exists>p. c' = c\<lparr>cl_pusher := p\<rparr>)"
    using assms by (auto simp: poll_tick_def Let_def split: prod.splits outcome.splits sum.splits)
  with pusher_same show ?thesis by blast
qed

text \<open>Once Run has returned, no message makes the client panic, and its registers are those of the configuration.\<close>

lemma polling_ready:
  assumes "polling impl api b0 b" "hears [] [client_on_update impl api] b0" "module_state b0 = Done (c\<lparr>cl_pusher := p0\<rparr>, Some h, d0)"
  shows "hears [] [client_on_update impl api] b \<and> (\<exists>p d. module_state b = Done (c\<lparr>cl_pusher := p\<rparr>, Some h, d))"
  using assms
proof (induction rule: polling.induct)
  case (message b msg b')
  then obtain p d where i: "hears [] [client_on_update impl api] b" "module_state b = Done (c\<lparr>cl_pusher := p\<rparr>, Some h, d)" by blast
  have "\<exists>d'. client_on_update impl api env (module_state b) = Done (c\<lparr>cl_pusher := p\<rparr>, Some h, d')" for env
    by (auto simp: i(2) client_on_update_def handleMsgBusUpdate_def split: prod.splits option.splits)
  moreover have "module_state b' = module_state b \<or> (\<exists>env. module_state b' = client_on_update impl api env (module_state b))"
    using hears_step [OF i(1) message(2)] by auto
  ultimately show ?case using hears_kept [OF i(1) message(2)] i(2) by metis
next
  case (poll b c1 h1 d tags c' d')
  then show ?case using poll_tick_frame [OF poll(3)] by auto
qed auto

section \<open>Logic\<close>

text \<open>A handler that waits for the mutex for ever blocks the loop of the subscriber; the state on the bus is then no state any more. Updates
  are only heard when the configuration asks for it.\<close>

definition logic_hears :: "(Envelope \<Rightarrow> 'p Logic \<Rightarrow> 'p Logic outcome) \<Rightarrow> 'p Logic outcome handler" where
  "logic_hears h env st = and_then st (h env)"

definition Logic_Run :: "zmq_api \<Rightarrow> string \<Rightarrow> string \<Rightarrow> 'p Logic \<Rightarrow> (string option \<times> 'p Logic outcome bus option) outcome" where
  "Logic_Run zmq pub pull l =
     (if lg_program l = Map.empty then Done (Some ''no logic program to execute'', None)
      else let pubE = (if lg_pub_endpoint l \<noteq> [] then lg_pub_endpoint l else pub);
               pullE = (if lg_pull_endpoint l \<noteq> [] then lg_pull_endpoint l else pull)
           in and_then (MustNewPusher zmq pullE) (\<lambda>p.
              and_then (subscribed zmq pubE [logic_hears Logic_handleMsgBusStatus]
                         (if lg_processUpdates l then [logic_hears Logic_handleMsgBusUpdate] else [])
                         (Done (initEnv (l\<lparr>lg_pusher := p\<rparr>)))) (\<lambda>b. Done (None, Some b))))"

text \<open>The goroutine with the loop starts by making a ticker, which panics unless the period is positive; a panic in a goroutine ends the
  program.\<close>

definition logic_goroutine :: "'p Logic \<Rightarrow> unit outcome" where
  "logic_goroutine l = (if lg_period l \<le> 0 then Panic else Done ())"

inductive ticking :: "('p, 'r) expr_api \<Rightarrow> 'p Logic outcome bus \<Rightarrow> 'p Logic outcome bus \<Rightarrow> bool" for api b0 where
  started: "ticking api b0 b0"
| message: "ticking api b0 b \<Longrightarrow> run_iteration msg b = Done b' \<Longrightarrow> ticking api b0 b'"
| tick: "ticking api b0 b \<Longrightarrow> module_state b = Done l \<Longrightarrow> logic_goroutine l = Done () \<Longrightarrow> logic_tick api visit (l, r) = Done (l', r') \<Longrightarrow>
    ticking api b0 (b\<lparr>module_state := Done l'\<rparr>)"
| told_to_stop: "ticking api b0 b \<Longrightarrow> ticking api b0 (Subscriber_Stop b)"

lemma Logic_Run_state:
  assumes "Logic_Run zmq pub pull l = Done (err, Some b)"
  shows "hears [logic_hears Logic_handleMsgBusStatus] (if lg_processUpdates l then [logic_hears Logic_handleMsgBusUpdate] else []) b"
    "\<exists>l'. module_state b = Done l' \<and> (\<exists>p. Logic_start pull (\<lambda>_. p) l = Inr l') \<and> lg_processUpdates l' = lg_processUpdates l"
proof -
  obtain p where p: "lg_program l \<noteq> Map.empty" "subscribed zmq (if lg_pub_endpoint l \<noteq> [] then lg_pub_endpoint l else pub)
      [logic_hears Logic_handleMsgBusStatus] (if lg_processUpdates l then [logic_hears Logic_handleMsgBusUpdate] else [])
      (Done (initEnv (l\<lparr>lg_pusher := p\<rparr>))) = Done b"
    using assms by (auto simp: Logic_Run_def and_then_Done Let_def split: if_splits)
  note s = subscribed_hears [OF p(2)]
  show "hears [logic_hears Logic_handleMsgBusStatus] (if lg_processUpdates l then [logic_hears Logic_handleMsgBusUpdate] else []) b"
    by (rule s(1))
  show "\<exists>l'. module_state b = Done l' \<and> (\<exists>p. Logic_start pull (\<lambda>_. p) l = Inr l') \<and> lg_processUpdates l' = lg_processUpdates l"
    using p(1) s(2) by (auto simp: Logic_start_def initEnv_def)
qed

text \<open>What a running logic module does on the bus is what the state machine of the module allows: every state it reaches, unless a handler is
  blocked or has panicked, is one of that machine.\<close>

lemma ticking_is_run:
  assumes "ticking api b0 b" "Logic_Configure impl api es (NewLogic n p) = Inr l0" "Logic_Run zmq pub pull l0 = Done (err, Some b0)"
    "module_state b = Done l"
  shows "logic_run impl api l \<and> lg_processUpdates l = lg_processUpdates l0"
proof -
  let ?hs = "[logic_hears Logic_handleMsgBusStatus]" and ?hu = "if lg_processUpdates l0 then [logic_hears Logic_handleMsgBusUpdate] else []"
  have upd: "lg_processUpdates l' = lg_processUpdates l" if "logic_step_frame l l'" for l l' :: "'a Logic"
    using that by (auto simp: logic_step_frame_def)
  have "hears ?hs ?hu b \<and> (\<forall>l. module_state b = Done l \<longrightarrow> logic_run impl api l \<and> lg_processUpdates l = lg_processUpdates l0)"
    using assms(1)
  proof (induction rule: ticking.induct)
    case started
    show ?case using Logic_Run_state [OF assms(3)] assms(2) by (auto intro: logic_run.started)
  next
    case (message b msg b')
    then have h: "hears ?hs ?hu b" and run: "\<And>l. module_state b = Done l \<Longrightarrow> logic_run impl api l \<and> lg_processUpdates l = lg_processUpdates l0"
      by blast+
    have st: "logic_run impl api l \<and> lg_processUpdates l = lg_processUpdates l0"
      if heard: "logic_hears Logic_handleMsgBusStatus env (module_state b) = Done l" for env l
    proof -
      obtain l1 where l1: "module_state b = Done l1" "Logic_handleMsgBusStatus env l1 = Done l" using heard by (auto simp: logic_hears_def and_then_Done)
      then show ?thesis using run [OF l1(1)] upd [OF handler_frame(1) [OF l1(2)]] logic_run.status by metis
    qed
    have up: "logic_run impl api l \<and> lg_processUpdates l = lg_processUpdates l0"
      if heard: "logic_hears Logic_handleMsgBusUpdate env (module_state b) = Done l" "lg_processUpdates l0" for env l
    proof -
      obtain l1 where l1: "module_state b = Done l1" "Logic_handleMsgBusUpdate env l1 = Done l" using heard(1) by (auto simp: logic_hears_def and_then_Done)
      then show ?thesis using run [OF l1(1)] upd [OF handler_frame(2) [OF l1(2)]] logic_run.update heard(2) by metis
    qed
    show ?case using hears_kept [OF h message(2)] hears_step [OF h message(2)] run st up by (auto split: if_splits)
  next
    case (tick b l visit r l' r')
    then show ?case using logic_run.tick [of impl api l visit r l' r'] upd [OF logic_tick_frame [OF tick(4)]] by auto
  qed auto
  with assms(4) show ?thesis by blast
qed

text \<open>A period that is not positive is accepted by the configuration and ends the program as soon as the module runs.\<close>

lemma logic_period_panics:
  "ParseDuration impl (Text e) = Some d \<Longrightarrow> Tag e = ''period'' \<Longrightarrow> d \<le> 0 \<Longrightarrow>
     \<exists>l'. logic_child impl api e l = Inr l' \<and> logic_goroutine l' = Panic"
  by (simp add: logic_child_def logic_goroutine_def)

section \<open>SunSpec server\<close>

text \<open>The handler of statuses touches the server but not the registers, which all servers of the program keep in one heap.\<close>

definition SunSpecServer_Run :: "zmq_api \<Rightarrow> (string \<Rightarrow> string option) \<Rightarrow> string \<Rightarrow> string \<Rightarrow> SunSpecServer \<Rightarrow> (string option \<times> SunSpecServer bus) outcome" where
  "SunSpecServer_Run zmq ListenTCP pub pull s =
     (case sunspec_endpoints pub pull s of (pubE, pullE) \<Rightarrow>
        and_then (MustNewPusher zmq pullE) (\<lambda>p.
        and_then (subscribed zmq pubE [sunspec_handleMsgBusStatus] [] (s\<lparr>sv_pusher := p\<rparr>)) (\<lambda>b.
          Done (sunspec_listen ListenTCP s, b))))"

interpretation ss_bus: bus_module "SunSpecServer_Run zmq ListenTCP pub pull s" "[sunspec_handleMsgBusStatus]" "[]" for zmq ListenTCP pub pull s
  by unfold_locales (auto simp: SunSpecServer_Run_def and_then_Done dest: subscribed_hears split: prod.splits)

lemma SunSpecServer_Run_state:
  assumes "SunSpecServer_Run zmq ListenTCP pub pull s = Done (err, b)"
  shows "\<exists>p. module_state b = s\<lparr>sv_pusher := p\<rparr>" "err = sunspec_listen ListenTCP s"
  using assms by (auto simp: SunSpecServer_Run_def and_then_Done dest!: subscribed_hears(2) split: prod.splits)

inductive sunspec_serving :: "go_impl \<Rightarrow> heap \<times> SunSpecServer bus \<Rightarrow> heap \<times> SunSpecServer bus \<Rightarrow> bool" for impl b0 where
  started: "sunspec_serving impl b0 b0"
| message: "sunspec_serving impl b0 (h, b) \<Longrightarrow> run_iteration msg b = Done b' \<Longrightarrow> sunspec_serving impl b0 (h, b')"
| request: "sunspec_serving impl b0 (h, b) \<Longrightarrow> sunspec_function_handler impl fuel code data (h, module_state b) = Some (Done r, h', s') \<Longrightarrow>
    sunspec_serving impl b0 (h', b\<lparr>module_state := s'\<rparr>)"

lemma sunspec_serving_is_run:
  assumes "sunspec_serving impl b0 b" "hears [sunspec_handleMsgBusStatus] [] (snd b0)" "sunspec_run impl sch (fst b0, module_state (snd b0))"
  shows "hears [sunspec_handleMsgBusStatus] [] (snd b) \<and> sunspec_run impl sch (fst b, module_state (snd b))"
  using assms
proof (induction rule: sunspec_serving.induct)
  case (message h b msg b')
  then have h: "hears [sunspec_handleMsgBusStatus] [] b" "sunspec_run impl sch (h, module_state b)" by simp_all
  have "module_state b' = module_state b \<or> (\<exists>env. module_state b' = sunspec_handleMsgBusStatus env (module_state b))"
    using hears_step [OF h(1) message(2)] by auto
  then show ?case using hears_kept [OF h(1) message(2)] h(2) by (auto intro: sunspec_run.status)
next
  case (request h b fuel code data r h' s')
  then show ?case by (auto intro: sunspec_run.request)
qed simp_all

section \<open>SunSpec client\<close>

definition sunspec_on_update :: "go_impl \<Rightarrow> 'd sunspec_api \<Rightarrow> (SunSpecClient \<times> 'd) outcome handler" where
  "sunspec_on_update impl api env st =
     and_then st (\<lambda>(c, d). and_then (sunspec_handleMsgBusUpdate impl api env c d) (\<lambda>d'. Done (c, d')))"

text \<open>The discovery of the models, the report of their points and the set-up around them.\<close>

definition SunSpecClient_start ::
  "go_impl \<Rightarrow> schemas \<Rightarrow> 'd sunspec_api \<Rightarrow> zmq_api \<Rightarrow> (model_data \<Rightarrow> model_data) \<Rightarrow> nat \<Rightarrow> string \<Rightarrow> string \<Rightarrow> SunSpecClient \<Rightarrow> 'd
     \<Rightarrow> (string option \<times> (SunSpecClient \<times> 'd) outcome bus) outcome" where
  "SunSpecClient_start impl sch api zmq visit fuel pub pull c d =
     (case sunspec_client_endpoints pub pull c of (pubE, pullE) \<Rightarrow>
        and_then (MustNewPusher zmq pullE) (\<lambda>p.
        and_then (subscribed zmq pubE [] [sunspec_on_update impl api] (Done (c\<lparr>sc_pusher := p\<rparr>, d))) (\<lambda>b.
          let r = SunSpecClient_Run impl sch api visit fuel (c\<lparr>sc_pusher := p\<rparr>) d
          in and_then (fst r) (\<lambda>err. Done (err, b\<lparr>module_state := Done (snd r)\<rparr>)))))"

interpretation sc_bus: bus_module "SunSpecClient_start impl sch api zmq visit fuel pub pull c d" "[]" "[sunspec_on_update impl api]"
  for impl sch api zmq visit fuel pub pull c d
  by unfold_locales (auto simp: SunSpecClient_start_def and_then_Done Let_def dest: subscribed_hears split: prod.splits)

end
