(* ===== verification/Modules.thy ===== *)
theory Modules
  imports Runs OtSim Programs TelnetLink MqttLife SunSpecLink
begin

text \<open>
  The main programs (cmd) with the modules they register: a program reads its configuration file, starts what is configured in
  it, and then waits for a signal. The operations of each kind of modules are those of their theories; what Run leaves
  running is part of the state of the program.
\<close>

section \<open>A program\<close>

text \<open>The error of a context, and the signals that CancelContext (util/sigterm/context.go) waits for. Cancelling the parent also cancels the
  child, with its error.\<close>

datatype ctx_error = Canceled | DeadlineExceeded

datatype signal = SIGTERM | SIGINT | OtherSignal

definition CancelContext :: "ctx_error option \<Rightarrow> signal list \<Rightarrow> ctx_error option" where
  "CancelContext parent received =
     (case parent of
        Some err \<Rightarrow> Some err
      | None \<Rightarrow> if SIGTERM \<in> set received \<or> SIGINT \<in> set received then Some Canceled else None)"

text \<open>The main function up to the wait: the number of arguments, the configuration file, the modules.\<close>

definition program_main ::
  "('m, 'g) module_ops \<Rightarrow> 'm otsim \<Rightarrow> nat \<Rightarrow> document \<Rightarrow> 'g \<Rightarrow> int option outcome \<times> 'm list \<times> 'g" where
  "program_main ops s argc doc g =
     (if argc \<noteq> 2 then (Panic, [], g)
      else case ParseConfigFile ops doc s g of
             (Some err, s', g') \<Rightarrow> (main_start argc (Some err) None, [], g')
           | (None, s', g') \<Rightarrow>
               (case Start ops s' g' of
                  (started, Done e, g'') \<Rightarrow> (main_start argc None e, started, g'')
                | (started, Panic, g'') \<Rightarrow> (Panic, started, g'')
                | (started, Diverge, g'') \<Rightarrow> (Diverge, started, g'')))"

text \<open>The rest: once the context is done, and the wait group is empty where main waits for it, the exit code.\<close>

definition program_end :: "ctx_error option \<Rightarrow> int option" where
  "program_end err = (case err of None \<Rightarrow> None | Some Canceled \<Rightarrow> Some 0 | Some DeadlineExceeded \<Rightarrow> Some 1)"

text \<open>How a program comes to its end apart from what its main function does by itself: signals arrive that are caught, a goroutine panics, or the
  operating system kills the process, also by a signal before it is caught. The exit status, of which the operating system keeps the low eight
  bits: that of a panic is 2, that of a killed process counts as -1. A program that still waits has none.\<close>

datatype fate = Signals "signal list" | Goroutine_Panics | Killed_By_System

definition exit_status :: "int option outcome \<Rightarrow> fate \<Rightarrow> int option" where
  "exit_status r f =
     (case f of
        Goroutine_Panics \<Rightarrow> Some 2
      | Killed_By_System \<Rightarrow> Some (- 1)
      | Signals received \<Rightarrow>
          (case r of
             Done (Some c) \<Rightarrow> Some (c mod 256)
           | Done None \<Rightarrow> program_end (CancelContext None received)
           | Panic \<Rightarrow> Some 2
           | Diverge \<Rightarrow> None))"

lemma map_outcome_Done: "map_outcome f x = Done y \<longleftrightarrow> (\<exists>z. x = Done z \<and> f z = y)"
  by (cases x) auto

text \<open>What Run of a module adds to the program.\<close>

definition launch :: "(string option \<times> 'b option) outcome \<Rightarrow> 'b list \<Rightarrow> run_error option outcome \<times> 'b list" where
  "launch r g =
     (case r of
        Done (err, x) \<Rightarrow> (Done (map_option Plain_Error err), g @ (case x of None \<Rightarrow> [] | Some b \<Rightarrow> [b]))
      | Panic \<Rightarrow> (Panic, g)
      | Diverge \<Rightarrow> (Diverge, g))"

lemma run_all_launched:
  assumes "run_all ops pub pull ms g = Some g1" "\<And>m. Run ops m = Some (\<lambda>pub pull. launch (R m pub pull))" "x \<in> set g1"
  shows "x \<in> set g \<or> (\<exists>m \<in> set ms. R m pub pull = Done (None, Some x))"
  using assms(1,3)
proof (induction ms arbitrary: g)
  case (Cons m ms)
  obtain y where y: "R m pub pull = Done (None, y)" "run_all ops pub pull ms (g @ (case y of None \<Rightarrow> [] | Some b \<Rightarrow> [b])) = Some g1"
    using Cons.prems(1) by (auto simp: assms(2) launch_def split: outcome.splits prod.splits option.splits)
  from Cons.IH [OF y(2) Cons.prems(2)] y(1) show ?case by (auto split: option.splits)
qed simp

text \<open>A program that waits has parsed its file and run every module of it.\<close>

lemma program_waits:
  assumes "program_main ops s argc doc g = (Done None, started, g2)"
  obtains s' g' where "ParseConfigFile ops doc s g = (None, s', g')" "Start ops s' g' = (started, Done None, g2)"
proof -
  obtain e s' g' where p: "ParseConfigFile ops doc s g = (e, s', g')" by (cases "ParseConfigFile ops doc s g")
  obtain st r g3 where st: "Start ops s' g' = (st, r, g3)" by (cases "Start ops s' g'")
  have "e = None \<and> st = started \<and> r = Done None \<and> g3 = g2"
    using assms p st by (auto simp: program_main_def main_start_def split: if_splits option.splits outcome.splits run_error.splits)
  with p st that show thesis by blast
qed

lemma program_runs_all:
  assumes "program_main ops s argc doc g = (Done None, started, g2)" "\<And>m. Run ops m \<noteq> None"
  obtains s' g' where "ParseConfigFile ops doc s g = (None, s', g')" "runners s' = started" "runners s' \<noteq> []"
    "run_all ops (ot_pubEndpoint s') (ot_pullEndpoint s') started g' = Some g2"
proof -
  obtain s' g' where p: "ParseConfigFile ops doc s g = (None, s', g')" "Start ops s' g' = (started, Done None, g2)"
    using program_waits [OF assms(1)] by blast
  have "list_all (\<lambda>m. Run ops m \<noteq> None) (runners s')" using assms(2) by (simp add: list_all_iff)
  from start_in_order [OF this p(2)] obtain rest g1 where r: "runners s' = started @ rest" "runners s' \<noteq> []" "rest = []"
    "run_all ops (ot_pubEndpoint s') (ot_pullEndpoint s') started g' = Some g1"
    "case rest of [] \<Rightarrow> g2 = g1 \<and> Done None = Done (if runners s' = [] then Some (Plain_Error ''no registered runners'') else None)
     | m # _ \<Rightarrow> \<exists>r. the (Run ops m) (ot_pubEndpoint s') (ot_pullEndpoint s') g1 = (r, g2) \<and> r \<noteq> Done None \<and> Done None = map_outcome (map_option starting) r"
    by blast
  then have "runners s' = started" "run_all ops (ot_pubEndpoint s') (ot_pullEndpoint s') started g' = Some g2" by simp_all
  with p(1) r(2) that show thesis by blast
qed

text \<open>Programs whose modules keep everything to themselves, and whose Run only adds what it starts.\<close>

locale launching = module_kind ops "\<lambda>g. good" "\<lambda>g. True" make
  for ops :: "('m, 'b list) module_ops" and good :: "'m \<Rightarrow> bool" and make :: "element \<Rightarrow> 'm result" +
  fixes begins :: "'m \<Rightarrow> string \<Rightarrow> string \<Rightarrow> (string option \<times> 'b option) outcome"
  assumes launches: "Run ops m = Some (\<lambda>pub pull. launch (begins m pub pull))"
    and keeps: "Configure ops e (m, g) = (err, m', g') \<Longrightarrow> g' = g"
begin

lemma configure_keeps: "module_children ops es s g = (err, s', g') \<Longrightarrow> g' = g"
proof (induction es arbitrary: s g)
  case (Cons e es)
  show ?case
  proof (cases "factories s (Tag e)")
    case (Some f)
    show ?thesis
    proof (cases "f e")
      case (Inr m)
      obtain r m1 g1 where c: "Configure ops e (m, g) = (r, m1, g1)" by (cases "Configure ops e (m, g)")
      have "g1 = g" by (rule keeps [OF c])
      then show ?thesis using Cons Some Inr c by (cases r) auto
    qed (use Cons.prems Some in simp)
  qed (use Cons in simp)
qed simp

lemma program_live:
  assumes "program_main ops s argc doc [] = (Done None, started, g)" "ran (factories s) \<subseteq> {make}" "runners s = []" "x \<in> set g"
  shows "\<exists>m \<in> set started. good m \<and> (\<exists>pub pull. begins m pub pull = Done (None, Some x))"
proof -
  have r: "\<And>m. Run ops m \<noteq> None" by (simp add: launches)
  obtain s' g' where s': "ParseConfigFile ops doc s [] = (None, s', g')" "runners s' = started"
    "run_all ops (ot_pubEndpoint s') (ot_pullEndpoint s') started g' = Some g"
    by (rule program_runs_all [OF assms(1) r])
  have g': "g' = []"
    using s'(1) by (auto simp: ParseConfigFile_def Let_def split: sum.splits option.splits prod.splits dest: configure_keeps)
  from run_all_launched [OF s'(3) launches assms(4)] g' obtain m where m: "m \<in> set started"
    "begins m (ot_pubEndpoint s') (ot_pullEndpoint s') = Done (None, Some x)" by auto
  from parsed_good [OF assms(2,3) _ s'(1)] m(1) s'(2) have "good m" by auto
  with m show ?thesis by blast
qed

end

section \<open>The Modbus program\<close>

definition modbus_configure :: "go_impl \<Rightarrow> element \<Rightarrow> modbus_module \<Rightarrow> modbus_module result" where
  "modbus_configure impl e m =
     (case m of
        MServer s \<Rightarrow> map_sum id MServer (Server_Configure impl (ChildElements e) s)
      | MClient c \<Rightarrow> map_sum id MClient (Client_Configure impl (ChildElements e) c))"

definition modbus_name :: "modbus_module \<Rightarrow> string" where
  "modbus_name m = (case m of MServer s \<Rightarrow> srv_name s | MClient c \<Rightarrow> cl_name c)"

text \<open>The sockets and the devices a program finds.\<close>

record 'd modbus_world =
  mw_zmq :: zmq_api
  mw_ListenTCP :: "string \<Rightarrow> string option"
  mw_ListenRTU :: "SerialConfig \<Rightarrow> string option"
  mw_api :: "'d modbus_api"
  mw_device :: "ModbusClient \<Rightarrow> 'd"

datatype 'd modbus_live = LiveServer "ModbusServer bus" | LiveClient "'d client_on_bus bus"

definition modbus_start :: "go_impl \<Rightarrow> 'd modbus_world \<Rightarrow> modbus_module \<Rightarrow> string \<Rightarrow> string \<Rightarrow> (string option \<times> 'd modbus_live option) outcome" where
  "modbus_start impl w m pub pull =
     (case m of
        MServer s \<Rightarrow> map_outcome (map_prod id (\<lambda>b. Some (LiveServer b))) (Server_Run (mw_zmq w) (mw_ListenTCP w) (mw_ListenRTU w) pub pull s)
      | MClient c \<Rightarrow> map_outcome (map_prod id (map_option LiveClient)) (Client_Run impl (mw_api w) (mw_zmq w) pub pull c (mw_device w c)))"

definition modbus_ops :: "go_impl \<Rightarrow> 'd modbus_world \<Rightarrow> (modbus_module, 'd modbus_live list) module_ops" where
  "modbus_ops impl w =
     \<lparr>Name = modbus_name, Configure = own_configure (modbus_configure impl),
      Run = (\<lambda>m. Some (\<lambda>pub pull. launch (modbus_start impl w m pub pull)))\<rparr>"

definition modbus_registry :: "Pusher \<Rightarrow> modbus_module otsim" where
  "modbus_registry p = AddModuleFactory ''modbus'' (NewModule p) no_modules"

definition modbus_main :: "go_impl \<Rightarrow> 'd modbus_world \<Rightarrow> Pusher \<Rightarrow> nat \<Rightarrow> document \<Rightarrow> int option outcome \<times> modbus_module list \<times> 'd modbus_live list" where
  "modbus_main impl w p argc doc = program_main (modbus_ops impl w) (modbus_registry p) argc doc []"

text \<open>A module of the program: made by the factory and configured.\<close>

definition modbus_made :: "go_impl \<Rightarrow> Pusher \<Rightarrow> modbus_module \<Rightarrow> bool" where
  "modbus_made impl p m =
     (case m of
        MServer s \<Rightarrow> \<exists>es n. Server_Configure impl es (NewServer n p) = Inr s
      | MClient c \<Rightarrow> \<exists>es n. Client_Configure impl es (NewClient n p) = Inr c)"

lemma modbus_made_configured:
  assumes "NewModule p e = Inr m" "modbus_configure impl e' m = Inr m'"
  shows "modbus_made impl p m'"
proof -
  obtain n where "m = MServer (NewServer n p) \<or> m = MClient (NewClient n p)"
    using assms(1) unfolding NewModule_def Let_def by (auto simp del: map_eq_Cons_conv split: if_splits)
  with assms(2) show ?thesis
    unfolding modbus_made_def modbus_configure_def
    by (auto simp: map_sum_def split: sum.splits intro!: exI [of _ "ChildElements e'"] exI [of _ n])
qed

interpretation mb: launching "modbus_ops impl w" "modbus_made impl p" "NewModule p" "modbus_start impl w" for impl w p
  by unfold_locales
    (auto simp: modbus_ops_def own_configure_def intro: modbus_made_configured split: sum.splits)

lemma modbus_registered: "ran (factories (modbus_registry p)) \<subseteq> {NewModule p}" "runners (modbus_registry p) = []"
  by (simp_all add: modbus_registry_def AddModuleFactory_def no_modules_def)

text \<open>C1: a Modbus server answers, from the configuration file to the last request. When the main function of the Modbus program has come to
  wait, every server it runs stays well: whatever arrives on the bus and whatever clients request, in any order, a
  request with a registered function code and a frame that is complete by the protocol is answered, without a panic and without an endless loop. The
  one exception is exact: a write of multiple registers panics if and only if its range ends inside of a register and the frame ends before that
  register does.\<close>

theorem modbus_program_answers:
  assumes "modbus_main impl w p argc doc = (Done None, started, g)" "LiveServer b0 \<in> set g" "serving impl b0 b" "complete_frame code data"
  shows "\<exists>r s'. function_handler impl code data (module_state b) = Some (r, s') \<and>
    (if code = 16 \<and> overreaches data (module_state b) then r = Panic
     else (\<exists>reply. r = Done reply) \<and> serving impl b0 (b\<lparr>module_state := s'\<rparr>))"
proof -
  obtain m pub pull where m: "modbus_made impl p m" "modbus_start impl w m pub pull = Done (None, Some (LiveServer b0))"
    using mb.program_live [OF assms(1) [unfolded modbus_main_def] modbus_registered assms(2)] by blast
  then obtain s es n where s: "m = MServer s" "Server_Configure impl es (NewServer n p) = Inr s"
    "Server_Run (mw_zmq w) (mw_ListenTCP w) (mw_ListenRTU w) pub pull s = Done (None, b0)"
    by (cases m) (auto simp: modbus_start_def modbus_made_def map_outcome_Done)
  have "server_run impl (module_state b0)" using Server_Run_state(1) [OF s(3)] server_run.started [OF s(2)] by auto
  from serving_is_run [OF assms(3) srv_bus.heard [OF s(3)] this] have "server_ok (module_state b)" by (blast intro: server_run_ok)
  from handler_outcome [OF this assms(4), of impl] obtain r s' where
    h: "function_handler impl code data (module_state b) = Some (if code = 16 \<and> overreaches data (module_state b) then Panic else Done r, s')" by blast
  then show ?thesis using serving.request [OF assms(3), of code data r s'] by (cases "code = 16 \<and> overreaches data (module_state b)") auto
qed

text \<open>C39: a Modbus client reports its device, from the configuration file to every poll. When the main function of the Modbus program has come to wait, no
  message makes a client panic any more, and in every state it reaches a poll, in whatever order it visits the registers, ends and pushes at most one status. The
  points of this status are the values that the device gave: for each register in turn the request is made in the state of the device that the one before left, and
  there is a point, with the tag of the register and the value of the bytes received, exactly when the request succeeds and the bytes can be decoded. The last point says whether
  the device is connected: it is 1 exactly when there is such a value. Nothing is pushed only if a value has no JSON form or the bus refuses.\<close>

theorem modbus_program_polls:
  assumes "modbus_main impl w p argc doc = (Done None, started, g)" "LiveClient b0 \<in> set g" "polling impl (mw_api w) b0 b"
    and "api_bits (mw_api w)" "distinct tags"
  shows "\<exists>c h d. module_state b = Done (c, Some h, d) \<and>
    (\<exists>c' ds points. poll_tick impl (mw_api w) tags (c, d) = Done (c', last ds) \<and>
      polling impl (mw_api w) b0 (b\<lparr>module_state := Done (c', Some h, last ds)\<rparr>) \<and>
      ds \<noteq> [] \<and> hd ds = d \<and> reads_device impl (mw_api w) (cl_registers c) tags ds points \<and>
      distinct (map pt_tag points) \<and> pt_tag ` set points \<subseteq> dom (cl_registers c) \<and>
      (let status = \<lparr>Measurements = points @ [connected_point (cl_name c) (points \<noteq> [])]\<rparr>
       in if points_finite points \<and> sock (cl_pusher c) (attempts (cl_pusher c))
          then \<exists>env. sent (cl_pusher c') = sent (cl_pusher c) @ [(''RUNTIME'', P_Envelope env)] \<and>
                     Sender env = cl_name c \<and> env_Status env = (status, None)
          else sent (cl_pusher c') = sent (cl_pusher c)))"
proof -
  obtain m pub pull where m: "modbus_made impl p m" "modbus_start impl w m pub pull = Done (None, Some (LiveClient b0))"
    using mb.program_live [OF assms(1) [unfolded modbus_main_def] modbus_registered assms(2)] by blast
  then obtain c0 es n where c0: "Client_Configure impl es (NewClient n p) = Inr c0"
    "Client_Run impl (mw_api w) (mw_zmq w) pub pull c0 (mw_device w c0) = Done (None, Some b0)"
    by (cases m) (auto simp: modbus_start_def modbus_made_def map_outcome_Done)
  obtain p0 h where b0: "module_state b0 = Done (c0\<lparr>cl_pusher := p0\<rparr>, Some h, mw_device w c0)" using Client_Run_state(2) [OF c0(2)] by blast
  from polling_ready [OF assms(3) Client_Run_state(1) [OF c0(2)] b0] obtain q d where
    b: "module_state b = Done (c0\<lparr>cl_pusher := q\<rparr>, Some h, d)" by blast
  let ?c = "c0\<lparr>cl_pusher := q\<rparr>"
  have ok: "client_ok ?c" using Client_Configure_ok [OF NewClient_ok c0(1)] by (simp add: client_ok_def)
  from poll_reports [OF ok assms(4,5), of impl d] obtain c' ds points where r: "poll_tick impl (mw_api w) tags (?c, d) = Done (c', last ds)"
    "ds \<noteq> []" "hd ds = d" "reads_device impl (mw_api w) (cl_registers ?c) tags ds points" "distinct (map pt_tag points)" "pt_tag ` set points \<subseteq> dom (cl_registers ?c)"
    "let status = \<lparr>Measurements = points @ [connected_point (cl_name ?c) (points \<noteq> [])]\<rparr>
     in if points_finite points \<and> sock (cl_pusher ?c) (attempts (cl_pusher ?c))
        then \<exists>env. sent (cl_pusher c') = sent (cl_pusher ?c) @ [(''RUNTIME'', P_Envelope env)] \<and> Sender env = cl_name ?c \<and> env_Status env = (status, None)
        else sent (cl_pusher c') = sent (cl_pusher ?c)" by blast
  from r polling.poll [OF assms(3) b r(1)] b show ?thesis by blast
qed

text \<open>Programs with one module.\<close>

definition demo_device :: "unit modbus_api" where
  "demo_device = dead_device\<lparr>ReadHoldingRegisters := (\<lambda>a n d. (Inr [0, 42], d))\<rparr>"

definition demo_world :: "unit modbus_world" where
  "demo_world = \<lparr>mw_zmq = open_zmq, mw_ListenTCP = (\<lambda>_. None), mw_ListenRTU = (\<lambda>_. None), mw_api = demo_device, mw_device = (\<lambda>_. ())\<rparr>"

definition one_module :: "string \<Rightarrow> (string \<times> string) list \<Rightarrow> element list \<Rightarrow> document" where
  "one_module tag ats es = Inr (Some (node ''ot-sim'' [] [] [node tag ats [] es], None))"

lemma program_main_one:
  assumes "factories s tag \<noteq> None" "the (factories s tag) (node tag ats [] es) = Inr m" "Configure ops (node tag ats [] es) (m, g) = (None, m', g1)"
    "Run ops m' \<noteq> None" "the (Run ops m') (ot_pubEndpoint s) (ot_pullEndpoint s) g1 = (Done None, g2)" "runners s = []"
  shows "program_main ops s 2 (one_module tag ats es) g = (Done None, [m'], g2)"
  using assms by (auto simp: program_main_def one_module_def ParseConfigFile_def Start_def main_start_def)

lemma open_sockets: "MustNewPusher open_zmq e = Done \<lparr>sock = (\<lambda>_. True), attempts = 0, sent = []\<rparr>" "MustNewSubscriber open_zmq e s = Done (empty_subscriber s)"
  by (simp_all add: MustNewPusher_def NewPusher_def MustNewSubscriber_def NewSubscriber_def open_zmq_def)

lemma demo_server_program:
  "\<exists>started b. modbus_main demo_impl demo_world demo_pusher 2 (one_module ''modbus'' [(''name'', ''mb'')] demo_xml) = (Done None, started, [LiveServer b]) \<and>
     srv_registers (module_state b) ''holding'' = Some [7 \<mapsto> demo_reg ''holding'' ''uint16'' 7 1 0 ''bus.voltage'']"
proof -
  let ?m = "MServer (NewServer ''mb'' demo_pusher)"
  have "\<exists>b. Server_Run open_zmq (\<lambda>_. None) (\<lambda>_. None) [] [] demo_configured = Done (None, b)"
    by (simp add: Server_Run_def Server_endpoints_def Server_listen_def subscribed_def open_sockets split: option.split prod.split)
  then obtain b where b: "Server_Run open_zmq (\<lambda>_. None) (\<lambda>_. None) [] [] demo_configured = Done (None, b)" ..
  have start: "modbus_start demo_impl demo_world (MServer demo_configured) [] [] = Done (None, Some (LiveServer b))"
    by (simp add: modbus_start_def demo_world_def b)
  have "modbus_main demo_impl demo_world demo_pusher 2 (one_module ''modbus'' [(''name'', ''mb'')] demo_xml) = (Done None, [MServer demo_configured], [LiveServer b])"
    unfolding modbus_main_def
    by (rule program_main_one [where m = ?m and ?g1.0 = "[]"])
      (simp_all add: modbus_registry_def AddModuleFactory_def no_modules_def NewModule_def to_lower_char_def modbus_ops_def own_configure_def
        modbus_configure_def demo_configured_ok(1) start launch_def)
  moreover have "srv_registers (module_state b) = srv_registers demo_configured" using Server_Run_state(1) [OF b] by (auto simp: Server_start_def)
  ultimately show ?thesis using demo_configured_ok(2) by auto
qed

theorem modbus_program_answers_witness:
  "\<exists>started b r s'. modbus_main demo_impl demo_world demo_pusher 2 (one_module ''modbus'' [(''name'', ''mb'')] demo_xml) = (Done None, started, [LiveServer b]) \<and>
     complete_frame 16 \<lparr>visible = [0, 7, 0, 1, 2, 0xAB, 0xCD], spare = []\<rparr> \<and>
     function_handler demo_impl 16 \<lparr>visible = [0, 7, 0, 1, 2, 0xAB, 0xCD], spare = []\<rparr> (module_state b) = Some (Done r, s')"
proof -
  let ?d = "\<lparr>visible = [0, 7, 0, 1, 2, 0xAB, 0xCD], spare = []\<rparr>"
  obtain started b where d: "modbus_main demo_impl demo_world demo_pusher 2 (one_module ''modbus'' [(''name'', ''mb'')] demo_xml) = (Done None, started, [LiveServer b])"
    "srv_registers (module_state b) ''holding'' = Some [7 \<mapsto> demo_reg ''holding'' ''uint16'' 7 1 0 ''bus.voltage'']"
    using demo_server_program by blast
  have f: "complete_frame 16 ?d"
    by (simp add: complete_frame_def req_range_def req_word_def slice_def get16_def be_decode_def)
  have "\<not> overreaches ?d (module_state b)"
    by (rule no_overreach [OF f d(2)]) (simp add: demo_reg_def)
  with modbus_program_answers [OF d(1) _ serving.started f] d(1) f show ?thesis by auto
qed

text \<open>A client with one register, and a device that has 42 in every holding register.\<close>

definition demo_client_xml :: "element list" where
  "demo_client_xml =
     [node ''endpoint'' [] ''host'' [],
      node ''register'' [(''type'', ''holding'')] [] [node ''address'' [] ''7'' [], node ''tag'' [] ''v'' []]]"

lemma demo_client_program:
  "\<exists>started b c h. modbus_main demo_impl demo_world demo_pusher 2 (one_module ''modbus'' [(''mode'', ''client'')] demo_client_xml) =
     (Done None, started, [LiveClient b]) \<and> module_state b = Done (c, Some h, ()) \<and> sock (cl_pusher c) (attempts (cl_pusher c)) \<and>
     cl_registers c = [''v'' \<mapsto> demo_reg ''holding'' ''uint16'' 7 1 0 ''v'']"
proof -
  let ?m0 = "MClient (NewClient ''modbus-client'' demo_pusher)"
  let ?c = "(NewClient ''modbus-client'' demo_pusher)\<lparr>cl_endpoint := ''host'', cl_registers := [''v'' \<mapsto> demo_reg ''holding'' ''uint16'' 7 1 0 ''v'']\<rparr>"
  have at: "Atoi ''7'' = (7, True)" by (simp add: Atoi_def digits_val_def digit_val_def is_digit_def)
  have sc: "f64_to_int demo_impl True 64 (f64_abs (f64_of_int 0)) = 0" by (simp add: fp_eval cong: let_weak_cong)
  have conf: "Client_Configure demo_impl demo_client_xml (NewClient ''modbus-client'' demo_pusher) = Inr ?c"
    by (simp add: demo_client_xml_def client_child_def parse_register_def Register_Init_def validRegisterTypes_def
        validDataTypes_def at sc demo_reg_def NewClient_def)
  have "\<exists>b h. Client_Run demo_impl demo_device open_zmq [] [] ?c () = Done (None, Some b) \<and>
      module_state b = Done (?c\<lparr>cl_pusher := \<lparr>sock = (\<lambda>_. True), attempts = 0, sent = []\<rparr>\<rparr>, Some h, ())"
    by (simp add: Client_Run_def Client_subscribes_def client_handler_of_def getEndpoint_def NewClient_def subscribed_def
        open_sockets empty_subscriber_def AddUpdateHandler_def Subscriber_Start_def Let_def split: prod.split)
  then obtain b h where b: "Client_Run demo_impl demo_device open_zmq [] [] ?c () = Done (None, Some b)"
    "module_state b = Done (?c\<lparr>cl_pusher := \<lparr>sock = (\<lambda>_. True), attempts = 0, sent = []\<rparr>\<rparr>, Some h, ())" by blast
  have start: "modbus_start demo_impl demo_world (MClient ?c) [] [] = Done (None, Some (LiveClient b))"
    by (simp add: modbus_start_def demo_world_def b(1))
  have "modbus_main demo_impl demo_world demo_pusher 2 (one_module ''modbus'' [(''mode'', ''client'')] demo_client_xml) =
      (Done None, [MClient ?c], [LiveClient b])"
    unfolding modbus_main_def
    by (rule program_main_one [where m = ?m0 and ?g1.0 = "[]"])
      (simp_all add: modbus_registry_def AddModuleFactory_def no_modules_def NewModule_def to_lower_char_def modbus_ops_def own_configure_def
        modbus_configure_def conf start launch_def)
  moreover have "sock (cl_pusher (?c\<lparr>cl_pusher := \<lparr>sock = (\<lambda>_. True), attempts = 0, sent = []\<rparr>\<rparr>)) n"
    "cl_registers (?c\<lparr>cl_pusher := \<lparr>sock = (\<lambda>_. True), attempts = 0, sent = []\<rparr>\<rparr>) = [''v'' \<mapsto> demo_reg ''holding'' ''uint16'' 7 1 0 ''v'']" for n by simp_all
  ultimately show ?thesis using b(2) by blast
qed

lemma demo_request:
  "request_points demo_impl demo_device [''v'' \<mapsto> demo_reg ''holding'' ''uint16'' 7 1 0 ''v''] ''v'' d = [point ''v'' (f64_of_int 42)]"
proof -
  have "get16 [0, 42] = Some 42" by (simp add: get16_def be_decode_def)
  moreover have "scale_down demo_impl (demo_reg ''holding'' ''uint16'' 7 1 0 ''v'') (f64_of_int 42) = f64_of_int 42"
    by (rule scale_none_int) (simp_all add: demo_reg_def)
  ultimately have "Register_Value demo_impl (demo_reg ''holding'' ''uint16'' 7 1 0 ''v'') [0, 42] = Done (Inr (f64_of_int 42))"
    by (simp add: Register_Value_def read_as_def) (simp add: demo_reg_def)
  moreover have "read_remote demo_device (demo_reg ''holding'' ''uint16'' 7 1 0 ''v'') d = (Inr [0, 42], d)"
    by (simp add: read_remote_def demo_device_def demo_reg_def)
  ultimately show ?thesis by (simp add: request_points_def remote_value_def)
qed

theorem modbus_program_polls_witness:
  "\<exists>started b c h d c' d' env. modbus_main demo_impl demo_world demo_pusher 2 (one_module ''modbus'' [(''mode'', ''client'')] demo_client_xml) =
     (Done None, started, [LiveClient b]) \<and> module_state b = Done (c, Some h, d) \<and>
     poll_tick demo_impl demo_device [''v''] (c, d) = Done (c', d') \<and>
     sent (cl_pusher c') = sent (cl_pusher c) @ [(''RUNTIME'', P_Envelope env)] \<and>
     env_Status env = (\<lparr>Measurements = [point ''v'' (f64_of_int 42), connected_point (cl_name c) True]\<rparr>, None)"
proof -
  obtain started b c h where d: "modbus_main demo_impl demo_world demo_pusher 2 (one_module ''modbus'' [(''mode'', ''client'')] demo_client_xml) =
      (Done None, started, [LiveClient b])" "module_state b = Done (c, Some h, ())"
      "sock (cl_pusher c) (attempts (cl_pusher c))" "cl_registers c = [''v'' \<mapsto> demo_reg ''holding'' ''uint16'' 7 1 0 ''v'']" using demo_client_program by blast
  have w: "mw_api demo_world = demo_device" "api_bits demo_device" by (simp_all add: demo_world_def api_bits_def demo_device_def dead_device_def)
  have "LiveClient b \<in> set [LiveClient b]" "distinct [''v'']" by simp_all
  from modbus_program_polls [OF d(1) this(1) polling.started, unfolded w, OF w(2) this(2)] d(2,4)
  obtain c' ds points where r: "poll_tick demo_impl demo_device [''v''] (c, ()) = Done (c', last ds)"
    "reads_device demo_impl demo_device [''v'' \<mapsto> demo_reg ''holding'' ''uint16'' 7 1 0 ''v''] [''v''] ds points"
    "let status = \<lparr>Measurements = points @ [connected_point (cl_name c) (points \<noteq> [])]\<rparr>
       in if points_finite points \<and> sock (cl_pusher c) (attempts (cl_pusher c))
          then \<exists>env. sent (cl_pusher c') = sent (cl_pusher c) @ [(''RUNTIME'', P_Envelope env)] \<and>
                     Sender env = cl_name c \<and> env_Status env = (status, None)
          else sent (cl_pusher c') = sent (cl_pusher c)" by auto
  have "points = [point ''v'' (f64_of_int 42)]" using r(2) by (simp add: reads_device_def demo_request)
  moreover have "points_finite [point ''v'' (f64_of_int 42)]" using f64_of_int_exact(2) [of 42] by (simp add: points_finite_def point_def)
  ultimately show ?thesis using d(1,2,3) r(1,3) by (auto simp: Let_def split: if_splits)
qed

section \<open>The logic program\<close>

definition logic_ops :: "go_impl \<Rightarrow> ('p, 'r) expr_api \<Rightarrow> zmq_api \<Rightarrow> ('p Logic, 'p Logic outcome bus list) module_ops" where
  "logic_ops impl api zmq =
     \<lparr>Name = lg_name, Configure = own_configure (\<lambda>e. Logic_Configure impl api (ChildElements e)),
      Run = (\<lambda>l. Some (\<lambda>pub pull. launch (Logic_Run zmq pub pull l)))\<rparr>"

definition logic_factory :: "Pusher \<Rightarrow> 'p Logic factory" where
  "logic_factory p e = Inr (NewLogicModule p e)"

definition logic_registry :: "Pusher \<Rightarrow> 'p Logic otsim" where
  "logic_registry p = AddModuleFactory ''logic'' (logic_factory p) no_modules"

definition logic_main :: "go_impl \<Rightarrow> ('p, 'r) expr_api \<Rightarrow> zmq_api \<Rightarrow> Pusher \<Rightarrow> nat \<Rightarrow> document \<Rightarrow> int option outcome \<times> 'p Logic list \<times> 'p Logic outcome bus list" where
  "logic_main impl api zmq p argc doc = program_main (logic_ops impl api zmq) (logic_registry p) argc doc []"

interpretation lg: launching "logic_ops impl api zmq" "\<lambda>l. \<exists>es n. Logic_Configure impl api es (NewLogic n p) = Inr l" "logic_factory p"
    "\<lambda>l pub pull. Logic_Run zmq pub pull l" for impl api zmq p
  by unfold_locales (auto simp: logic_ops_def own_configure_def logic_factory_def NewLogicModule_def split: sum.splits)

lemma logic_registered: "ran (factories (logic_registry p)) \<subseteq> {logic_factory p}" "runners (logic_registry p) = []"
  by (simp_all add: logic_registry_def AddModuleFactory_def no_modules_def)

text \<open>C40: the logic program never runs a line it has not compiled. When its main function has come to wait, in every state its modules
  reach on the bus and with every tick, each line that is run has a compiled program, every variable with a tag is declared
  and has a value, and a tag only ever sets a declared variable.\<close>

theorem logic_program_invariant:
  assumes "logic_main impl api zmq p argc doc = (Done None, started, g)" "b0 \<in> set g" "ticking api b0 b" "module_state b = Done l"
  shows "(\<forall>i < length (lg_order l). lg_order l ! i \<noteq> [] \<longrightarrow> lg_program l i \<noteq> None) \<and>
    dom (lg_varToTag l) = set (lg_variables l) \<and> ran (lg_tagToVar l) \<subseteq> set (lg_variables l) \<and>
    set (lg_variables l) \<subseteq> dom (lg_env l)"
proof -
  obtain l0 es n pub pull where l0: "Logic_Configure impl api es (NewLogic n p) = Inr l0" "Logic_Run zmq pub pull l0 = Done (None, Some b0)"
    using lg.program_live [OF assms(1) [unfolded logic_main_def] logic_registered assms(2)] by blast
  have "logic_run impl api l" using ticking_is_run [OF assms(3) l0 assms(4)] by blast
  then show ?thesis using logic_run_ok unfolding logic_ok_def by blast
qed

section \<open>The MQTT program\<close>

text \<open>Run returns when the first connection stands.\<close>

definition Mqtt_start :: "zmq_api \<Rightarrow> brokers \<Rightarrow> nat \<Rightarrow> 't MQTTClient \<Rightarrow> string \<Rightarrow> (string option \<times> 't mqtt_module option) outcome" where
  "Mqtt_start zmq up fuel c pub =
     and_then (mqtt_started zmq pub c) (\<lambda>r.
       case r of
         Inl err \<Rightarrow> Done (Some err, None)
       | Inr s \<Rightarrow>
           and_then (connect_loop up fuel (mm_attempts s) (mm_client s)) (\<lambda>(n, c').
             Done (None, Some (s\<lparr>mm_client := c', mm_attempts := Suc n, mm_conns := (mm_conns s)[0 := new_conn\<lparr>cn_phase := Connected, cn_up := True\<rparr>]\<rparr>))))"

definition mqtt_ops :: "go_impl \<Rightarrow> 't mqtt_env \<Rightarrow> zmq_api \<Rightarrow> brokers \<Rightarrow> nat \<Rightarrow> ('t MQTTClient, 't mqtt_module list) module_ops" where
  "mqtt_ops impl env zmq up fuel =
     \<lparr>Name = mq_name, Configure = own_configure (Mqtt_Configure impl env),
      Run = (\<lambda>c. Some (\<lambda>pub pull. launch (Mqtt_start zmq up fuel c pub)))\<rparr>"

definition mqtt_registry :: "'t \<Rightarrow> 't MQTTClient otsim" where
  "mqtt_registry t = AddModuleFactory ''mqtt'' (NewMqttModule t) no_modules"

definition mqtt_main :: "go_impl \<Rightarrow> 't mqtt_env \<Rightarrow> zmq_api \<Rightarrow> brokers \<Rightarrow> nat \<Rightarrow> 't \<Rightarrow> nat \<Rightarrow> document \<Rightarrow> int option outcome \<times> 't MQTTClient list \<times> 't mqtt_module list" where
  "mqtt_main impl env zmq up fuel t argc doc = program_main (mqtt_ops impl env zmq up fuel) (mqtt_registry t) argc doc []"

interpretation mq: launching "mqtt_ops impl env zmq up fuel" "\<lambda>c. \<exists>e name. Mqtt_Configure impl env e (NewMQTT t name) = Inr c" "NewMqttModule t"
    "\<lambda>c pub pull. Mqtt_start zmq up fuel c pub" for impl env zmq up fuel t
  by unfold_locales (auto simp: mqtt_ops_def own_configure_def NewMqttModule_def split: sum.splits)

lemma mqtt_life_steps: "mqtt_life impl env up s \<Longrightarrow> mqtt_steps up env es s = Done (Some s') \<Longrightarrow> mqtt_life impl env up s'"
  by (induction es arbitrary: s) (auto split: outcome.splits option.splits intro: mqtt_life.step)

text \<open>What the MQTT program runs when its main function waits is a life of the module.\<close>

lemma mqtt_program_lives:
  assumes "mqtt_main impl env zmq up fuel t argc doc = (Done None, started, g)" "s \<in> set g"
  shows "mqtt_life impl env up s"
proof -
  have reg: "ran (factories (mqtt_registry t)) \<subseteq> {NewMqttModule t}" "runners (mqtt_registry t) = []"
    by (simp_all add: mqtt_registry_def AddModuleFactory_def no_modules_def)
  obtain c e name pub where c: "Mqtt_Configure impl env e (NewMQTT t name) = Inr c" "Mqtt_start zmq up fuel c pub = Done (None, Some s)"
    using mq.program_live [OF assms(1) [unfolded mqtt_main_def] reg assms(2)] by blast
  obtain s0 n c' where s0: "mqtt_started zmq pub c = Done (Inr s0)" "connect_loop up fuel (mm_attempts s0) (mm_client s0) = Done (n, c')"
    "s = s0\<lparr>mm_client := c', mm_attempts := Suc n, mm_conns := (mm_conns s0)[0 := new_conn\<lparr>cn_phase := Connected, cn_up := True\<rparr>]\<rparr>"
    using c(2) by (cases "mqtt_started zmq pub c") (auto simp: Mqtt_start_def and_then_Done split: sum.splits)
  have conns: "0 < length (mm_conns s0)" "mm_conns s0 ! 0 = new_conn"
    using s0(1) by (auto simp: mqtt_started_def split: if_splits outcome.splits)
  from attempts_are_loop [OF s0(2) conns, of env] s0(3) mqtt_life_steps [OF mqtt_life.started [OF c(1) s0(1)]]
  show ?thesis by blast
qed

section \<open>The SunSpec program\<close>

text \<open>All servers of a program keep their registers in one heap, which starts with the registers of the package. What a refused
  server put there is not reachable.\<close>

datatype 'd sunspec_live = LiveSSServer "SunSpecServer bus" | LiveSSClient "(SunSpecClient \<times> 'd) outcome bus"

type_synonym 'd sunspec_state = "heap \<times> 'd sunspec_live list"

record 'd sunspec_world =
  sw_schemas :: schemas
  sw_zmq :: zmq_api
  sw_ListenTCP :: "string \<Rightarrow> string option"
  sw_api :: "'d sunspec_api"
  sw_device :: "SunSpecClient \<Rightarrow> 'd"
  sw_visit :: "model_data \<Rightarrow> model_data"
  sw_models :: nat

definition sunspec_configure :: "go_impl \<Rightarrow> schemas \<Rightarrow> element \<Rightarrow> sunspec_module \<times> 'd sunspec_state \<Rightarrow> string option \<times> sunspec_module \<times> 'd sunspec_state" where
  "sunspec_configure impl sch e st =
     (case st of (m, h, l) \<Rightarrow>
        (case m of
           SSServer s \<Rightarrow>
             (case SunSpec_Configure sch (ChildElements e) (h, s) of
                Inl err \<Rightarrow> (Some err, m, h, l)
              | Inr (h', s') \<Rightarrow> (None, SSServer s', h', l))
         | SSClient c \<Rightarrow>
             (case SunSpecClient_Configure impl (ChildElements e) c of
                Inl err \<Rightarrow> (Some err, m, h, l)
              | Inr c' \<Rightarrow> (None, SSClient c', h, l))))"

definition sunspec_begin :: "go_impl \<Rightarrow> 'd sunspec_world \<Rightarrow> sunspec_module \<Rightarrow> string \<Rightarrow> string \<Rightarrow> (string option \<times> 'd sunspec_live option) outcome" where
  "sunspec_begin impl w m pub pull =
     (case m of
        SSServer s \<Rightarrow> map_outcome (map_prod id (\<lambda>b. Some (LiveSSServer b))) (SunSpecServer_Run (sw_zmq w) (sw_ListenTCP w) pub pull s)
      | SSClient c \<Rightarrow>
          map_outcome (map_prod id (\<lambda>b. Some (LiveSSClient b)))
            (SunSpecClient_start impl (sw_schemas w) (sw_api w) (sw_zmq w) (sw_visit w) (sw_models w) pub pull c (sw_device w c)))"

definition sunspec_ops :: "go_impl \<Rightarrow> 'd sunspec_world \<Rightarrow> (sunspec_module, 'd sunspec_state) module_ops" where
  "sunspec_ops impl w =
     \<lparr>Name = (\<lambda>m. case m of SSServer s \<Rightarrow> sv_name s | SSClient c \<Rightarrow> sc_name c), Configure = sunspec_configure impl (sw_schemas w),
      Run = (\<lambda>m. Some (\<lambda>pub pull (h, l). case launch (sunspec_begin impl w m pub pull) l of (r, l') \<Rightarrow> (r, h, l')))\<rparr>"

text \<open>The package of the server registers a factory of its own under the same tag, before the one of sunspec.go replaces it.\<close>

definition server_factory :: "Pusher \<Rightarrow> sunspec_module factory" where
  "server_factory p e = Inr (SSServer (NewSunSpecServer (SelectAttrValue e ''name'' ''sunspec'') p))"

definition sunspec_registry :: "Pusher \<Rightarrow> sunspec_module otsim" where
  "sunspec_registry p = AddModuleFactory ''sunspec'' (NewSunSpecModule p) (AddModuleFactory ''sunspec'' (server_factory p) no_modules)"

definition sunspec_main :: "go_impl \<Rightarrow> 'd sunspec_world \<Rightarrow> Pusher \<Rightarrow> nat \<Rightarrow> document \<Rightarrow> int option outcome \<times> sunspec_module list \<times> 'd sunspec_state" where
  "sunspec_main impl w p argc doc = program_main (sunspec_ops impl w) (sunspec_registry p) argc doc (package_heap, [])"

lemma sunspec_registered: "ran (factories (sunspec_registry p)) \<subseteq> {NewSunSpecModule p}" "runners (sunspec_registry p) = []"
  by (simp_all add: sunspec_registry_def AddModuleFactory_def no_modules_def)

text \<open>Configuring a server adds registers and changes values of old ones, but neither moves nor renames them.\<close>

definition names_kept :: "heap \<Rightarrow> heap \<Rightarrow> bool" where
  "names_kept h h' \<longleftrightarrow> length h \<le> length h' \<and> (\<forall>i < length h. ss_Name (h' ! i) = ss_Name (h ! i))"

lemma names_kept_refl: "names_kept h h" and names_kept_trans: "names_kept h h1 \<Longrightarrow> names_kept h1 h2 \<Longrightarrow> names_kept h h2"
  by (auto simp: names_kept_def)

lemma names_kept_update: "ss_Name r = ss_Name (h ! ref) \<Longrightarrow> names_kept h (h[ref := r])"
  unfolding names_kept_def by (metis length_list_update nth_list_update_eq nth_list_update_neq order_refl)

lemma add_points_names: "add_points i model ps (a, h, s) = Inr (a', h', s') \<Longrightarrow> names_kept h h'"
proof (induction ps arbitrary: a h s)
  case (Cons p ps)
  then obtain r where r: "point_register i model p = Inr r" by (auto split: sum.splits)
  have "names_kept h (h @ [r])" by (simp add: names_kept_def nth_append)
  moreover have "names_kept (h @ [r]) h'" by (rule Cons.IH) (use Cons.prems r in \<open>simp add: Let_def\<close>)
  ultimately show ?case by (rule names_kept_trans)
qed (simp add: names_kept_refl)

lemma set_points_names: "set_points cs (a, h, s) = Inr (a', h', s') \<Longrightarrow> names_kept h h'"
proof (induction cs arbitrary: h s)
  case (Cons c cs)
  then obtain ref where ref: "sv_points s (Tag c) = Some ref" by (auto split: option.splits)
  obtain h1 s1 where 1: "set_point c ref h s = (h1, s1)" by fastforce
  have "names_kept h h1"
    using 1 by (auto simp: set_point_def Let_def intro!: names_kept_update split: if_splits option.splits)
  moreover have "names_kept h1 h'" by (rule Cons.IH) (use Cons.prems ref 1 in simp)
  ultimately show ?case by (rule names_kept_trans)
qed (simp add: names_kept_refl)

lemma sunspec_child_names:
  assumes "sunspec_child sch e (m, a, h, s) = Inr (m', a', h', s')"
  shows "names_kept h h'"
proof (cases "Tag e = ''model''")
  case True
  then obtain i model cfg1 where cfg1: "add_points i model (sj_points model) (a, h, s) = Inr cfg1"
    "set_points (ChildElements e) cfg1 = Inr (a', h', s')"
    using assms by (auto simp: sunspec_child_def add_model_def split: option.splits prod.splits sum.splits if_splits)
  obtain a1 h1 s1 where "cfg1 = (a1, h1, s1)" by (cases cfg1) auto
  note c = cfg1 [unfolded this]
  show ?thesis by (rule names_kept_trans [OF add_points_names [OF c(1)] set_points_names [OF c(2)]])
next
  case False
  with assms show ?thesis by (auto simp: sunspec_child_def names_kept_refl split: if_splits)
qed

lemma SunSpec_Configure_names:
  assumes "SunSpec_Configure sch es (h, s) = Inr (h', s')"
  shows "names_kept h h'"
proof -
  have "sunspec_children sch es (m, a, h0, s0) = Inr (m', a', h', s1) \<Longrightarrow> names_kept h0 h'" for m a h0 s0 m' a' s1
  proof (induction es arbitrary: m a h0 s0)
    case (Cons e es)
    then obtain m1 a1 h1 s2 where c: "sunspec_child sch e (m, a, h0, s0) = Inr (m1, a1, h1, s2)" "sunspec_children sch es (m1, a1, h1, s2) = Inr (m', a', h', s1)"
      by (cases "sunspec_child sch e (m, a, h0, s0)") auto
    show ?case by (rule names_kept_trans [OF sunspec_child_names [OF c(1)] Cons.IH [OF c(2)]])
  qed (simp add: names_kept_refl)
  with assms show ?thesis by (auto simp: SunSpec_Configure_def split: sum.splits if_splits)
qed

lemma heap_ok_shared:
  assumes "heap_ok h x" "names_kept h h'" "heap_ok h' s'"
  shows "heap_ok h' x"
proof -
  have "\<And>k ref. sv_points x k = Some ref \<Longrightarrow> 3 \<le> ref \<and> ref < length h \<and> ss_Name (h ! ref) = k" by (rule heap_okD(3) [OF assms(1)])
  moreover have "\<And>a ref. sv_registers x a = Some ref \<Longrightarrow> ref < length h" by (rule heap_okD(2) [OF assms(1)])
  moreover have "length h \<le> length h'" "\<And>i. i < length h \<Longrightarrow> ss_Name (h' ! i) = ss_Name (h ! i)" using assms(2) by (simp_all add: names_kept_def)
  moreover have "3 \<le> length h'" "\<forall>r \<in> set h'. ss_ok r \<and> (string_type (ss_DataType r) \<longrightarrow> ss_Tag r = [])" using assms(3) unfolding heap_ok_def by blast+
  ultimately show ?thesis unfolding heap_ok_def by fastforce
qed

definition sunspec_good :: "'d sunspec_state \<Rightarrow> sunspec_module \<Rightarrow> bool" where
  "sunspec_good g m = (case m of SSServer s \<Rightarrow> heap_ok (fst g) s | SSClient c \<Rightarrow> True)"

lemma heap_ok_new: "heap_ok h (NewSunSpecServer n p) \<longleftrightarrow> heap_ok h (NewSunSpecServer n' p')"
  by (simp add: heap_ok_def NewSunSpecServer_def)

lemma sunspec_configured:
  assumes "heap_ok (fst g) (NewSunSpecServer n p)" "NewSunSpecModule p e = Inr m" "sunspec_configure impl sch e' (m, g) = (err, m', g')"
  shows "heap_ok (fst g') (NewSunSpecServer n p)" "sunspec_good g x \<Longrightarrow> sunspec_good g' x" "err = None \<Longrightarrow> sunspec_good g' m'"
proof -
  obtain h l where g: "g = (h, l)" by (cases g)
  obtain n' where m: "m = SSServer (NewSunSpecServer n' p) \<or> m = SSClient (NewSunSpecClient n' p)"
    using assms(2) unfolding NewSunSpecModule_def Let_def by (auto simp del: map_eq_Cons_conv split: if_splits)
  have same: "sunspec_good g' x = sunspec_good g x" if "fst g' = h" for x
    using that g by (simp add: sunspec_good_def split: sunspec_module.split)
  consider (kept) "fst g' = h" "err = None \<Longrightarrow> \<exists>c. m' = SSClient c"
    | (made) h' s' where "m' = SSServer s'" "fst g' = h'" "SunSpec_Configure sch (ChildElements e') (h, NewSunSpecServer n' p) = Inr (h', s')"
    using m assms(3) g by (auto simp: sunspec_configure_def split: sum.splits)
  then have "heap_ok (fst g') (NewSunSpecServer n p) \<and> (sunspec_good g x \<longrightarrow> sunspec_good g' x) \<and> (err = None \<longrightarrow> sunspec_good g' m')"
  proof cases
    case kept
    have "heap_ok (fst g') (NewSunSpecServer n p)" using assms(1) g kept(1) by simp
    moreover have "err = None \<longrightarrow> sunspec_good g' m'" using kept(2) by (auto simp: sunspec_good_def)
    ultimately show ?thesis using same [OF kept(1), of x] by blast
  next
    case made
    have "heap_ok h (NewSunSpecServer n' p)" using assms(1) g heap_ok_new [of h n p n' p] by simp
    then have ok: "heap_ok h' s'" by (rule SunSpec_Configure_ok [OF made(3)])
    have keep: "heap_ok h y \<Longrightarrow> heap_ok h' y" for y by (rule heap_ok_shared [OF _ SunSpec_Configure_names [OF made(3)] ok])
    then show ?thesis using assms(1) g ok made(1,2) by (auto simp: sunspec_good_def split: sunspec_module.splits)
  qed
  then show "heap_ok (fst g') (NewSunSpecServer n p)" "sunspec_good g x \<Longrightarrow> sunspec_good g' x" "err = None \<Longrightarrow> sunspec_good g' m'" by blast+
qed

interpretation sn: module_kind "sunspec_ops impl w" sunspec_good "\<lambda>g. heap_ok (fst g) (NewSunSpecServer [] p)" "NewSunSpecModule p" for impl w p
  by unfold_locales (simp_all add: sunspec_ops_def sunspec_configured)

lemma run_all_sunspec:
  assumes "run_all (sunspec_ops impl w) pub pull ms (h, l) = Some (h', l')"
  shows "h' = h \<and> (\<forall>x \<in> set l'. x \<in> set l \<or> (\<exists>m \<in> set ms. sunspec_begin impl w m pub pull = Done (None, Some x)))"
  using assms
proof (induction ms arbitrary: l)
  case (Cons m ms)
  obtain y where y: "sunspec_begin impl w m pub pull = Done (None, y)"
    "run_all (sunspec_ops impl w) pub pull ms (h, l @ (case y of None \<Rightarrow> [] | Some b \<Rightarrow> [b])) = Some (h', l')"
    using Cons.prems by (auto simp: sunspec_ops_def launch_def split: outcome.splits prod.splits option.splits)
  from Cons.IH [OF y(2)] y(1) show ?case by (auto split: option.splits)
qed simp

lemma sunspec_configure_keeps:
  "module_children (sunspec_ops impl w) es s (h, l) = (err, s', h', l') \<Longrightarrow> l' = l"
proof (induction es arbitrary: s h)
  case (Cons e es)
  have c: "l1 = l" if "sunspec_configure impl (sw_schemas w) e (m, h, l) = (r, m1, h1, l1)" for m r m1 h1 l1
    using that by (auto simp: sunspec_configure_def split: sunspec_module.splits sum.splits prod.splits)
  show ?case
  proof (cases "factories s (Tag e)")
    case (Some f)
    show ?thesis
    proof (cases "f e")
      case (Inr m)
      obtain r m1 h1 l1 where c1: "sunspec_configure impl (sw_schemas w) e (m, h, l) = (r, m1, h1, l1)"
        by (cases "sunspec_configure impl (sw_schemas w) e (m, h, l)") auto
      have ops: "Configure (sunspec_ops impl w) = sunspec_configure impl (sw_schemas w)" by (simp add: sunspec_ops_def)
      show ?thesis using Cons Some Inr c1 c [OF c1] by (cases r) (auto simp: ops)
    qed (use Cons.prems Some in simp)
  qed (use Cons in simp)
qed simp

text \<open>What the SunSpec program has running when its main function waits.\<close>

lemma sunspec_program_live:
  assumes "sunspec_main impl w p argc doc = (Done None, started, h, l)" "LiveSSServer b \<in> set l"
  shows "hears [sunspec_handleMsgBusStatus] [] b \<and> heap_ok h (module_state b)"
proof -
  have r: "Run (sunspec_ops impl w) m \<noteq> None" for m by (simp add: sunspec_ops_def)
  obtain s' h0 l0 where s': "ParseConfigFile (sunspec_ops impl w) doc (sunspec_registry p) (package_heap, []) = (None, s', h0, l0)"
    "runners s' = started" "run_all (sunspec_ops impl w) (ot_pubEndpoint s') (ot_pullEndpoint s') started (h0, l0) = Some (h, l)"
    by (rule program_runs_all [OF assms(1) [unfolded sunspec_main_def] r]) auto
  have "l0 = []"
    using s'(1) by (auto simp: ParseConfigFile_def Let_def split: sum.splits option.splits prod.splits dest: sunspec_configure_keeps)
  with run_all_sunspec [OF s'(3)] assms(2) obtain m where m: "h = h0" "m \<in> set started"
    "sunspec_begin impl w m (ot_pubEndpoint s') (ot_pullEndpoint s') = Done (None, Some (LiveSSServer b))" by auto
  then obtain s where s: "m = SSServer s" "SunSpecServer_Run (sw_zmq w) (sw_ListenTCP w) (ot_pubEndpoint s') (ot_pullEndpoint s') s = Done (None, b)"
    by (cases m) (auto simp: sunspec_begin_def map_outcome_Done)
  have "heap_ok (fst (package_heap, [])) (NewSunSpecServer [] p)" by (simp add: new_server_ok)
  from sn.parsed_good [OF sunspec_registered this s'(1)] m(2) s'(2) have "sunspec_good (h0, l0) m" by auto
  then have "heap_ok h s" using m(1) s(1) by (simp add: sunspec_good_def)
  then have "heap_ok h (module_state b)" using SunSpecServer_Run_state(1) [OF s(2)] heap_ok_same_maps [of "module_state b" s h] by auto
  with ss_bus.heard [OF s(2)] show ?thesis by blast
qed

text \<open>The servers of a SunSpec program do not disturb each other: although they share one heap of registers, when the main function has come to
  wait and each of them has received any messages, a read request with a complete frame ends without a panic, unless a point is bound to the
  empty tag.\<close>

lemma sunspec_program_reads:
  assumes "sunspec_main impl w p argc doc = (Done None, started, h, l)" "LiveSSServer b0 \<in> set l" "run_loop ms b0 = Done b"
    "sv_tags (module_state b) [] = None" "req_range data = Some (start, k)" "0 \<le> k"
  shows "\<exists>r. sunspec_readHoldingRegisters impl data (h, module_state b) = Done r"
proof -
  have "hears [sunspec_handleMsgBusStatus] [] b0 \<Longrightarrow> heap_ok h (module_state b0) \<Longrightarrow> run_loop ms b0 = Done b \<Longrightarrow> heap_ok h (module_state b)" for b0
  proof (induction ms arbitrary: b0)
    case (Cons m ms)
    then obtain b1 where b1: "run_iteration m b0 = Done b1" "run_loop ms b1 = Done b" by (auto split: outcome.splits)
    have "module_state b1 = module_state b0 \<or> (\<exists>env. module_state b1 = sunspec_handleMsgBusStatus env (module_state b0))"
      using hears_step [OF Cons.prems(1) b1(1)] by auto
    then have "heap_ok h (module_state b1)" using Cons.prems(2) heap_ok_same_maps [of "module_state b1" "module_state b0" h]
      by (auto simp: sunspec_handleMsgBusStatus_frame)
    with Cons.IH hears_kept [OF Cons.prems(1) b1(1)] b1(2) show ?case by blast
  qed simp
  with sunspec_program_live [OF assms(1,2)] assms(3) have ok: "heap_ok h (module_state b)" by blast
  obtain res where "sunspec_read_loop impl h (module_state b) (nat k) start (start + k) 0 [] = Done res"
    using sunspec_read_loop_total [OF ok assms(4)] by force
  then show ?thesis using assms(5) by (cases res) (auto simp: sunspec_readHoldingRegisters_def)
qed

section \<open>The telnet, Node-RED and Tailscale programs\<close>

definition telnet_ops :: "zmq_api \<Rightarrow> (string \<Rightarrow> string option outcome) \<Rightarrow> (Telnet, unit) module_ops" where
  "telnet_ops zmq ListenAndServe =
     \<lparr>Name = tn_name, Configure = own_configure Telnet_Configure, Run = (\<lambda>t. Some (telnet_runner zmq ListenAndServe t))\<rparr>"

definition telnet_registry :: "Pusher \<Rightarrow> Telnet otsim" where
  "telnet_registry p = AddModuleFactory ''telnet'' (NewTelnetModule p) no_modules"

definition telnet_main :: "zmq_api \<Rightarrow> (string \<Rightarrow> string option outcome) \<Rightarrow> Pusher \<Rightarrow> nat \<Rightarrow> document \<Rightarrow> int option outcome \<times> Telnet list \<times> unit" where
  "telnet_main zmq ListenAndServe p argc doc = program_main (telnet_ops zmq ListenAndServe) (telnet_registry p) argc doc ()"

text \<open>What these modules leave running is a keeper of a child process.\<close>

definition nodered_runner :: "os_api \<Rightarrow> nodered_env \<Rightarrow> NodeRED \<Rightarrow> string \<Rightarrow> string \<Rightarrow> keeper list \<Rightarrow> run_error option outcome \<times> keeper list" where
  "nodered_runner os env n pub pull g =
     (case NodeRED_Run os env pub pull n of Inl err \<Rightarrow> (Done (Some err), g) | Inr (text, k) \<Rightarrow> (Done None, g @ [k]))"

definition nodered_ops :: "os_api \<Rightarrow> nodered_env \<Rightarrow> (string \<Rightarrow> string option) \<Rightarrow> (NodeRED, keeper list) module_ops" where
  "nodered_ops os env hash = \<lparr>Name = nr_name, Configure = own_configure (NodeRED_Configure hash), Run = (\<lambda>n. Some (nodered_runner os env n))\<rparr>"

definition nodered_registry :: "NodeRED otsim" where
  "nodered_registry = AddModuleFactory ''node-red'' NewNodeREDModule no_modules"

definition nodered_main :: "os_api \<Rightarrow> nodered_env \<Rightarrow> (string \<Rightarrow> string option) \<Rightarrow> nat \<Rightarrow> document \<Rightarrow> int option outcome \<times> NodeRED list \<times> keeper list" where
  "nodered_main os env hash argc doc = program_main (nodered_ops os env hash) nodered_registry argc doc []"

record tailscale_world =
  tw_os :: os_api
  tw_zmq :: zmq_api
  tw_command :: "string \<Rightarrow> string list \<Rightarrow> bool"
  tw_socket :: "socket_stat list"
  tw_env_key :: string
  tw_hostname :: "string option"

definition tailscale_runner :: "tailscale_world \<Rightarrow> Tailscale \<Rightarrow> string \<Rightarrow> string \<Rightarrow> keeper list \<Rightarrow> run_error option outcome \<times> keeper list" where
  "tailscale_runner w t pub pull g =
     (case Tailscale_Run (tw_os w) (tw_zmq w) (tw_command w) (tw_socket w) pull t of
        Done (err, k, t') \<Rightarrow> (Done err, g @ (case k of None \<Rightarrow> [] | Some x \<Rightarrow> [x]))
      | Panic \<Rightarrow> (Panic, g)
      | Diverge \<Rightarrow> (Diverge, g))"

definition tailscale_ops :: "tailscale_world \<Rightarrow> (Tailscale, keeper list) module_ops" where
  "tailscale_ops w =
     \<lparr>Name = ts_name, Configure = own_configure (Tailscale_Configure (tw_env_key w) (tw_hostname w)), Run = (\<lambda>t. Some (tailscale_runner w t))\<rparr>"

definition tailscale_registry :: "Pusher \<Rightarrow> Tailscale otsim" where
  "tailscale_registry p = AddModuleFactory ''tailscale'' (NewTailscaleModule p) no_modules"

definition tailscale_main :: "tailscale_world \<Rightarrow> Pusher \<Rightarrow> nat \<Rightarrow> document \<Rightarrow> int option outcome \<times> Tailscale list \<times> keeper list" where
  "tailscale_main w p argc doc = program_main (tailscale_ops w) (tailscale_registry p) argc doc []"

section \<open>The CPU program\<close>

text \<open>The modules are a variable of the package, and so part of the state of the program, with the goroutines and processes that Run
  starts; the context carries the path of the configuration file. The order in which Run visits the modules is an argument.\<close>

definition cpu_configure :: "element \<Rightarrow> CPU \<times> cpu_state \<Rightarrow> string option \<times> CPU \<times> cpu_state" where
  "cpu_configure e st =
     (case st of (c, w) \<Rightarrow> (case Cpu_Configure e (c, modules w) of (err, c', mods) \<Rightarrow> (err, c', w\<lparr>modules := mods\<rparr>)))"

definition cpu_runner :: "os_api \<Rightarrow> zmq_api \<Rightarrow> (cpu_state \<Rightarrow> string list) \<Rightarrow> Context \<Rightarrow> CPU \<Rightarrow> string \<Rightarrow> string \<Rightarrow> cpu_state \<Rightarrow> run_error option outcome \<times> cpu_state" where
  "cpu_runner os zmq visit ctx c pub pull w =
     (case Cpu_Run os zmq c (visit w) ctx pub pull w of
        Done (err, w') \<Rightarrow> (Done (map_option Plain_Error err), w')
      | Panic \<Rightarrow> (Panic, w)
      | Diverge \<Rightarrow> (Diverge, w))"

definition cpu_ops :: "os_api \<Rightarrow> zmq_api \<Rightarrow> (cpu_state \<Rightarrow> string list) \<Rightarrow> Context \<Rightarrow> (CPU, cpu_state) module_ops" where
  "cpu_ops os zmq visit ctx = \<lparr>Name = cpu_name, Configure = cpu_configure, Run = (\<lambda>c. Some (cpu_runner os zmq visit ctx c))\<rparr>"

definition cpu_registry :: "CPU otsim" where
  "cpu_registry = AddModuleFactory ''cpu'' NewCpuModule no_modules"

definition cpu_main :: "os_api \<Rightarrow> zmq_api \<Rightarrow> (cpu_state \<Rightarrow> string list) \<Rightarrow> nat \<Rightarrow> string \<Rightarrow> document \<Rightarrow> cpu_state \<Rightarrow> int option outcome \<times> CPU list \<times> cpu_state" where
  "cpu_main os zmq visit argc path doc w =
     program_main (cpu_ops os zmq visit (SetConfigFile Background path)) cpu_registry argc doc w"

text \<open>Before Run nothing was started: the state holds the modules of the configuration and nothing else.\<close>

definition cpu_fresh :: "cpu_state \<Rightarrow> bool" where
  "cpu_fresh w \<longleftrightarrow> (\<exists>p. w = fresh_cpu (modules w) p) \<and> (\<forall>n m. modules w n = Some m \<longrightarrow> (\<exists>e. m = module_of e \<and> mod_name m = n))"

lemma cpu_fresh_ok:
  assumes "cpu_fresh w"
  shows "cpu_ok w"
proof -
  obtain p where p: "w = fresh_cpu (modules w) p" using assms unfolding cpu_fresh_def by blast
  have mods: "\<exists>e. m = module_of e \<and> mod_name m = n" if "modules w n = Some m" for n m
    using assms that unfolding cpu_fresh_def by blast
  have "canceler m = None \<and> \<not> initialized m \<and> mod_name m = n" if "modules w n = Some m" for n m
    using mods [OF that] by (auto simp: module_of_def)
  then have "cpu_ok (fresh_cpu (modules w) p)" by (intro fresh_cpu_ok) (auto simp: keys_ok_def)
  then show ?thesis by (subst p)
qed

lemma cpu_fresh_configured:
  assumes "cpu_fresh w" "cpu_configure e (c, w) = (err, c', w')"
  shows "cpu_fresh w'"
proof -
  obtain mods where m: "cpu_children (ChildElements e) (c, modules w) = (err, c', mods)" "w' = w\<lparr>modules := mods\<rparr>"
    using assms(2) by (auto simp: cpu_configure_def Cpu_Configure_def split: prod.splits)
  obtain p where "w = fresh_cpu (modules w) p" using assms(1) by (auto simp: cpu_fresh_def)
  then have "w' = fresh_cpu mods p" using m(2) by (metis (no_types, lifting) fresh_cpu_def cpu_state.update_convs(1))
  moreover have "\<And>n m. mods n = Some m \<Longrightarrow> \<exists>e. m = module_of e \<and> mod_name m = n"
    by (rule cpu_children_modules [OF m(1)]) (use assms(1) in \<open>auto simp: cpu_fresh_def\<close>)
  moreover have "modules (fresh_cpu mods p) = mods" by (simp add: fresh_cpu_def)
  ultimately show ?thesis unfolding cpu_fresh_def by metis
qed

interpretation cpk: module_kind "cpu_ops os zmq visit ctx" "\<lambda>g c. True" cpu_fresh NewCpuModule for os zmq visit ctx
  by unfold_locales (auto simp: cpu_ops_def dest: cpu_fresh_configured)

lemma Cpu_Run_ok:
  assumes "cpu_ok w" "Cpu_Run os zmq c order ctx pub pull w = Done (err, w')"
  shows "cpu_ok w'"
proof -
  obtain e w1 where w1: "start_modules os c order ctx w = Done (e, w1)" "w' = w1 \<or> (\<exists>p. w' = w1\<lparr>cpu_pusher := p\<rparr>)"
    using assms(2) by (auto simp: Cpu_Run_def split: outcome.splits prod.splits option.splits)
  have ok1: "cpu_ok w1" by (rule starting.keeps_ok [OF assms(1) w1(1)])
  have "cpu_ok (w1\<lparr>cpu_pusher := p\<rparr>)" for p
    by (rule calm_ok [OF ok1])
      (use ok1 chans_ok_cong [of "w1\<lparr>cpu_pusher := p\<rparr>" w1] in \<open>auto simp: calm_def dest: cpu_okD\<close>)
  with ok1 w1(2) show ?thesis by blast
qed

lemma run_all_cpu_ok: "run_all (cpu_ops os zmq visit ctx) pub pull cs w = Some w' \<Longrightarrow> cpu_ok w \<Longrightarrow> cpu_ok w'"
proof (induction cs arbitrary: w)
  case (Cons c cs)
  obtain w1 where w1: "Cpu_Run os zmq c (visit w) ctx pub pull w = Done (None, w1)" "run_all (cpu_ops os zmq visit ctx) pub pull cs w1 = Some w'"
    using Cons.prems(1) by (auto simp: cpu_ops_def cpu_runner_def split: outcome.splits prod.splits option.splits)
  show ?case by (rule Cons.IH [OF w1(2) Cpu_Run_ok [OF Cons.prems(2) w1(1)]])
qed simp

text \<open>The invariant of the CPU module holds in every state of its program, whatever the configuration file holds and however many
  modules it has.\<close>

lemma cpu_program_ok:
  assumes "cpu_main os zmq visit argc path doc (fresh_cpu Map.empty p) = (Done None, started, w)" "cpu_steps os w w'"
  shows "cpu_ok w'"
proof -
  let ?ops = "cpu_ops os zmq visit (SetConfigFile Background path)"
  have r: "Run ?ops m \<noteq> None" for m by (simp add: cpu_ops_def)
  obtain s' w0 where s': "ParseConfigFile ?ops doc cpu_registry (fresh_cpu Map.empty p) = (None, s', w0)"
    "run_all ?ops (ot_pubEndpoint s') (ot_pullEndpoint s') started w0 = Some w"
    by (rule program_runs_all [OF assms(1) [unfolded cpu_main_def] r])
  have reg: "ran (factories cpu_registry) \<subseteq> {NewCpuModule}" "runners cpu_registry = []" "cpu_fresh (fresh_cpu Map.empty p)"
    by (auto simp: cpu_registry_def AddModuleFactory_def no_modules_def cpu_fresh_def fresh_cpu_def)
  from cpk.parsed_good [OF reg s'(1)] have "cpu_ok w0" by (blast intro: cpu_fresh_ok)
  from run_all_cpu_ok [OF s'(2) this] cpu_steps_ok [OF assms(2)] show ?thesis by blast
qed

text \<open>The path of the configuration file is always there: Run of the CPU module never panics over it.\<close>

lemma ConfigFile_kept:
  "ConfigFile (ctxSetLokiEndpoint ctx x) = ConfigFile ctx" "ConfigFile (ctxSetElasticIndex ctx x) = ConfigFile ctx"
  "ConfigFile (ctxSetElasticEndpoint ctx x) = ConfigFile ctx" "ConfigFile (SetConfigFile ctx path) = (path, True)"
  by (simp_all add: ConfigFile_def ctxSetLokiEndpoint_def ctxSetElasticIndex_def ctxSetElasticEndpoint_def SetConfigFile_def)

lemma module_init_returns: "snd (ConfigFile ctx) \<Longrightarrow> \<exists>m'. module_init ctx m = Done m'"
  by (cases "ConfigFile ctx") (simp add: module_init_def MustConfigFile_def Let_def)

lemma start_modules_returns:
  "snd (ConfigFile ctx) \<Longrightarrow> \<exists>r. start_modules os c order ctx w = Done r"
proof (induction order arbitrary: ctx w)
  case (Cons n ns)
  show ?case
  proof (cases "modules w n")
    case (Some m)
    let ?ctx = "ctxSetLokiEndpoint (ctxSetElasticIndex (ctxSetElasticEndpoint ctx (elasticEndpoint c)) (elasticIndex c)) (lokiEndpoint c)"
    have cf: "snd (ConfigFile ?ctx)" using Cons.prems by (simp add: ConfigFile_kept)
    then obtain m' where "module_init ?ctx m = Done m'" using module_init_returns by blast
    then obtain e w' where st: "StartModule os ?ctx m w = Done (e, w')"
      by (cases "LookPath os (mod_path m')") (auto simp: StartModule_def Let_def)
    show ?thesis using Some st Cons.IH [OF cf, of w'] by (cases e) (simp_all add: Let_def)
  qed (use Cons in simp)
qed simp

lemma cpu_program_no_panic:
  assumes "sockets_granted zmq"
  shows "\<exists>code. fst (cpu_main os zmq visit 2 path doc w) = Done code"
proof -
  let ?ctx = "SetConfigFile Background path"
  let ?ops = "cpu_ops os zmq visit ?ctx"
  have p: "\<exists>q. MustNewPusher zmq x = Done q" for x using assms by (simp add: MustNewPusher_def NewPusher_def sockets_granted_def)
  have run: "\<exists>err w'. cpu_runner os zmq visit ?ctx c pub pull w = (Done err, w')" for c pub pull w
    using start_modules_returns [of ?ctx os c "visit w" w] p [of "snd (cpu_endpoints c pub pull)"]
    by (auto simp: cpu_runner_def Cpu_Run_def ConfigFile_kept split: option.split)
  have all: "\<exists>st e w'. start_runners ?ops pub pull ms w = (st, Done e, w')" for ms pub pull w
  proof (induction ms arbitrary: w)
    case (Cons c ms)
    obtain err w1 where r: "cpu_runner os zmq visit ?ctx c pub pull w = (Done err, w1)" using run by blast
    with Cons.IH [of w1] show ?case by (cases err) (auto simp: cpu_ops_def)
  qed simp
  obtain e s' w' where pc: "ParseConfigFile ?ops doc cpu_registry w = (e, s', w')" by (cases "ParseConfigFile ?ops doc cpu_registry w")
  obtain st e' w'' where "Start ?ops s' w' = (st, Done e', w'')" using all by (fastforce simp: Start_def)
  with pc show ?thesis
    by (cases e) (auto simp: cpu_main_def program_main_def main_start_def split: option.split run_error.split)
qed

section \<open>Exit codes\<close>

text \<open>A program that waits ends by a signal to terminate or to interrupt, and then without an error.\<close>

lemma waiting_program_ends:
  "program_end (CancelContext None received) = (if SIGTERM \<in> set received \<or> SIGINT \<in> set received then Some 0 else None)"
  by (simp add: program_end_def CancelContext_def)

text \<open>What makes the CPU module give up on a module: nothing disturbed its program but signals that are caught, the program was called
  properly, and its configuration file was refused or the Run of a module failed with an exit code whose low eight bits are those of the code that
  forbids a restart.\<close>

definition asks_no_restart :: "('m, 'g) module_ops \<Rightarrow> 'm otsim \<Rightarrow> nat \<Rightarrow> document \<Rightarrow> 'g \<Rightarrow> fate \<Rightarrow> bool" where
  "asks_no_restart ops s argc doc g f \<longleftrightarrow>
     f \<noteq> Goroutine_Panics \<and> f \<noteq> Killed_By_System \<and> argc = 2 \<and>
     (case ParseConfigFile ops doc s g of
        (Some err, _) \<Rightarrow> True
      | (None, s1, g1) \<Rightarrow> (case Start ops s1 g1 of (_, Done (Some (Exit_Error e)), _) \<Rightarrow> ExitCode e mod 256 = ExitNoRestart | _ \<Rightarrow> False))"

lemma exit_status_no_restart:
  assumes "program_main ops s argc doc g = (r, started, g')" "exit_status r f = Some code"
  shows "code = ExitNoRestart \<longleftrightarrow> asks_no_restart ops s argc doc g f"
proof -
  obtain e s1 g1 where pc: "ParseConfigFile ops doc s g = (e, s1, g1)" by (cases "ParseConfigFile ops doc s g")
  obtain st x g2 where start: "Start ops s1 g1 = (st, x, g2)" by (cases "Start ops s1 g1")
  show ?thesis
  proof (cases f)
    case (Signals received)
    show ?thesis using assms pc start Signals
      by (cases "argc = 2"; cases e)
        (auto simp: program_main_def main_start_def exit_status_def asks_no_restart_def ExitNoRestart_def waiting_program_ends
          split: outcome.splits option.splits run_error.splits if_splits)
  qed (use assms(2) in \<open>auto simp: exit_status_def asks_no_restart_def ExitNoRestart_def\<close>)
qed

text \<open>C19: the CPU module gives up on a module exactly when the module asks for it. Whatever main program ends and however it ends, in its main function, by
  signals while it waits, by a panic of any goroutine or killed, with whatever exit status: the goroutine of
  the CPU module that watches it returns for good if nothing but caught signals disturbed the program, it was called properly, and its configuration file was refused or the
  Run of a module failed with the code that forbids a restart, modulo 256. In every other case the goroutine goes on and, when the system can start a process, starts
  the same command again and watches it.\<close>

theorem supervised_exit:
  assumes "program_main ops s argc doc g = (r, started, g')" "exit_status r f = Some code"
    and "i < length (goroutines w)" "modules w (go_mod (goroutines w ! i)) = Some m" "go_phase (goroutines w ! i) = Waiting p ch" "p < length (processes w)"
  shows "if asks_no_restart ops s argc doc g f
    then goroutine_step os OnWait i (set_status p (Exited code) w) = Some (go_return i (set_status p (Exited code) w))
    else \<exists>w1 w2. goroutine_step os OnWait i (set_status p (Exited code) w) = Some w1 \<and> goroutine_step os StartOk i w1 = Some w2 \<and>
      processes w2 = processes (set_status p (Exited code) w) @ [command os (goroutines w ! i) m] \<and> supervises w2 i (length (processes w)) \<and> waiter w2 = waiter w"
proof -
  have "i < length (goroutines (set_status p (Exited code) w))" "modules (set_status p (Exited code) w) (go_mod (goroutines (set_status p (Exited code) w) ! i)) = Some m"
    "go_phase (goroutines (set_status p (Exited code) w) ! i) = Waiting p ch" "proc_status (processes (set_status p (Exited code) w) ! p) = Exited code"
    using assms(3-6) by simp_all
  from dead_process_step [OF this, of os] exit_status_no_restart [OF assms(1,2)] show ?thesis by (auto split: if_splits)
qed

section \<open>Instances\<close>

theorem logic_program_invariant_witness:
  "\<exists>started b l. logic_main demo_impl demo_compiler open_zmq demo_socket 2 (one_module ''logic'' [] demo_program) = (Done None, started, [b]) \<and>
     module_state b = Done l \<and> set (lg_variables l) \<subseteq> dom (lg_env l)"
proof -
  let ?doc = "one_module ''logic'' [] demo_program"
  obtain l where l: "Logic_Configure demo_impl demo_compiler demo_program (NewLogic ''logic'' demo_socket) = Inr l" "lg_program l 0 \<noteq> None"
    using demo_program_ok by blast
  have ne: "lg_program l \<noteq> Map.empty" using l(2) by auto
  then obtain b where b: "Logic_Run open_zmq [] [] l = Done (None, Some b)"
    by (simp add: Logic_Run_def subscribed_def open_sockets Let_def)
  then have b': "\<exists>l'. module_state b = Done l'" using Logic_Run_state(2) by blast
  have main: "logic_main demo_impl demo_compiler open_zmq demo_socket 2 ?doc = (Done None, [l], [b])"
    unfolding logic_main_def
    by (rule program_main_one [where m = "NewLogic ''logic'' demo_socket" and ?g1.0 = "[]"])
      (simp_all add: logic_registry_def AddModuleFactory_def no_modules_def logic_factory_def NewLogicModule_def logic_ops_def own_configure_def l b launch_def)
  from b' obtain l' where "module_state b = Done l'" by blast
  with logic_program_invariant [OF main _ ticking.started this] main show ?thesis by auto
qed

theorem supervised_exit_witness:
  "fst (modbus_main demo_impl demo_world demo_socket 2 (Inr None)) = Done (Some ExitNoRestart) \<and>
   goroutine_step demo_os OnWait 0 (set_status 0 (Exited ExitNoRestart) (demo_cpu (Some 0) 1 (Waiting 0 (Some 0)) [demo_process Running] False)) =
     Some (go_return 0 (set_status 0 (Exited ExitNoRestart) (demo_cpu (Some 0) 1 (Waiting 0 (Some 0)) [demo_process Running] False)))"
proof -
  let ?w = "demo_cpu (Some 0) 1 (Waiting 0 (Some 0)) [demo_process Running] False"
  let ?ops = "modbus_ops demo_impl demo_world"
  have pc: "ParseConfigFile ?ops (Inr None) (modbus_registry demo_socket) [] = (Some ''root element of XML config file must be ot-sim'', modbus_registry demo_socket, [])"
    by (simp add: ParseConfigFile_def)
  have m: "program_main ?ops (modbus_registry demo_socket) 2 (Inr None) [] = (Done (Some ExitNoRestart), [], [])"
    by (simp add: program_main_def pc main_start_def)
  have w: "0 < length (goroutines ?w)" "modules ?w (go_mod (goroutines ?w ! 0)) = Some (demo_module (Some 0))" "go_phase (goroutines ?w ! 0) = Waiting 0 (Some 0)"
    "0 < length (processes ?w)" by (simp_all add: demo_cpu_def)
  have e: "exit_status (Done (Some ExitNoRestart)) (Signals []) = Some ExitNoRestart" by (simp add: exit_status_def ExitNoRestart_def)
  have "asks_no_restart ?ops (modbus_registry demo_socket) 2 (Inr None) [] (Signals [])" by (simp add: asks_no_restart_def pc)
  with supervised_exit [OF m e w, of demo_os] m show ?thesis by (simp add: modbus_main_def)
qed

end
