(* ===== verification/Spec2Isabelle.thy ===== *)
theory Spec2Isabelle
  imports Prelude GoFloat GoStd GoJson GoText Etree ModbusUtil Msgbus Subscriber ModbusServer ModbusServerCorrect
    ModbusClient ModbusLink Logic LogicCorrect OtSim SunSpec SunSpecServer SunSpecServerCorrect SunSpecLayout
    SunSpecClient SunSpecLink SunSpecScaling SunSpecSchema Util Cpu CpuCorrect CpuBus CpuLogs CpuApi CpuRoutes Telnet TelnetLink Mqtt MqttLife
    Programs Runs Modules
begin

text \<open>
  OT-sim is a simulator of operational technology devices made of independent modules
  that exchange measurements and commands over a message bus. Its Go part (src/src/go) consists of
  the core that reads an XML file and starts modules (ot-sim.go), the message bus library (msgbus), the Modbus
  module (modbus: shared registers, a server and a client), the logic module (logic), and further modules
  (sunspec, cpu, mqtt, telnet, nodered, tailscale) with one main program each (cmd). A module pushes status
  messages (measurements by tag) and update messages (commands by tag) to the bus and subscribes to those of the
  others; a Modbus server exposes tags as registers, a Modbus client polls registers of a device and reports
  them as measurements, the logic module computes variables that are tied to tags. SunSpec servers and clients do
  the same with models of registers that describe themselves. The CPU module runs the other modules as child
  processes and offers an HTTP interface, telnet a shell, MQTT publication to a broker; the Node-RED and Tailscale
  modules run another program.

  \<^bold>\<open>The library.\<close>
  \<^item> Prelude: machine types, results (an error is the left summand, a panic and an endless wait are outcomes of
    their own), Go slices with their capacity, maps with a zero value.
  \<^item> GoFloat, GoStd, GoJson, GoText: the parts of the language and its library the program uses: float64 and
    float32 arithmetic on their bit patterns with round-to-nearest-even, conversions to integers, the loop of
    math.Pow for base ten, big-endian encoding, strconv, time.ParseDuration, encoding/json with its rules for
    partial decoding, strings. What Go leaves to the implementation (conversion of a float that does not fit)
    is the record go_impl, an argument of every definition that depends on it. Text is a list of bytes that is
    valid UTF-8.
  \<^item> Etree: an XML element is the answers of the accessors the program calls; nothing else is assumed.

  \<^bold>\<open>The components\<close> and the source they model, with the operations under the names of the source:
  \<^item> ModbusUtil: modbus/util/register.go (Register, Init, Scaled, Bytes, Value) and bytes.go. Its lemmas show the
    round trips between wire bytes and values, and the truncation of scaled values.
  \<^item> Msgbus: msgbus/envelope.go, runtime.go, module.go, health.go, metric.go, pusher.go. JSON text is its syntax
    tree; the ZeroMQ socket is a function that accepts or refuses each send. Its lemmas show that messages travel
    unchanged; the locale bus_handler is the contract of every module that subscribes.
  \<^item> Subscriber: msgbus/subscriber.go. The goroutine's copy of the subscriber is part of the state, since the
    loop has a value receiver. Its lemmas say what is dispatched, and what Stop and late confirmations do.
  \<^item> ModbusServer: modbus/server/server.go, coil.go, discrete.go, input.go, holding.go. The state is the struct; a
    handler takes the data of a frame and returns the reply or a panic, and the new state; function_handler is the
    table that Run registers. The locks around single map accesses protect what is here one step. The read and
    write loops advance by the width of a register and take the number of requested words as fuel, which is
    enough because every initialised register has at least one word; running out of fuel is the outcome
    Diverge, and modbus_program_answers shows it never happens. server_run is the state machine of a running
    server.
  \<^item> ModbusServerCorrect: what the server promises to its clients and to the bus. The locale write_handler is what
    every write handler leaves alone, announcing_handler what it tells the bus; both are interpreted on all four.
  \<^item> ModbusClient: modbus/client/client.go and modbus/modbus.go. The Modbus library is a record of operations on
    the state of the remote device; the order in which Go visits a map is an argument.
  \<^item> ModbusLink: a client and a server of this program connected by a library that carries frames as the Modbus
    protocol defines them.
  \<^item> Logic and LogicCorrect: logic/logic.go. The expression library is a parameter that compiles text and
    evaluates a program on the environment. The mutex is a field of the state: a step that finds it locked is
    Diverge. logic_run is the state machine of a running module.
  \<^item> OtSim: ot-sim.go, over the operations of a kind of modules and the state they share. The locale module_kind is what
    a factory and a configuration guarantee.
  \<^item> SunSpec, SunSpecServer, SunSpecClient: sunspec/common, sunspec/server/server.go, sunspec/client/client.go and
    util.go, sunspec/sunspec.go. The model definitions embedded in the program are a parameter; SunSpecSchema
    (sunspec/common/types.go) says how they come from model files, with the depth of the JSON value as a bound for
    nested groups that Group_UnmarshalJSON_rec shows to be irrelevant, and what the type checks guarantee. The server keeps its
    registers in a heap, because the program shares them between models. SunSpecServerCorrect and SunSpecLayout hold the
    invariant of a configured server, SunSpecLink connects a client to a server, SunSpecScaling shows what
    becomes of scale factors and of writes.
  \<^item> Util: util/context.go, exit.go, slice.go, and cpu/context.go.
  \<^item> Cpu and CpuCorrect: cpu/cpu.go, execute.go, internal.go and the module handlers of api.go. Every started module has a
    goroutine; its statements are the steps of the relation cpu_step, interleaved with each other, with exits of
    processes, with the end of the context and with requests, each of which is one step. A process that was sent SIGKILL is killed until the
    system ends it. The locale request is the
    contract of everything that changes modules from outside, interpreted on the bus messages, on the HTTP requests
    and on Run. cpu_ok is the invariant of every reachable state.
  \<^item> CpuBus: cpu/monitor.go, metrics.go and the monitors of Run. A monitor that is started again after an error takes
    one more than the number of inputs as fuel, which is enough as long as sockets can be opened, since each restart
    consumes one.
  \<^item> CpuLogs: the shipping of log lines in execute.go. CpuApi and CpuRoutes: the HTTP interface in api.go, its
    handlers and its table of routes. The router is a parameter; first_match is its documented rule.
  \<^item> Telnet: telnet/telnet.go and modules.go. TelnetLink: its commands on modules travel to the CPU module and back, and
    what its Run means for the program it is part of.
  \<^item> Mqtt: mqtt/mqtt.go and types.go. The loop that connects takes a bound on the attempts; mqtt_reconnects says when
    it is enough. mqtt_run is the state machine of a running module. MqttLife: the calls of connectAndRun and the
    publishing goroutines that come and go with lost connections, each attempt and each publication one step.
  \<^item> Programs: nodered/nodered.go, tailscale/tailscale.go, and the exit codes and the waiting of the main programs under cmd.
  \<^item> Runs: the whole Run of the Modbus server and client, of the logic module and of the SunSpec server and client, with the
    subscriber it starts. The locale bus_module says what reaches a module that has subscribed. The relations serving,
    polling, ticking and sunspec_serving interleave messages, requests and timers after Run.
  \<^item> Modules: the main functions under cmd as programs, each with the factories that the packages it imports register, and
    util/sigterm/context.go. Running modules are the state that Start leaves. The locale launching extends module_kind by
    modules whose Run adds itself to that state; module_kind and launching are interpreted on the Modbus, logic, MQTT, SunSpec and CPU
    modules. The attempts of the MQTT module to connect at its start are bounded by a parameter.
  \<^item> This theory: properties that span components.

  \<^bold>\<open>Properties.\<close> Each theorem that follows a text starting with C and a number is a property of the program; a
  witness theorem instantiates its hypotheses. Most state that the code does what it is meant to do: requests are
  answered, values survive the wire and the bus, clients find what servers were configured with, child processes
  are supervised, restarted and stopped, brokers are tried in turn, and what holds of a module holds from the configuration file
  of its program on. Some show where it does not: a complete write that ends inside of a register and crashes the Modbus server, writes that are refused
  but not undone, a round of the logic program that never releases its mutex, a write handler that never returns,
  scale factors that are ignored, models that are read but cannot be served, a second request to disable a module that crashes the CPU module, a malformed message
  that ends the control of modules, log lines that are never sent, a shell that keeps
  its program from starting, and child processes that outlive their module.

  \<^bold>\<open>Not modelled.\<close> Log output; the goroutines that wait for the end of the program and close sockets; the
  third-party libraries (ZeroMQ, mbserver, modbus, expr, etree, mux, websocket, Prometheus, MQTT, telnet, bcrypt, templates,
  TLS), which are parameters or stand outside the handlers; the values of the random functions and of sprintf, which belong to
  the expression library. A signal is the end of the context; the time it takes to arrive is not modelled. The C, C++, Python and JavaScript parts of the repository are separate programs
  on the same bus.
\<close>

section \<open>Modules on the bus\<close>

text \<open>C26: no module hears itself. For the Modbus server, the Modbus client, the logic module, the SunSpec server, the telnet
  module and the MQTT module alike, a sequence of messages has the effect of those that other modules sent: messages with the module's own name as
  sender could be left out anywhere.\<close>

theorem own_messages_ignored:
  "fold handleMsgBusStatus envs s = fold handleMsgBusStatus (filter (\<lambda>env. Sender env \<noteq> srv_name s) envs) s \<and>
   fold (handleMsgBusUpdate impl api) envs (c, d) =
     fold (handleMsgBusUpdate impl api) (filter (\<lambda>env. Sender env \<noteq> cl_name c) envs) (c, d) \<and>
   fold (\<lambda>env. settle (Logic_handleMsgBusStatus env)) envs l =
     fold (\<lambda>env. settle (Logic_handleMsgBusStatus env)) (filter (\<lambda>env. Sender env \<noteq> lg_name l) envs) l \<and>
   fold (\<lambda>env. settle (Logic_handleMsgBusUpdate env)) envs l =
     fold (\<lambda>env. settle (Logic_handleMsgBusUpdate env)) (filter (\<lambda>env. Sender env \<noteq> lg_name l) envs) l \<and>
   fold sunspec_handleMsgBusStatus envs t = fold sunspec_handleMsgBusStatus (filter (\<lambda>env. Sender env \<noteq> sv_name t) envs) t \<and>
   fold telnet_handleMsgBusStatus envs n = fold telnet_handleMsgBusStatus (filter (\<lambda>env. Sender env \<noteq> tn_name n) envs) n \<and>
   fold (\<lambda>env c. fst (mqtt_handleMsgBusStatus env c)) envs q =
     fold (\<lambda>env c. fst (mqtt_handleMsgBusStatus env c)) (filter (\<lambda>env. Sender env \<noteq> mq_name q) envs) q"
  using tns.echo_free [of envs n] mqs.echo_free [of envs q] sss.echo_free [of envs t] srv.echo_free [of envs s] cl.echo_free [of impl api envs "(c, d)"] lgs.echo_free [of envs l] lgu.echo_free [of envs l]
  unfolding fst_conv by blast

lemma statuses_to_tags:
  fixes s :: ModbusServer
  assumes "\<forall>(n, st, env) \<in> set ms. NewEnvelope n (C_Status st) = Inr env"
  defines "s' \<equiv> fold (\<lambda>(n, st, env) s. fold (\<lambda>h. h env) [handleMsgBusStatus] s) ms s"
  shows "srv_registers s' = srv_registers s" "srv_name s' = srv_name s"
    "srv_tags s' = apply_points (concat (map (\<lambda>(n, st, env). if n = srv_name s then [] else Measurements st) ms)) (srv_tags s)"
proof -
  let ?f = "\<lambda>(n, st, env) s. fold (\<lambda>h. h env) [handleMsgBusStatus] s"
  have "srv_registers (fold ?f ms s) = srv_registers s \<and> srv_name (fold ?f ms s) = srv_name s \<and>
      srv_tags (fold ?f ms s) = apply_points (concat (map (\<lambda>(n, st, env). if n = srv_name s then [] else Measurements st) ms)) (srv_tags s)"
    using assms(1)
  proof (induction ms arbitrary: s)
    case (Cons m ms)
    obtain n st env where m: "m = (n, st, env)" by (cases m)
    then have env: "NewEnvelope n (C_Status st) = Inr env" using Cons.prems by auto
    have "srv_tags (handleMsgBusStatus env s) = (if n = srv_name s then srv_tags s else apply_points (Measurements st) (srv_tags s))"
      using status_from_other [OF env] srv.own_ignored [of env s] Sender_NewEnvelope [OF env] by auto
    with Cons.IH [of "handleMsgBusStatus env s"] Cons.prems show ?case by (simp add: m apply_points_append handleMsgBusStatus_frame)
  qed simp
  then show "srv_registers s' = srv_registers s" "srv_name s' = srv_name s"
    "srv_tags s' = apply_points (concat (map (\<lambda>(n, st, env). if n = srv_name s then [] else Measurements st) ms)) (srv_tags s)"
    by (simp_all add: s'_def)
qed

text \<open>C5: measurements on the bus become register values. A server that was started with Run and receives any
  sequence of statuses survives it with its registers unchanged, and its tags are those of the configuration overwritten, in
  order, by exactly the measurements of the statuses it did not send itself.\<close>

theorem bus_to_tags:
  assumes "Server_Run zmq ListenTCP ListenRTU pub pull s = Done (err, b)" "\<forall>(n, st, env) \<in> set ms. NewEnvelope n (C_Status st) = Inr env"
  shows "\<exists>b'. run_loop (map (\<lambda>(n, st, env). on_topic ''RUNTIME'' env) ms) b = Done b' \<and>
    srv_registers (module_state b') = srv_registers s \<and>
    srv_tags (module_state b') =
      apply_points (concat (map (\<lambda>(n, st, env). Measurements st) (filter (\<lambda>(n, st, env). n \<noteq> srv_name s) ms))) (srv_tags s)"
proof -
  obtain p where p: "module_state b = Server_start p s" using Server_Run_state(1) [OF assms(1)] by blast
  have start: "srv_registers (Server_start p s) = srv_registers s" "srv_name (Server_start p s) = srv_name s" "srv_tags (Server_start p s) = srv_tags s"
    by (simp_all add: Server_start_def)
  have "map (\<lambda>(n, st, env). if n = srv_name s then [] else Measurements st) ms =
      map (\<lambda>m. if (\<lambda>(n, st, env). n \<noteq> srv_name s) m then (\<lambda>(n, st, env). Measurements st) m else []) ms"
    by auto
  then have "concat (map (\<lambda>(n, st, env). if n = srv_name s then [] else Measurements st) ms) =
      concat (map (\<lambda>(n, st, env). Measurements st) (filter (\<lambda>(n, st, env). n \<noteq> srv_name s) ms))"
    by (simp only: concat_map_if)
  with srv_bus.statuses_heard [OF assms] statuses_to_tags [OF assms(2), of "module_state b"] show ?thesis
    by (simp add: p start)
qed

theorem bus_to_tags_witness:
  "\<exists>env b b'. NewEnvelope ''rtu'' (C_Status \<lparr>Measurements = [point ''v'' (f64_of_int 5)]\<rparr>) = Inr env \<and>
    Server_Run open_zmq (\<lambda>_. None) (\<lambda>_. None) [] [] (demo_server ''input'' (demo_reg ''input'' ''uint16'' 7 1 0 ''v'')) = Done (None, b) \<and>
    run_loop [on_topic ''RUNTIME'' env] b = Done b' \<and> srv_tags (module_state b') = [''v'' \<mapsto> f64_of_int 5]"
proof -
  let ?st = "\<lparr>Measurements = [point ''v'' (f64_of_int 5)]\<rparr>"
  let ?s = "demo_server ''input'' (demo_reg ''input'' ''uint16'' 7 1 0 ''v'')"
  have "points_finite (Measurements ?st)" using f64_of_int_exact(2) [of 5] by (simp add: points_finite_def point_def)
  then obtain env where env: "NewEnvelope ''rtu'' (C_Status ?st) = Inr env"
    using NewEnvelope_fails_iff(1) [of "''rtu''" ?st] by blast
  have "srv_endpoint ?s = []" "srv_serial ?s = None" by (simp_all add: demo_server_def NewServer_def)
  then obtain b where b: "Server_Run open_zmq (\<lambda>_. None) (\<lambda>_. None) [] [] ?s = Done (None, b)"
    by (cases "Server_endpoints [] [] ?s") (simp add: Server_Run_def Server_listen_def subscribed_def open_sockets)
  from bus_to_tags [OF b, of "[(''rtu'', ?st, env)]"] env b show ?thesis by (auto simp: demo_server_simps point_def)
qed

end
